(* ===== verification/Float64.thy ===== *)
theory Float64
  imports Prelude "HOL-Library.Log_Nat"
begin

text \<open>
  Go's \<^verbatim>\<open>float64\<close>: IEEE 754 binary64 with rounding to nearest, ties to even. A finite value is
  the rational number it stands for; there is one zero, which stands for the positive one (no
  source of trimon produces or divides by a negative zero). The operations are executable.

  The locale \<open>rounding\<close> states what the probe and server components need of the rounding:
  it is monotone, odd, and exact on the numbers with a 53-bit significand. Its interpretation
  \<open>r64\<close> proves these laws of binary64.
\<close>

subsection \<open>The laws of rounding\<close>

locale rounding =
  fixes rd :: "rat \<Rightarrow> rat"
  assumes mono: "x \<le> y \<Longrightarrow> rd x \<le> rd y"
    and odd: "rd (- x) = - rd x"
    and exact: "\<bar>m\<bar> \<le> 2 ^ 53 \<Longrightarrow> -1074 \<le> e \<Longrightarrow> rd (of_int m * 2 powi e) = of_int m * 2 powi e"
begin

lemma exact_int: "\<bar>m\<bar> \<le> 2 ^ 53 \<Longrightarrow> rd (of_int m) = of_int m"
  using exact [of m 0] by simp

lemma zero [simp]: "rd 0 = 0"
  using exact_int [of 0] by simp

lemma one [simp]: "rd 1 = 1"
  using exact_int [of 1] by simp

lemma nonneg: "0 \<le> x \<Longrightarrow> 0 \<le> rd x"
  using mono [of 0 x] by simp

lemma tiny_exact: "rd (1 / 2 ^ 53) = 1 / 2 ^ 53"
  using exact [of 1 "-53"] by (simp add: power_int_def field_simps)

lemma below_one_exact: "rd (1 - 1 / 2 ^ 53) = 1 - 1 / 2 ^ 53"
proof -
  have "rd (of_int (2 ^ 53 - 1) * 2 powi (-53)) = of_int (2 ^ 53 - 1) * 2 powi (-53)"
    by (rule exact) simp_all
  moreover have "of_int (2 ^ 53 - 1) * 2 powi (-53) = (1 - 1 / 2 ^ 53 :: rat)"
    by (simp add: power_int_def field_simps)
  ultimately show ?thesis by simp
qed

lemma open_unit:
  assumes "1 / 2 ^ 53 \<le> x" and "x \<le> 1 - 1 / 2 ^ 53"
  shows "1 / 2 ^ 53 \<le> rd x" and "rd x \<le> 1 - 1 / 2 ^ 53"
  using mono [OF assms(1)] mono [OF assms(2)] by (simp_all only: tiny_exact below_one_exact)

text \<open>A proper fraction of two numbers up to \<open>2 ^ 53\<close> stays a proper fraction.\<close>

lemma fraction:
  assumes "0 < a" and "a < b" and "b \<le> 2 ^ 53"
  shows "1 / 2 ^ 53 \<le> rd (of_int a / of_int b)" and "rd (of_int a / of_int b) \<le> 1 - 1 / 2 ^ 53"
proof -
  have b: "(of_int b :: rat) \<le> 2 ^ 53" "(0 :: rat) < of_int b"
    using assms of_int_le_iff [of b "2 ^ 53", where ?'a = rat] by simp_all
  have "1 / 2 ^ 53 \<le> 1 / (of_int b :: rat)"
    using b by (simp add: field_simps)
  moreover have "1 / of_int b \<le> (of_int a / of_int b :: rat)"
    using assms b by (simp add: divide_right_mono)
  moreover have "of_int a / of_int b \<le> (1 - 1 / of_int b :: rat)"
  proof -
    have "(of_int a :: rat) \<le> of_int (b - 1)" using assms by (subst of_int_le_iff) simp
    then show ?thesis using b by (simp add: field_simps)
  qed
  ultimately have "1 / 2 ^ 53 \<le> (of_int a / of_int b :: rat)"
    "of_int a / of_int b \<le> (1 - 1 / 2 ^ 53 :: rat)" by linarith+
  then show "1 / 2 ^ 53 \<le> rd (of_int a / of_int b)" "rd (of_int a / of_int b) \<le> 1 - 1 / 2 ^ 53"
    by (rule open_unit)+
qed

text \<open>And so does its complement.\<close>

lemma complement:
  assumes "0 < a" and "a < b" and "b \<le> 2 ^ 53"
  shows "1 / 2 ^ 53 \<le> rd (1 - rd (of_int a / of_int b))"
    and "rd (1 - rd (of_int a / of_int b)) \<le> 1 - 1 / 2 ^ 53"
proof -
  have "1 / 2 ^ 53 \<le> 1 - rd (of_int a / of_int b)" "1 - rd (of_int a / of_int b) \<le> 1 - 1 / 2 ^ 53"
    using fraction [OF assms] by linarith+
  then show "1 / 2 ^ 53 \<le> rd (1 - rd (of_int a / of_int b))"
    "rd (1 - rd (of_int a / of_int b)) \<le> 1 - 1 / 2 ^ 53"
    by (rule open_unit)+
qed

end

subsection \<open>Rounding to the nearest integer, ties to even\<close>

definition round_even :: "rat \<Rightarrow> int" where
  "round_even x =
     (let n = \<lfloor>x\<rfloor>; r = x - of_int n in
      if r < 1 / 2 then n else if 1 / 2 < r then n + 1 else if even n then n else n + 1)"

lemma round_even_int [simp]: "round_even (of_int n) = n"
  by (simp add: round_even_def Let_def)

lemma round_even_floor: "round_even x = \<lfloor>x\<rfloor> \<or> round_even x = \<lfloor>x\<rfloor> + 1"
  by (auto simp: round_even_def Let_def)

lemma round_even_mono:
  assumes "x \<le> y"
  shows "round_even x \<le> round_even y"
proof (cases "\<lfloor>x\<rfloor> = \<lfloor>y\<rfloor>")
  case True
  with assms show ?thesis by (auto simp: round_even_def Let_def)
next
  case False
  with floor_mono [OF assms] have "\<lfloor>x\<rfloor> + 1 \<le> \<lfloor>y\<rfloor>" by linarith
  with round_even_floor [of x] round_even_floor [of y] show ?thesis by linarith
qed

lemma round_even_near: "\<bar>of_int (round_even x) - x\<bar> \<le> 1 / 2"
proof -
  have "of_int \<lfloor>x\<rfloor> \<le> x" "x < of_int \<lfloor>x\<rfloor> + 1" by linarith+
  then show ?thesis by (auto simp: round_even_def Let_def abs_le_iff)
qed

subsection \<open>The exponent of a positive rational\<close>

definition expo :: "rat \<Rightarrow> int" where
  "expo x =
     (let (p, q) = quotient_of x; e = bitlen p - bitlen q
      in if 2 powi e \<le> x then e else e - 1)"

lemma bitlen_powi:
  assumes "0 < p"
  shows "2 powi (bitlen p - 1) \<le> (of_int p :: rat)" and "(of_int p :: rat) < 2 powi (bitlen p)"
proof -
  have b: "2 ^ nat (bitlen p - 1) \<le> p" "p < 2 ^ nat (bitlen p)"
    using bitlen_bounds [OF assms] by auto
  have pos: "0 < bitlen p" using bitlen_nonneg [of p] bitlen_eq_zero_iff [of p] assms by linarith
  have "(of_int (2 ^ nat (bitlen p - 1)) :: rat) \<le> of_int p"
    using b(1) by (simp only: of_int_le_iff)
  then show "2 powi (bitlen p - 1) \<le> (of_int p :: rat)"
    using pos by (simp add: power_int_def)
  have "(of_int p :: rat) < of_int (2 ^ nat (bitlen p))"
    using b(2) by (simp only: of_int_less_iff)
  then show "(of_int p :: rat) < 2 powi (bitlen p)"
    using pos by (simp add: power_int_def)
qed

lemma expo_bounds:
  assumes "0 < x"
  shows "2 powi (expo x) \<le> x" and "x < 2 powi (expo x + 1)"
proof -
  obtain p q where pq: "quotient_of x = (p, q)" by fastforce
  have q: "0 < q" using quotient_of_denom_pos [OF pq] .
  have x: "x = of_int p / of_int q" using quotient_of_div [OF pq] .
  with assms q have p: "0 < p" by (simp add: zero_less_divide_iff)
  define e where "e = bitlen p - bitlen q"
  note P = bitlen_powi [OF p] and Q = bitlen_powi [OF q]
  have up: "x < 2 powi (e + 1)"
  proof -
    have "(of_int p :: rat) < 2 powi (bitlen p)" by (rule P)
    also have "\<dots> = 2 powi (e + 1) * 2 powi (bitlen q - 1)"
      by (simp add: e_def power_int_add [symmetric])
    also have "\<dots> \<le> 2 powi (e + 1) * of_int q" using Q(1) by (intro mult_left_mono) simp_all
    finally show ?thesis using q x by (simp add: pos_divide_less_eq)
  qed
  have lo: "2 powi (e - 1) \<le> x"
  proof -
    have "2 powi (e - 1) * (of_int q :: rat) \<le> 2 powi (e - 1) * 2 powi (bitlen q)"
      using Q(2) by (intro mult_left_mono) simp_all
    also have "\<dots> = 2 powi (bitlen p - 1)"
      by (simp add: e_def power_int_add [symmetric])
    also have "\<dots> \<le> of_int p" by (rule P)
    finally show ?thesis using q x by (simp add: pos_le_divide_eq)
  qed
  have ex: "expo x = (if 2 powi e \<le> x then e else e - 1)"
    by (simp add: expo_def pq e_def Let_def)
  from up lo show "2 powi (expo x) \<le> x" "x < 2 powi (expo x + 1)"
    by (auto simp: ex)
qed

lemma powi_less_iff: "(2 :: rat) powi a < 2 powi b \<longleftrightarrow> a < b"
  by (metis linorder_not_less one_less_numeral_iff power_int_increasing power_int_strict_increasing
      one_le_numeral semiring_norm(76))

lemma powi_le_iff: "(2 :: rat) powi a \<le> 2 powi b \<longleftrightarrow> a \<le> b"
  by (meson linorder_not_less powi_less_iff)

lemma powi_quot:
  assumes "j \<le> k"
  shows "2 powi k / 2 powi j = (of_int (2 ^ nat (k - j)) :: rat)"
proof -
  have "2 powi k / 2 powi j = (2 powi (k - j) :: rat)" by (simp add: power_int_diff)
  with assms show ?thesis by (simp add: power_int_def)
qed

lemma expo_mono:
  assumes "0 < x" and "x \<le> y"
  shows "expo x \<le> expo y"
proof -
  have "2 powi (expo x) \<le> x" "y < 2 powi (expo y + 1)"
    using assms expo_bounds by auto
  with assms have "(2 :: rat) powi (expo x) < 2 powi (expo y + 1)" by linarith
  then show ?thesis by (simp only: powi_less_iff)
qed

lemma expo_eqI:
  assumes "2 powi e \<le> x" and "x < 2 powi (e + 1)"
  shows "expo x = e"
proof -
  have x: "0 < x" using assms(1) zero_less_power_int [of "2 :: rat" e] by linarith
  have "(2 :: rat) powi e < 2 powi (expo x + 1)" "(2 :: rat) powi (expo x) < 2 powi (e + 1)"
    using expo_bounds [OF x] assms by linarith+
  then show ?thesis by (simp only: powi_less_iff)
qed

subsection \<open>Rounding to binary64\<close>

text \<open>The unit in the last place: 53 significant bits, and no unit below \<open>2 ^ -1074\<close>.\<close>

definition ulp_exp :: "rat \<Rightarrow> int" where
  "ulp_exp x = max (expo x - 52) (-1074)"

definition rnd_pos :: "rat \<Rightarrow> rat" where
  "rnd_pos x = of_int (round_even (x / 2 powi (ulp_exp x))) * 2 powi (ulp_exp x)"

definition rnd :: "rat \<Rightarrow> rat" where
  "rnd x = (if x = 0 then 0 else if 0 < x then rnd_pos x else - rnd_pos (- x))"

text \<open>A multiple of the unit is a fixed point, and a bound of a number.\<close>

lemma rnd_pos_multiple:
  assumes "x = of_int m * 2 powi k" and "ulp_exp x \<le> k"
  shows "rnd_pos x = x"
proof -
  define j where "j = nat (k - ulp_exp x)"
  have "x / 2 powi (ulp_exp x) = of_int m * 2 powi (k - ulp_exp x)"
    using assms(1) by (simp add: power_int_diff)
  also have "\<dots> = of_int (m * 2 ^ j)"
    using assms(2) by (simp add: j_def power_int_def)
  finally have *: "x / 2 powi (ulp_exp x) = of_int (m * 2 ^ j)" .
  show ?thesis
    unfolding rnd_pos_def * round_even_int
    by (simp only: * [symmetric]) simp
qed

lemma rnd_pos_nonneg: "0 < x \<Longrightarrow> 0 \<le> rnd_pos x"
  using round_even_mono [of 0 "x / 2 powi (ulp_exp x)"] round_even_int [of 0]
  by (simp add: rnd_pos_def)

lemma rnd_pos_ge_binade:
  assumes "0 < x" and "-1022 \<le> expo x"
  shows "2 powi (expo x) \<le> rnd_pos x"
proof -
  have u: "ulp_exp x = expo x - 52" using assms(2) by (simp add: ulp_exp_def)
  have "2 powi (expo x) / 2 powi (ulp_exp x) \<le> x / 2 powi (ulp_exp x)"
    using expo_bounds(1) [OF assms(1)] by (simp add: divide_right_mono)
  moreover have "2 powi (expo x) / 2 powi (ulp_exp x) = (of_int (2 ^ 52) :: rat)"
    using powi_quot [of "expo x - 52" "expo x"] by (simp add: u)
  ultimately have "2 ^ 52 \<le> round_even (x / 2 powi (ulp_exp x))"
    using round_even_mono [of "of_int (2 ^ 52)"] by (simp only: round_even_int)
  then have "(of_int (2 ^ 52) :: rat) \<le> of_int (round_even (x / 2 powi (ulp_exp x)))"
    by (simp only: of_int_le_iff)
  then have "of_int (2 ^ 52) * 2 powi (ulp_exp x) \<le> rnd_pos x"
    unfolding rnd_pos_def by (rule mult_right_mono) simp
  moreover have "of_int (2 ^ 52) * 2 powi (ulp_exp x) = (2 powi (expo x) :: rat)"
    by (simp add: u power_int_diff)
  ultimately show ?thesis by simp
qed

lemma rnd_pos_le_binade:
  assumes "0 < x" and "expo x < k" and "ulp_exp x \<le> k"
  shows "rnd_pos x \<le> 2 powi k"
proof -
  define j where "j = nat (k - ulp_exp x)"
  have "x < 2 powi k"
    using expo_bounds(2) [OF assms(1)] assms(2) powi_le_iff [of "expo x + 1" k] by linarith
  then have "x / 2 powi (ulp_exp x) \<le> 2 powi k / 2 powi (ulp_exp x)"
    by (simp add: divide_right_mono)
  moreover have q: "2 powi k / 2 powi (ulp_exp x) = (of_int (2 ^ j) :: rat)"
    using powi_quot [OF assms(3)] by (simp only: j_def)
  ultimately have "round_even (x / 2 powi (ulp_exp x)) \<le> 2 ^ j"
    using round_even_mono [of _ "of_int (2 ^ j)"] by (simp only: round_even_int)
  then have "(of_int (round_even (x / 2 powi (ulp_exp x))) :: rat) \<le> of_int (2 ^ j)"
    by (simp only: of_int_le_iff)
  then have "rnd_pos x \<le> of_int (2 ^ j) * 2 powi (ulp_exp x)"
    unfolding rnd_pos_def by (rule mult_right_mono) simp
  then show ?thesis unfolding q [symmetric] by simp
qed

lemma rnd_pos_mono:
  assumes "0 < x" and "x \<le> y"
  shows "rnd_pos x \<le> rnd_pos y"
proof (cases "ulp_exp x = ulp_exp y")
  case True
  have "round_even (x / 2 powi (ulp_exp x)) \<le> round_even (y / 2 powi (ulp_exp x))"
    using assms by (intro round_even_mono divide_right_mono) simp_all
  then show ?thesis
    by (simp add: rnd_pos_def True)
next
  case False
  have "expo x \<le> expo y" by (rule expo_mono [OF assms])
  with False have e: "expo x < expo y" "-1022 \<le> expo y" "ulp_exp x \<le> expo y"
    by (auto simp: ulp_exp_def max_def split: if_splits)
  have "rnd_pos x \<le> 2 powi (expo y)"
    using assms e by (intro rnd_pos_le_binade) auto
  also have "\<dots> \<le> rnd_pos y"
    using assms e by (intro rnd_pos_ge_binade) auto
  finally show ?thesis .
qed

lemma rnd_mono: "x \<le> y \<Longrightarrow> rnd x \<le> rnd y"
  using rnd_pos_mono [of x y] rnd_pos_mono [of "- y" "- x"] rnd_pos_nonneg [of y]
    rnd_pos_nonneg [of "- x"]
  by (auto simp: rnd_def not_less)

lemma rnd_odd: "rnd (- x) = - rnd x"
  by (auto simp: rnd_def)

lemma rnd_pos_exact:
  assumes "0 < m" and "m \<le> 2 ^ 53" and "-1074 \<le> e"
  shows "rnd_pos (of_int m * 2 powi e) = of_int m * 2 powi e"
proof (cases "m = 2 ^ 53")
  case True
  then have x: "of_int m * 2 powi e = (of_int 1 * 2 powi (e + 53) :: rat)"
    by (simp add: power_int_add)
  have "expo (of_int m * 2 powi e) = e + 53"
    unfolding x by (rule expo_eqI) (simp_all add: powi_less_iff)
  with assms show ?thesis
    by (intro rnd_pos_multiple [OF x]) (simp add: ulp_exp_def)
next
  case False
  let ?x = "of_int m * 2 powi e :: rat"
  have pos: "0 < ?x" using assms by simp
  have "(of_int m :: rat) < of_int (2 ^ 53)"
    using False assms by (subst of_int_less_iff) linarith
  then have "?x < of_int (2 ^ 53) * 2 powi e" by (rule mult_strict_right_mono) simp
  also have "\<dots> = 2 powi (e + 53)" by (simp add: power_int_add)
  finally have "2 powi (expo ?x) < (2 powi (e + 53) :: rat)"
    using expo_bounds(1) [OF pos] by linarith
  then have "expo ?x < e + 53" by (simp only: powi_less_iff)
  with assms show ?thesis
    by (intro rnd_pos_multiple [OF refl]) (simp add: ulp_exp_def)
qed

lemma rnd_exact:
  assumes "\<bar>m\<bar> \<le> 2 ^ 53" and "-1074 \<le> e"
  shows "rnd (of_int m * 2 powi e) = of_int m * 2 powi e"
proof (cases m "0 :: int" rule: linorder_cases)
  case less
  then have "rnd (of_int (- m) * 2 powi e) = of_int (- m) * 2 powi e"
    using rnd_pos_exact [of "- m" e] assms by (simp add: rnd_def mult_less_0_iff)
  then show ?thesis using rnd_odd [of "of_int m * 2 powi e"] by simp
next
  case equal
  then show ?thesis by (simp add: rnd_def)
next
  case greater
  then show ?thesis using rnd_pos_exact [of m e] assms by (simp add: rnd_def)
qed

interpretation r64: rounding rnd
  by unfold_locales (auto intro: rnd_mono rnd_odd rnd_exact)

lemma rnd_pos_near:
  assumes "0 < x" and "-1022 \<le> expo x"
  shows "\<bar>rnd_pos x - x\<bar> \<le> x / 2 ^ 53"
proof -
  let ?u = "2 powi (ulp_exp x) :: rat"
  have "rnd_pos x - x = (of_int (round_even (x / ?u)) - x / ?u) * ?u"
    by (simp add: rnd_pos_def field_simps)
  then have "\<bar>rnd_pos x - x\<bar> = \<bar>of_int (round_even (x / ?u)) - x / ?u\<bar> * ?u"
    by (simp add: abs_mult)
  also have "\<dots> \<le> 1 / 2 * ?u"
    by (intro mult_right_mono round_even_near) simp
  also have "\<dots> = 2 powi (expo x) / 2 ^ 53"
    using assms(2) by (simp add: ulp_exp_def power_int_diff)
  also have "\<dots> \<le> x / 2 ^ 53"
    using expo_bounds(1) [OF assms(1)] by (simp add: divide_right_mono)
  finally show ?thesis .
qed

subsection \<open>The type and its operations\<close>

datatype float64 = Fin rat | PInf | NInf | NaN

definition f64 :: "rat \<Rightarrow> float64" where
  "f64 x = (let r = rnd x in
     if 2 powi 1024 \<le> r then PInf else if r \<le> - (2 powi 1024) then NInf else Fin r)"

definition f_of_int :: "int \<Rightarrow> float64" where
  "f_of_int n = f64 (of_int n)"

definition f_is_NaN :: "float64 \<Rightarrow> bool" where
  "f_is_NaN a \<longleftrightarrow> a = NaN"

fun f_neg :: "float64 \<Rightarrow> float64" where
  "f_neg (Fin x) = Fin (- x)"
| "f_neg PInf = NInf"
| "f_neg NInf = PInf"
| "f_neg NaN = NaN"

fun f_add :: "float64 \<Rightarrow> float64 \<Rightarrow> float64" where
  "f_add (Fin x) (Fin y) = f64 (x + y)"
| "f_add NaN b = NaN"
| "f_add a NaN = NaN"
| "f_add PInf NInf = NaN"
| "f_add NInf PInf = NaN"
| "f_add PInf b = PInf"
| "f_add a PInf = PInf"
| "f_add NInf b = NInf"
| "f_add a NInf = NInf"

definition f_sub :: "float64 \<Rightarrow> float64 \<Rightarrow> float64" where
  "f_sub a b = f_add a (f_neg b)"

text \<open>The sign of a value, and the infinity of a sign (a product or quotient with a zero is NaN).\<close>

fun f_sgn :: "float64 \<Rightarrow> int" where
  "f_sgn (Fin x) = (if x = 0 then 0 else if 0 < x then 1 else -1)"
| "f_sgn PInf = 1"
| "f_sgn NInf = -1"
| "f_sgn NaN = 0"

definition f_inf :: "int \<Rightarrow> float64" where
  "f_inf s = (if s = 0 then NaN else if 0 < s then PInf else NInf)"

fun f_mul :: "float64 \<Rightarrow> float64 \<Rightarrow> float64" where
  "f_mul (Fin x) (Fin y) = f64 (x * y)"
| "f_mul NaN b = NaN"
| "f_mul a NaN = NaN"
| "f_mul (Fin x) PInf = f_inf (f_sgn (Fin x))"
| "f_mul (Fin x) NInf = f_inf (- f_sgn (Fin x))"
| "f_mul PInf b = f_inf (f_sgn b)"
| "f_mul NInf b = f_inf (- f_sgn b)"

fun f_div :: "float64 \<Rightarrow> float64 \<Rightarrow> float64" where
  "f_div (Fin x) (Fin y) = (if y = 0 then f_inf (f_sgn (Fin x)) else f64 (x / y))"
| "f_div NaN b = NaN"
| "f_div a NaN = NaN"
| "f_div (Fin x) PInf = Fin 0"
| "f_div (Fin x) NInf = Fin 0"
| "f_div PInf (Fin y) = (if y < 0 then NInf else PInf)"
| "f_div NInf (Fin y) = (if y < 0 then PInf else NInf)"
| "f_div a b = NaN"

fun f_lt :: "float64 \<Rightarrow> float64 \<Rightarrow> bool" where
  "f_lt (Fin x) (Fin y) \<longleftrightarrow> x < y"
| "f_lt NaN b \<longleftrightarrow> False"
| "f_lt a NaN \<longleftrightarrow> False"
| "f_lt NInf b \<longleftrightarrow> b \<noteq> NInf"
| "f_lt a PInf \<longleftrightarrow> a \<noteq> PInf"
| "f_lt a b \<longleftrightarrow> False"

definition f_eq :: "float64 \<Rightarrow> float64 \<Rightarrow> bool" where
  "f_eq a b \<longleftrightarrow> a \<noteq> NaN \<and> a = b"

definition f_le :: "float64 \<Rightarrow> float64 \<Rightarrow> bool" where
  "f_le a b \<longleftrightarrow> f_lt a b \<or> f_eq a b"

lemma f_le_Fin [simp]: "f_le (Fin x) (Fin y) \<longleftrightarrow> x \<le> y"
  by (auto simp: f_le_def f_eq_def)

lemma f_eq_Fin [simp]: "f_eq (Fin x) (Fin y) \<longleftrightarrow> x = y"
  by (auto simp: f_eq_def)

lemma NaN_incomparable [simp]: "\<not> f_le NaN b" "\<not> f_lt a NaN" "\<not> f_eq NaN b"
  by (cases a; simp add: f_le_def f_eq_def)+

text \<open>In the range of the program's values nothing overflows.\<close>

lemma f64_Fin:
  assumes "\<bar>x\<bar> \<le> 2 ^ 1000"
  shows "f64 x = Fin (rnd x)"
proof -
  have e: "rnd (2 ^ 1000) = 2 ^ 1000"
    using rnd_exact [of 1 1000] by (simp add: power_int_def)
  have "\<bar>rnd x\<bar> \<le> 2 ^ 1000"
    using rnd_mono [of x "2 ^ 1000"] rnd_mono [of "- x" "2 ^ 1000"] rnd_odd [of x] assms e
    by (simp add: abs_le_iff del: power_numeral_even)
  moreover have "(2 :: rat) ^ 1000 < 2 powi 1024"
    by (simp add: power_int_def power_strict_increasing del: power_numeral_even)
  ultimately show ?thesis
    by (simp add: f64_def Let_def abs_le_iff del: power_numeral_even)
qed

lemma f64_small: "\<bar>x\<bar> \<le> 2 ^ 63 \<Longrightarrow> f64 x = Fin (rnd x)"
  using power_increasing [of 63 1000 "2 :: rat"] by (intro f64_Fin) linarith

lemma f64_unit: "0 \<le> x \<Longrightarrow> x \<le> 1 \<Longrightarrow> f64 x = Fin (rnd x)"
  by (rule f64_Fin) simp

text \<open>The conversion of a float64 to an integer.\<close>

fun f_trunc :: "float64 \<Rightarrow> int" where
  "f_trunc (Fin x) = (if 0 \<le> x then \<lfloor>x\<rfloor> else \<lceil>x\<rceil>)"
| "f_trunc _ = - (2 ^ 63)"

lemma f_of_int_exact: "\<bar>n\<bar> \<le> 2 ^ 53 \<Longrightarrow> f_of_int n = Fin (of_int n)"
proof -
  assume n: "\<bar>n\<bar> \<le> 2 ^ 53"
  then have "\<bar>of_int n :: rat\<bar> \<le> of_int (2 ^ 53)" by (simp only: of_int_abs [symmetric] of_int_le_iff)
  also have "\<dots> \<le> 2 ^ 1000" by (simp add: power_increasing del: power_numeral_even)
  finally show ?thesis using n by (simp add: f_of_int_def f64_Fin r64.exact_int)
qed

subsection \<open>The square root\<close>

function isqrt :: "int \<Rightarrow> int" where
  "isqrt n =
     (if n \<le> 0 then 0
      else let r = 2 * isqrt (n div 4) in if (r + 1) * (r + 1) \<le> n then r + 1 else r)"
  by pat_completeness auto
termination
  by (relation "measure nat") auto

declare isqrt.simps [simp del]

lemma isqrt_nonneg: "0 \<le> isqrt n"
proof (induction n rule: isqrt.induct)
  case (1 n)
  then show ?case by (auto simp: isqrt.simps [of n] Let_def)
qed

lemma isqrt_bounds: "0 \<le> n \<Longrightarrow> isqrt n * isqrt n \<le> n \<and> n < (isqrt n + 1) * (isqrt n + 1)"
proof (induction n rule: isqrt.induct)
  case (1 n)
  show ?case
  proof (cases "n = 0")
    case True
    then show ?thesis by (simp add: isqrt.simps)
  next
    case False
    define a where "a = isqrt (n div 4)"
    have a: "a * a \<le> n div 4" "n div 4 < (a + 1) * (a + 1)"
      using 1 False by (simp_all add: a_def)
    then have "4 * (a * a) \<le> n" "n < 4 * ((a + 1) * (a + 1))" by linarith+
    then have lo: "(2 * a) * (2 * a) \<le> n" and hi: "n < (2 * a + 1 + 1) * (2 * a + 1 + 1)"
      by (simp_all add: algebra_simps)
    have s: "isqrt n = (if (2 * a + 1) * (2 * a + 1) \<le> n then 2 * a + 1 else 2 * a)"
      using False "1.prems" by (simp add: isqrt.simps [of n] a_def Let_def)
    show ?thesis
      using lo hi by (auto simp only: s if_splits not_le split: if_split)
  qed
qed

fun f_sqrt :: "float64 \<Rightarrow> float64" where
  "f_sqrt (Fin x) =
     (if x < 0 then NaN else if x = 0 then Fin 0
      else let u = expo x div 2 - 52; y = x / 2 powi (2 * u); n = isqrt \<lfloor>y\<rfloor>;
               h = (of_int n + 1 / 2) * (of_int n + 1 / 2)
           in Fin (of_int (if h < y \<or> (h = y \<and> odd n) then n + 1 else n) * 2 powi u))"
| "f_sqrt PInf = PInf"
| "f_sqrt NInf = NaN"
| "f_sqrt NaN = NaN"

declare f_sqrt.simps(1) [simp del]

lemma f_sqrt_zero [simp]: "f_sqrt (Fin 0) = Fin 0"
  by (simp add: f_sqrt.simps)

lemma isqrt_rat:
  assumes "0 \<le> y" and "n = isqrt \<lfloor>y\<rfloor>"
  shows "of_int n * of_int n \<le> y" and "y < (of_int n + 1) * (of_int n + 1 :: rat)"
proof -
  have b: "n * n \<le> \<lfloor>y\<rfloor>" "\<lfloor>y\<rfloor> + 1 \<le> (n + 1) * (n + 1)"
    using isqrt_bounds [of "\<lfloor>y\<rfloor>"] assms by simp_all
  have "(of_int (n * n) :: rat) \<le> of_int \<lfloor>y\<rfloor>" using b(1) by (simp only: of_int_le_iff)
  then show "of_int n * of_int n \<le> y" by simp linarith
  have "(of_int (\<lfloor>y\<rfloor> + 1) :: rat) \<le> of_int ((n + 1) * (n + 1))"
    using b(2) by (simp only: of_int_le_iff)
  then show "y < (of_int n + 1) * (of_int n + 1 :: rat)" by simp linarith
qed

text \<open>The result is within half a unit in the last place of the exact root.\<close>

lemma f_sqrt_near:
  fixes x :: rat
  assumes "0 < x"
  defines "h \<equiv> 2 powi (expo x div 2 - 53) :: rat"
  shows "\<exists>r \<ge> 0. f_sqrt (Fin x) = Fin r \<and> (r - h) * (r - h) \<le> x \<and> x \<le> (r + h) * (r + h)"
proof -
  define u where "u = expo x div 2 - 52"
  define y where "y = x / 2 powi (2 * u)"
  define n where "n = isqrt \<lfloor>y\<rfloor>"
  define k where "k = (if (of_int n + 1 / 2) * (of_int n + 1 / 2) < y \<or>
    ((of_int n + 1 / 2) * (of_int n + 1 / 2) = y \<and> odd n) then n + 1 else n)"
  define U where "U = (2 powi u :: rat)"
  have "2 powi (u + u) = U * U" unfolding U_def by (rule power_int_add) simp
  then have UU: "2 powi (2 * u) = U * U" by (simp only: mult_2)
  have "h = 2 powi (u - 1)" by (simp add: h_def u_def)
  then have U: "0 < U" "h = U / 2" by (simp_all add: U_def power_int_diff)
  have y0: "0 < y" using assms(1) by (simp add: y_def)
  have x: "x = y * (U * U)" using U(1) by (simp add: y_def UU)
  note N = isqrt_rat [OF less_imp_le [OF y0] n_def]
  have res: "f_sqrt (Fin x) = Fin (of_int k * U)"
  proof -
    have "\<not> x < 0" "x \<noteq> 0" using assms(1) by simp_all
    then show ?thesis
      by (simp only: f_sqrt.simps(1) if_False Let_def u_def [symmetric] y_def [symmetric]
          n_def [symmetric] k_def [symmetric] U_def [symmetric])
  qed
  have "1 \<le> y"
  proof -
    have "2 powi (2 * u) \<le> (2 powi (expo x) :: rat)"
      by (simp add: powi_le_iff u_def)
    also have "\<dots> \<le> x" by (rule expo_bounds(1) [OF assms(1)])
    finally show ?thesis by (simp add: y_def)
  qed
  then have n1: "1 \<le> (of_int n :: rat)"
    using N(2) isqrt_nonneg [of "\<lfloor>y\<rfloor>"] by (cases "n = 0") (auto simp: n_def)
  then have k0: "0 \<le> k" by (simp add: k_def)
  have lo: "(of_int k - 1 / 2) * (of_int k - 1 / 2) \<le> y" and hi: "y \<le> (of_int k + 1 / 2) * (of_int k + 1 / 2)"
    using N n1 by (auto simp: k_def algebra_simps split: if_splits)
  have "(of_int k * U - h) * (of_int k * U - h) = (of_int k - 1 / 2) * (of_int k - 1 / 2) * (U * U)"
    "(of_int k * U + h) * (of_int k * U + h) = (of_int k + 1 / 2) * (of_int k + 1 / 2) * (U * U)"
    by (simp_all add: U(2) algebra_simps)
  moreover have "(of_int k - 1 / 2) * (of_int k - 1 / 2) * (U * U) \<le> x"
    "x \<le> (of_int k + 1 / 2) * (of_int k + 1 / 2) * (U * U)"
    unfolding x using lo hi U(1) by (simp_all add: mult_right_mono)
  ultimately show ?thesis
    using res U(1) k0 by (intro exI [of _ "of_int k * U"]) simp
qed

subsection \<open>Comparing rounded ratios\<close>

text \<open>In the upper half of the unit interval rounding moves a number by at most \<open>2 ^ -53\<close>.\<close>

lemma rnd_near_upper_half:
  assumes "1 / 2 \<le> x" and "x \<le> 1"
  shows "\<bar>rnd x - x\<bar> \<le> 1 / 2 ^ 53"
proof -
  have "expo (1 / 2) = - 1" by (rule expo_eqI) (simp_all add: power_int_minus)
  then have "- 1 \<le> expo x" using expo_mono [of "1 / 2" x] assms(1) by simp
  then have "\<bar>rnd_pos x - x\<bar> \<le> x / 2 ^ 53" using assms(1) by (intro rnd_pos_near) simp_all
  also have "\<dots> \<le> 1 / 2 ^ 53" using assms(2) by (simp add: divide_right_mono)
  finally show ?thesis using assms(1) by (simp add: rnd_def)
qed

lemma rnd_separates:
  assumes "1 / 2 \<le> x" and "y \<le> 1" and "x + 2 / 2 ^ 53 < y"
  shows "rnd x < rnd y"
proof -
  have "\<bar>rnd x - x\<bar> \<le> 1 / 2 ^ 53" "\<bar>rnd y - y\<bar> \<le> 1 / 2 ^ 53"
    using assms by (intro rnd_near_upper_half; simp)+
  with assms(3) show ?thesis unfolding abs_le_iff by linarith
qed

subsection \<open>Percentages\<close>

text \<open>
  A ratio strictly between 0 and 1 that is turned into a percentage and back, with a rounding at
  each step, stays strictly between 0 and 1.
\<close>

lemma rnd_below_hundred:
  assumes "x \<le> 1 - 1 / 2 ^ 53"
  shows "rnd (x * 100) \<le> 100 - 1 / 2 ^ 46"
proof -
  define y where "y = (100 - 100 / 2 ^ 53 :: rat)"
  have y: "0 < y" "x * 100 \<le> y" "y + y / 2 ^ 53 < 100" using assms by (simp_all add: y_def)
  have e: "expo y = 6" unfolding y_def by (rule expo_eqI) (simp_all add: power_int_def)
  define m where "m = round_even (y / 2 powi (- 46))"
  have r: "rnd y = of_int m * 2 powi (- 46)" using y(1) by (simp add: rnd_def rnd_pos_def ulp_exp_def e m_def)
  have "rnd y - y \<le> y / 2 ^ 53"
  proof -
    have "\<bar>rnd y - y\<bar> \<le> y / 2 ^ 53" using rnd_pos_near [OF y(1)] e y(1) by (simp add: rnd_def)
    then show ?thesis by linarith
  qed
  then have "rnd y < 100" using y(3) by linarith
  then have "of_int m < (of_int (100 * 2 ^ 46) :: rat)"
    unfolding r by (simp add: power_int_minus field_simps)
  then have "m < 100 * 2 ^ 46" by (simp only: of_int_less_iff)
  then have "m \<le> 100 * 2 ^ 46 - 1" by simp
  then have "(of_int m :: rat) \<le> of_int (100 * 2 ^ 46 - 1)" by (simp only: of_int_le_iff)
  then have "rnd y \<le> 100 - 1 / 2 ^ 46"
    unfolding r by (simp add: power_int_minus field_simps)
  moreover have "rnd (x * 100) \<le> rnd y" using y(2) by (rule rnd_mono)
  ultimately show ?thesis by simp
qed

lemma percent_open_unit:
  fixes a s :: int
  assumes "0 < a" and "a < s" and "s \<le> 2 ^ 53"
  defines "p \<equiv> rnd (rnd (of_int a / of_int s) * 100)"
  shows "0 < p" and "p < 100" and "0 < rnd (p / 100)" and "rnd (p / 100) < 1"
proof -
  have q: "1 / 2 ^ 53 \<le> rnd (of_int a / of_int s)" "rnd (of_int a / of_int s) \<le> 1 - 1 / 2 ^ 53"
    using r64.fraction [OF assms(1-3)] by simp_all
  have "rnd (1 / 2 ^ 53) \<le> p" unfolding p_def using q(1) by (intro rnd_mono) simp
  then have p1: "1 / 2 ^ 53 \<le> p" by (simp only: r64.tiny_exact)
  have p2: "p \<le> 100 - 1 / 2 ^ 46" unfolding p_def using q(2) by (rule rnd_below_hundred)
  show "0 < p" "p < 100" using p1 p2 by simp_all
  have "rnd (of_int 1 * 2 powi (- 60)) \<le> rnd (p / 100)"
    using p1 by (intro rnd_mono) (simp add: power_int_minus)
  then show "0 < rnd (p / 100)" using rnd_exact [of 1 "- 60"] by (simp add: power_int_minus)
  have "rnd (p / 100) \<le> rnd (1 - 1 / 2 ^ 53)" using p2 by (intro rnd_mono) simp
  then show "rnd (p / 100) < 1" by (simp only: r64.below_one_exact) simp
qed

end
