(* ===== verification/Types.thy ===== *)
theory Types
  imports Float64
begin

text \<open>
  \<^verbatim>\<open>pkg/types/types.go\<close>: the probe status, the protocol blocks, the merged probe configuration,
  the result of a probe run against one address, and the optional observations it carries.

  A \<^verbatim>\<open>map[string]string\<close> is the list of its entries in iteration order, \<open>None\<close> for the nil map; a
  pointer field is an option. Go's \<^verbatim>\<open>Status\<close> is a string with four named values; its zero value,
  the empty string of a result whose status is not set yet, is \<open>StatusUnset\<close>.
\<close>

subsection \<open>Status and probe types\<close>

datatype Status = StatusUnset | StatusSuccess | StatusPartial | StatusFailure | StatusError

fun status_string :: "Status \<Rightarrow> string" where
  "status_string StatusUnset = ''''"
| "status_string StatusSuccess = ''success''"
| "status_string StatusPartial = ''partial''"
| "status_string StatusFailure = ''failure''"
| "status_string StatusError = ''error''"

definition IsSuccess :: "Status \<Rightarrow> bool" where
  "IsSuccess s \<longleftrightarrow> s = StatusSuccess"

definition IsUp :: "Status \<Rightarrow> bool" where
  "IsUp s \<longleftrightarrow> s = StatusSuccess \<or> s = StatusPartial"

definition IsError :: "Status \<Rightarrow> bool" where
  "IsError s \<longleftrightarrow> s = StatusError"

lemmas status_preds = IsSuccess_def IsUp_def IsError_def

definition ProbeTypeICMP :: string where "ProbeTypeICMP = ''icmp''"
definition ProbeTypeTCP :: string where "ProbeTypeTCP = ''tcp''"
definition ProbeTypeUDP :: string where "ProbeTypeUDP = ''udp''"
definition ProbeTypeDNS :: string where "ProbeTypeDNS = ''dns''"
definition ProbeTypeHTTP :: string where "ProbeTypeHTTP = ''http''"

lemmas probe_types [simp] =
  ProbeTypeICMP_def ProbeTypeTCP_def ProbeTypeUDP_def ProbeTypeDNS_def ProbeTypeHTTP_def

definition TCPModeConnect :: string where "TCPModeConnect = ''connect''"
definition TCPModeSYN :: string where "TCPModeSYN = ''syn''"

lemmas tcp_modes [simp] = TCPModeConnect_def TCPModeSYN_def

subsection \<open>Configuration of a probe\<close>

type_synonym labels = "(string \<times> string) list option"

record HTTPConfig =
  http_Scheme :: string
  http_Port :: go_int
  http_Path :: string
  http_Method :: string
  http_ExpectedStatus :: go_int
  http_FollowRedirects :: bool
  http_TLSExpiryWarningDays :: go_int

record TCPConfig =
  tcp_Port :: go_int
  tcp_Mode :: string

record UDPConfig =
  udp_Port :: go_int
  udp_Payload :: string
  udp_ExpectedResponse :: string

record DNSConfig =
  dns_RecordType :: string
  dns_Resolver :: string
  dns_ExpectedAnswer :: "string list"

record ProbeConfig =
  pc_Name :: string
  pc_Type :: string
  pc_Targets :: "string list"
  pc_MaxResolvedIPs :: go_int
  pc_SourceIP :: string
  pc_Interval :: duration
  pc_PacketInterval :: duration
  pc_Timeout :: duration
  pc_Count :: go_int
  pc_Labels :: labels
  pc_HTTP :: "HTTPConfig option"
  pc_TCP :: "TCPConfig option"
  pc_UDP :: "UDPConfig option"
  pc_DNS :: "DNSConfig option"

text \<open>The zero value of the struct.\<close>

definition zero_cfg :: ProbeConfig where
  "zero_cfg = \<lparr>pc_Name = [], pc_Type = [], pc_Targets = [], pc_MaxResolvedIPs = 0, pc_SourceIP = [],
     pc_Interval = 0, pc_PacketInterval = 0, pc_Timeout = 0, pc_Count = 0, pc_Labels = None,
     pc_HTTP = None, pc_TCP = None, pc_UDP = None, pc_DNS = None\<rparr>"

subsection \<open>Results\<close>

text \<open>The timestamp is the number of nanoseconds since the epoch, in UTC.\<close>

record ProbeResult =
  pr_Timestamp :: int
  pr_ProbeName :: string
  pr_Target :: string
  pr_FQDN :: string
  pr_SourceIP :: string
  pr_ProbeType :: string
  pr_PacketsSent :: go_int
  pr_PacketsReceived :: go_int
  pr_RTTMinMS :: float64
  pr_RTTMeanMS :: float64
  pr_RTTMaxMS :: float64
  pr_RTTStddevMS :: float64
  pr_DurationMS :: float64
  pr_PacketLossRatio :: float64
  pr_PortOpen :: "bool option"
  pr_Status :: Status
  pr_ErrorMsg :: string
  pr_ErrorType :: string
  pr_Labels :: labels

text \<open>The zero value of the struct: what \<^verbatim>\<open>make([]ProbeResult, n)\<close> fills a slice with.\<close>

definition zero_result :: ProbeResult where
  "zero_result = \<lparr>pr_Timestamp = 0, pr_ProbeName = [], pr_Target = [], pr_FQDN = [],
     pr_SourceIP = [], pr_ProbeType = [], pr_PacketsSent = 0, pr_PacketsReceived = 0,
     pr_RTTMinMS = Fin 0, pr_RTTMeanMS = Fin 0, pr_RTTMaxMS = Fin 0, pr_RTTStddevMS = Fin 0,
     pr_DurationMS = Fin 0, pr_PacketLossRatio = Fin 0, pr_PortOpen = None,
     pr_Status = StatusUnset, pr_ErrorMsg = [], pr_ErrorType = [], pr_Labels = None\<rparr>"

record RTT =
  MinMS :: float64
  MeanMS :: float64
  MaxMS :: float64
  StddevMS :: float64

record Measured =
  m_RTT :: "RTT option"
  m_Loss :: "float64 option"
  m_Duration :: "float64 option"
  m_PortOpen :: "bool option"

text \<open>The method \<^verbatim>\<open>ProbeResult.Measured\<close>.\<close>

definition measured :: "ProbeResult \<Rightarrow> Measured" where
  "measured r =
     \<lparr>m_RTT = (if pr_ProbeType r \<noteq> ProbeTypeHTTP \<and> 0 < pr_PacketsReceived r
               then Some \<lparr>MinMS = pr_RTTMinMS r, MeanMS = pr_RTTMeanMS r,
                          MaxMS = pr_RTTMaxMS r, StddevMS = pr_RTTStddevMS r\<rparr>
               else None),
      m_Loss = (if \<not> IsError (pr_Status r) then Some (pr_PacketLossRatio r) else None),
      m_Duration = (if pr_ProbeType r = ProbeTypeHTTP \<and> f_lt (Fin 0) (pr_DurationMS r)
                    then Some (pr_DurationMS r) else None),
      m_PortOpen = pr_PortOpen r\<rparr>"

lemma measured_exclusive: "m_RTT (measured r) \<noteq> None \<Longrightarrow> m_Duration (measured r) = None"
  by (auto simp: measured_def split: if_splits)

subsection \<open>Well-formed results\<close>

text \<open>The identifying fields of a result.\<close>

definition result_id :: "ProbeResult \<Rightarrow> string \<times> string \<times> string \<times> string" where
  "result_id r = (pr_ProbeName r, pr_Target r, pr_FQDN r, pr_ProbeType r)"

lemma result_id_update [frame_simps]:
  "result_id (r\<lparr>pr_Timestamp := v0\<rparr>) = result_id r"
  "result_id (r\<lparr>pr_SourceIP := v1\<rparr>) = result_id r"
  "result_id (r\<lparr>pr_PacketsSent := v2\<rparr>) = result_id r"
  "result_id (r\<lparr>pr_PacketsReceived := v3\<rparr>) = result_id r"
  "result_id (r\<lparr>pr_RTTMinMS := v4\<rparr>) = result_id r"
  "result_id (r\<lparr>pr_RTTMeanMS := v5\<rparr>) = result_id r"
  "result_id (r\<lparr>pr_RTTMaxMS := v6\<rparr>) = result_id r"
  "result_id (r\<lparr>pr_RTTStddevMS := v7\<rparr>) = result_id r"
  "result_id (r\<lparr>pr_DurationMS := v8\<rparr>) = result_id r"
  "result_id (r\<lparr>pr_PacketLossRatio := v9\<rparr>) = result_id r"
  "result_id (r\<lparr>pr_PortOpen := v10\<rparr>) = result_id r"
  "result_id (r\<lparr>pr_Status := v11\<rparr>) = result_id r"
  "result_id (r\<lparr>pr_ErrorMsg := v12\<rparr>) = result_id r"
  "result_id (r\<lparr>pr_ErrorType := v13\<rparr>) = result_id r"
  "result_id (r\<lparr>pr_Labels := v14\<rparr>) = result_id r"
  by (simp_all add: result_id_def)

text \<open>
  What every prober promises of a finished result: a status is set, the counters are consistent,
  the status agrees with them, the port state is reported only by a run that measured, and an
  open port only by a run that got a reply.
\<close>

definition result_ok :: "ProbeResult \<Rightarrow> bool" where
  "result_ok r \<longleftrightarrow>
     pr_Status r \<noteq> StatusUnset \<and>
     0 \<le> pr_PacketsReceived r \<and> pr_PacketsReceived r \<le> pr_PacketsSent r \<and>
     (IsUp (pr_Status r) \<longrightarrow> 0 < pr_PacketsReceived r) \<and>
     (pr_PortOpen r \<noteq> None \<longrightarrow> \<not> IsError (pr_Status r)) \<and>
     (pr_PortOpen r = Some True \<longrightarrow> IsUp (pr_Status r))"

text \<open>The status is what the loss says: the reading of \<^verbatim>\<open>docs/metrics.md\<close>.\<close>

definition status_matches_loss :: "ProbeResult \<Rightarrow> bool" where
  "status_matches_loss r \<longleftrightarrow>
     (\<exists>x. pr_PacketLossRatio r = Fin x \<and> 0 \<le> x \<and> x \<le> 1 \<and>
        (pr_Status r = StatusSuccess \<longleftrightarrow> x = 0) \<and>
        (pr_Status r = StatusFailure \<longleftrightarrow> x = 1) \<and>
        (pr_Status r = StatusPartial \<longleftrightarrow> 0 < x \<and> x < 1))"

end
