(* ===== verification/Go_Duration.thy ===== *)
theory Go_Duration
  imports Float64
begin

text \<open>
  The printing of a \<^verbatim>\<open>time.Duration\<close> (its method \<^verbatim>\<open>String\<close>), which the configuration errors and the
  configuration dump use, and \<^verbatim>\<open>time.ParseDuration\<close>, which reads the durations of the configuration
  files. Parsing inverts printing.
\<close>

text \<open>
  \<^verbatim>\<open>fmtFrac\<close>: the last \<open>prec\<close> decimal digits of \<open>v\<close> as a fraction in front of \<open>buf\<close>, without its
  trailing zeros, and the rest of the number.
\<close>

fun fmtFrac :: "nat \<Rightarrow> nat \<Rightarrow> bool \<Rightarrow> string \<Rightarrow> string \<times> nat" where
  "fmtFrac 0 v printing buf = (if printing then CHR ''.'' # buf else buf, v)"
| "fmtFrac (Suc prec) v printing buf =
     (let digit = v mod 10; p = printing \<or> digit \<noteq> 0
      in fmtFrac prec (v div 10) p (if p then char_of (48 + digit) # buf else buf))"

definition duration_abs :: "nat \<Rightarrow> string" where
  "duration_abs u =
     (if u = 0 then ''0s''
      else if u < 1000000000 then
        let (prec, unit) =
          (if u < 1000 then (0, ''ns'')
           else if u < 1000000 then (3, [CHR 0xC2, CHR 0xB5, CHR ''s''])
           else (6, ''ms''));
            (frac, v) = fmtFrac prec u False unit
        in nat_digits v @ frac
      else
        let (frac, secs) = fmtFrac 9 u False ''s'';
            s = nat_digits (secs mod 60) @ frac;
            mins = secs div 60
        in if mins = 0 then s
           else let m = nat_digits (mins mod 60) @ ''m'' @ s; hours = mins div 60
                in if hours = 0 then m else nat_digits hours @ ''h'' @ m)"

definition Duration_String :: "duration \<Rightarrow> string" where
  "Duration_String d = (if d < 0 then ''-'' else []) @ duration_abs (nat \<bar>d\<bar>)"

lemma fmtFrac_value: "snd (fmtFrac prec v p buf) = v div 10 ^ prec"
  by (induction prec arbitrary: v p buf) (auto simp: Let_def div_mult2_eq)

text \<open>A whole number of seconds has no fraction.\<close>

lemma fmtFrac_whole: "fmtFrac prec (v * 10 ^ prec) False buf = (buf, v)"
proof (induction prec arbitrary: v buf)
  case (Suc prec)
  have "v * 10 ^ Suc prec mod 10 = 0" "v * 10 ^ Suc prec div 10 = v * 10 ^ prec" by simp_all
  with Suc show ?case by (simp add: Let_def del: power_Suc)
qed simp

lemma Duration_String_seconds:
  assumes "0 < s" and "s < 60"
  shows "Duration_String (int s * Second) = nat_digits s @ ''s''"
proof -
  have "fmtFrac 9 (s * 10 ^ 9) False ''s'' = (''s'', s)" by (rule fmtFrac_whole)
  then have "fmtFrac 9 (s * 1000000000) False ''s'' = (''s'', s)" by simp
  moreover have "nat \<bar>int s * Second\<bar> = s * 1000000000" by (simp add: duration_consts nat_mult_distrib)
  ultimately show ?thesis
    using assms by (simp add: Duration_String_def duration_abs_def duration_consts)
qed

subsection \<open>Parsing\<close>

text \<open>The quotation of package \<^verbatim>\<open>time\<close>: bytes outside printable ASCII are printed in hexadecimal.\<close>

definition time_quote :: "string \<Rightarrow> string" where
  "time_quote s = CHR 0x22 # concat (map (\<lambda>c.
     let n = byte_val c in
     if 128 \<le> n \<or> n < 32 then [CHR 0x5C, CHR ''x'', hex_digit (n div 16), hex_digit (n mod 16)]
     else if n = 34 \<or> n = 92 then [CHR 0x5C, c] else [c]) s) @ [CHR 0x22]"

definition unitMap :: "string \<Rightarrow> nat option" where
  "unitMap = map_of [(''ns'', 1), (''us'', 1000), ([CHR 0xC2, CHR 0xB5, CHR ''s''], 1000),
     ([CHR 0xCE, CHR 0xBC, CHR ''s''], 1000), (''ms'', 1000000), (''s'', 1000000000),
     (''m'', 60000000000), (''h'', 3600000000000)]"

text \<open>The digits of the integer part, \<open>None\<close> on overflow, and those of the fraction with its scale.\<close>

fun leadingInt :: "nat \<Rightarrow> string \<Rightarrow> (nat \<times> string) option" where
  "leadingInt x [] = Some (x, [])"
| "leadingInt x (c # s) =
     (if \<not> is_digit c then Some (x, c # s)
      else if 2 ^ 63 div 10 < x then None
      else let y = x * 10 + (byte_val c - 48) in if 2 ^ 63 < y then None else leadingInt y s)"

fun leadingFraction :: "nat \<Rightarrow> float64 \<Rightarrow> bool \<Rightarrow> string \<Rightarrow> nat \<times> float64 \<times> string" where
  "leadingFraction x scale overflow [] = (x, scale, [])"
| "leadingFraction x scale overflow (c # s) =
     (if \<not> is_digit c then (x, scale, c # s)
      else if overflow \<or> (2 ^ 63 - 1) div 10 < x then leadingFraction x scale True s
      else let y = x * 10 + (byte_val c - 48)
           in if 2 ^ 63 < y then leadingFraction x scale True s
              else leadingFraction y (f_mul scale (Fin 10)) False s)"

definition unit_end :: "char \<Rightarrow> bool" where
  "unit_end c \<longleftrightarrow> c = CHR ''.'' \<or> is_digit c"

definition invalid_duration :: "string \<Rightarrow> string" where
  "invalid_duration orig = ''time: invalid duration '' @ time_quote orig"

text \<open>One round of the loop: a number with its unit, in nanoseconds, and the rest of the string.\<close>

definition parse_component :: "string \<Rightarrow> string \<Rightarrow> string + nat \<times> string" where
  "parse_component orig s =
     (if \<not> unit_end (hd s) then Inl (invalid_duration orig)
      else case leadingInt 0 s of
        None \<Rightarrow> Inl (invalid_duration orig)
      | Some (v, s1) \<Rightarrow>
          let pre = (length s1 \<noteq> length s);
              (f, scale, s2) = (if s1 \<noteq> [] \<and> hd s1 = CHR ''.'' then leadingFraction 0 (Fin 1) False (tl s1)
                                else (0, Fin 1, s1));
              post = (s1 \<noteq> [] \<and> hd s1 = CHR ''.'' \<and> length s2 \<noteq> length (tl s1));
              u = takeWhile (\<lambda>c. \<not> unit_end c) s2
          in if \<not> pre \<and> \<not> post then Inl (invalid_duration orig)
             else if u = [] then Inl (''time: missing unit in duration '' @ time_quote orig)
             else case unitMap u of
               None \<Rightarrow> Inl (''time: unknown unit '' @ time_quote u @ '' in duration '' @ time_quote orig)
             | Some unit \<Rightarrow>
                 if 2 ^ 63 div unit < v then Inl (invalid_duration orig)
                 else let w = (if 0 < f
                               then v * unit + nat (f_trunc (f_mul (f_of_int (int f)) (f_div (f_of_int (int unit)) scale)))
                               else v * unit)
                      in if 2 ^ 63 < w then Inl (invalid_duration orig)
                         else Inr (w, dropWhile (\<lambda>c. \<not> unit_end c) s2))"

lemma leadingInt_length: "leadingInt x s = Some (v, r) \<Longrightarrow> length r \<le> length s"
  by (induction x s rule: leadingInt.induct) (auto simp: Let_def split: if_splits)

lemma leadingFraction_length: "leadingFraction x sc ov s = (f, sc1, r) \<Longrightarrow> length r \<le> length s"
  by (induction s arbitrary: x sc ov) (auto simp: Let_def split: if_splits intro: le_SucI)

lemma dropWhile_shorter: "takeWhile P s \<noteq> [] \<Longrightarrow> length (dropWhile P s) < length s"
  by (metis length_append length_greater_0_conv less_add_same_cancel2 takeWhile_dropWhile_id)

lemma parse_component_length:
  assumes "parse_component orig s = Inr (w, r)"
  shows "length r < length s"
proof -
  obtain v s1 where i: "leadingInt 0 s = Some (v, s1)"
    using assms by (auto simp: parse_component_def split: if_splits option.splits)
  define s2 where "s2 = snd (snd (if s1 \<noteq> [] \<and> hd s1 = CHR ''.'' then leadingFraction 0 (Fin 1) False (tl s1)
     else (0, Fin 1, s1)))"
  have "length s2 \<le> length s1"
    using leadingFraction_length [of 0 "Fin 1" False "tl s1"] unfolding s2_def
    by (cases "leadingFraction 0 (Fin 1) False (tl s1)") fastforce
  moreover have "takeWhile (\<lambda>c. \<not> unit_end c) s2 \<noteq> []" "r = dropWhile (\<lambda>c. \<not> unit_end c) s2"
    using assms i unfolding parse_component_def s2_def
    by (auto simp: Let_def split: if_splits option.splits prod.splits)
  ultimately show ?thesis using dropWhile_shorter [of "\<lambda>c. \<not> unit_end c" s2] leadingInt_length [OF i] by simp
qed

function parse_units :: "string \<Rightarrow> nat \<Rightarrow> string \<Rightarrow> string + nat" where
  "parse_units orig d s =
     (if s = [] then Inr d
      else case parse_component orig s of
        Inl err \<Rightarrow> Inl err
      | Inr (w, r) \<Rightarrow>
          let d1 = (d + w) mod 2 ^ 64
          in if 2 ^ 63 < d1 then Inl (invalid_duration orig) else parse_units orig d1 r)"
  by pat_completeness auto
termination
  by (relation "measure (\<lambda>(orig, d, s). length s)") (auto dest: parse_component_length)

declare parse_units.simps [simp del]

definition ParseDuration :: "string \<Rightarrow> string + duration" where
  "ParseDuration s =
     (let (neg, r) = (case s of
            [] \<Rightarrow> (False, [])
          | c # t \<Rightarrow> if c = CHR ''-'' then (True, t) else if c = CHR ''+'' then (False, t) else (False, s))
      in if r = ''0'' then Inr 0
         else if r = [] then Inl (invalid_duration s)
         else case parse_units s 0 r of
           Inl err \<Rightarrow> Inl err
         | Inr d \<Rightarrow>
             if neg then Inr (- int d)
             else if 2 ^ 63 - 1 < d then Inl (invalid_duration s)
             else Inr (int d))"

subsection \<open>Parsing what was printed\<close>

text \<open>The digits of a fraction, with leading zeros.\<close>

primrec fixed :: "nat \<Rightarrow> nat \<Rightarrow> string" where
  "fixed 0 f = []"
| "fixed (Suc k) f = fixed k (f div 10) @ [char_of (48 + f mod 10)]"

lemma digit_char:
  assumes "n < 10"
  shows "byte_val (char_of (48 + n)) = 48 + n" and "is_digit (char_of (48 + n))"
proof -
  show b: "byte_val (char_of (48 + n)) = 48 + n" using assms by (simp add: byte_val_def)
  show "is_digit (char_of (48 + n))" using assms unfolding is_digit_def b by simp
qed

lemma dot_no_digit: "\<not> is_digit CHR ''.''"
  by (simp add: is_digit_def byte_val_def)

lemma leadingInt_digits:
  assumes "n \<le> 10 ^ 17"
  shows "leadingInt 0 (nat_digits n @ cs) = leadingInt n cs"
  using assms
proof (induction n arbitrary: cs rule: nat_digits.induct)
  case (1 n)
  show ?case
  proof (cases "n < 10")
    case True
    then show ?thesis by (simp add: nat_digits.simps [of n] digit_char Let_def)
  next
    case False
    let ?c = "char_of (48 + n mod 10)"
    have d: "is_digit ?c" "byte_val ?c = 48 + n mod 10" using digit_char [of "n mod 10"] by simp_all
    have "leadingInt 0 (nat_digits n @ cs) = leadingInt (n div 10) (?c # cs)"
      using 1 False by (simp add: nat_digits.simps [of n])
    also have "n div 10 \<le> 10 ^ 17" using 1(2) by (meson div_le_dividend order_trans)
    then have "leadingInt (n div 10) (?c # cs) = leadingInt n cs"
      using d 1(2) by (simp add: Let_def)
    finally show ?thesis .
  qed
qed

lemma nat_digits_hd: "is_digit (hd (nat_digits n @ cs))"
proof (induction n arbitrary: cs rule: nat_digits.induct)
  case (1 n)
  show ?case using 1 digit_char [of n] by (cases "n < 10") (simp_all add: nat_digits.simps [of n])
qed

lemma scale_step: "k \<le> 9 \<Longrightarrow> f_mul (Fin (10 ^ k)) (Fin 10) = Fin (10 ^ Suc k)"
proof -
  assume "k \<le> 9"
  then have "(10 :: int) ^ Suc k \<le> 10 ^ 10" by (intro power_increasing) simp_all
  then have "f64 (of_int (10 ^ Suc k)) = Fin (of_int (10 ^ Suc k))"
    using f_of_int_exact [of "10 ^ Suc k"] unfolding f_of_int_def by simp
  then show ?thesis by (simp add: mult.commute)
qed

lemma leadingFraction_fixed:
  assumes "k \<le> 9" and "f < 10 ^ k"
  shows "leadingFraction 0 (Fin 1) False (fixed k f @ cs) = leadingFraction f (Fin (10 ^ k)) False cs"
  using assms
proof (induction k arbitrary: f cs)
  case (Suc k)
  let ?c = "char_of (48 + f mod 10)"
  have d: "is_digit ?c" "byte_val ?c = 48 + f mod 10" using digit_char [of "f mod 10"] by simp_all
  have "(10 :: nat) ^ Suc k \<le> 10 ^ 9" using Suc.prems(1) by (intro power_increasing) simp_all
  then have f: "f < 10 ^ 9" "f div 10 < 10 ^ k" using Suc.prems(2) by (simp_all add: less_mult_imp_div_less)
  have "leadingFraction 0 (Fin 1) False (fixed (Suc k) f @ cs) = leadingFraction (f div 10) (Fin (10 ^ k)) False (?c # cs)"
    using Suc.IH [of "f div 10" "?c # cs"] Suc.prems f by simp
  also have "f div 10 < 10 ^ 9" using f(1) by (meson div_le_dividend le_less_trans)
  then have "leadingFraction (f div 10) (Fin (10 ^ k)) False (?c # cs) = leadingFraction f (Fin (10 ^ Suc k)) False cs"
    using d f scale_step [of k] Suc.prems(1) by (simp add: Let_def del: f_mul.simps)
  finally show ?case .
qed simp

lemma fmtFrac_True:
  "fmtFrac prec v True buf = (CHR ''.'' # fixed prec (v mod 10 ^ prec) @ buf, v div 10 ^ prec)"
proof (induction prec arbitrary: v buf)
  case (Suc prec)
  have m: "v mod 10 ^ Suc prec = 10 * (v div 10 mod 10 ^ prec) + v mod 10"
    by (simp add: mod_mult2_eq mult.commute)
  have "v mod 10 ^ Suc prec div 10 = v div 10 mod 10 ^ prec" "v mod 10 ^ Suc prec mod 10 = v mod 10"
    unfolding m by simp_all
  then show ?case using Suc.IH [of "v div 10"] by (simp add: Let_def div_mult2_eq del: power_Suc) (simp add: div_mult2_eq)
qed simp

text \<open>A printed fraction stands for the remainder, and has no digits when that is zero.\<close>

lemma fmtFrac_digits:
  "\<exists>k f. k \<le> prec \<and> f < 10 ^ k \<and> f * 10 ^ (prec - k) = v mod 10 ^ prec \<and>
     fmtFrac prec v False buf = ((if f = 0 then [] else CHR ''.'' # fixed k f) @ buf, v div 10 ^ prec)"
proof (induction prec arbitrary: v buf)
  case (Suc prec)
  have m: "v mod 10 ^ Suc prec = 10 * (v div 10 mod 10 ^ prec) + v mod 10"
    by (simp add: mod_mult2_eq mult.commute)
  show ?case
  proof (cases "v mod 10 = 0")
    case True
    obtain k f where k: "k \<le> prec" "f < 10 ^ k" "f * 10 ^ (prec - k) = v div 10 mod 10 ^ prec"
      "fmtFrac prec (v div 10) False buf = ((if f = 0 then [] else CHR ''.'' # fixed k f) @ buf, v div 10 div 10 ^ prec)"
      using Suc.IH [of "v div 10" buf] by blast
    have "f * 10 ^ (Suc prec - k) = v mod 10 ^ Suc prec" using k(1,3) m True by (simp add: Suc_diff_le)
    with k True show ?thesis
      by (intro exI [of _ k] exI [of _ f]) (simp add: Let_def div_mult2_eq)
  next
    case False
    have "v mod 10 ^ Suc prec \<noteq> 0" using m False by simp
    moreover have "fmtFrac (Suc prec) v False buf = fmtFrac (Suc prec) v True buf" using False by (simp add: Let_def)
    ultimately show ?thesis
      by (intro exI [of _ "Suc prec"] exI [of _ "v mod 10 ^ Suc prec"]) (simp add: fmtFrac_True del: fmtFrac.simps power_Suc fixed.simps)
  qed
qed simp

lemma f64_nat: "n \<le> 2 ^ 53 \<Longrightarrow> f64 (of_nat n) = Fin (of_nat n)" "n \<le> 2 ^ 53 \<Longrightarrow> f_of_int (int n) = Fin (of_nat n)"
proof -
  assume "n \<le> 2 ^ 53"
  then have "int n \<le> 2 ^ 53" using of_nat_le_iff [of n "2 ^ 53", where ?'a = int] by simp
  then show "f_of_int (int n) = Fin (of_nat n)" using f_of_int_exact [of "int n"] by simp
  then show "f64 (of_nat n) = Fin (of_nat n)" by (simp add: f_of_int_def)
qed

lemma fraction_exact:
  assumes "f \<le> 10 ^ 12" and "f * q \<le> 10 ^ 12" and "q * 10 ^ k \<le> 10 ^ 12"
  shows "f_trunc (f_mul (f_of_int (int f)) (f_div (f_of_int (int (q * 10 ^ k))) (Fin (10 ^ k)))) = int (f * q)"
proof -
  have b: "n \<le> 10 ^ 12 \<Longrightarrow> n \<le> 2 ^ 53" for n :: nat by simp
  have "q * 1 \<le> q * 10 ^ k" by (rule mult_le_mono2) simp
  then have q: "q \<le> 10 ^ 12" using assms(3) by linarith
  have "f_div (f_of_int (int (q * 10 ^ k))) (Fin (10 ^ k)) = f64 (of_nat (q * 10 ^ k) / 10 ^ k)"
    using f64_nat(2) [OF b [OF assms(3)]] by simp
  also have "of_nat (q * 10 ^ k) / 10 ^ k = (of_nat q :: rat)" by simp
  also have "f64 (of_nat q) = Fin (of_nat q)" by (rule f64_nat [OF b [OF q]])
  finally have d: "f_div (f_of_int (int (q * 10 ^ k))) (Fin (10 ^ k)) = Fin (of_nat q)" .
  have "f_mul (f_of_int (int f)) (f_div (f_of_int (int (q * 10 ^ k))) (Fin (10 ^ k))) = f64 (of_nat (f * q))"
    unfolding d f64_nat(2) [OF b [OF assms(1)]] by simp
  also have "\<dots> = Fin (of_nat (f * q))" by (rule f64_nat(1) [OF b [OF assms(2)]])
  finally show ?thesis by (simp only: f_trunc.simps of_nat_0_le_iff if_True floor_of_nat)
qed

text \<open>A number, an optional fraction and a unit are read as the duration they stand for.\<close>

lemma parse_component_printed:
  assumes u: "unitMap u = Some (q * 10 ^ k)" "u \<noteq> []" "list_all (\<lambda>c. \<not> unit_end c) u"
    and rest: "rest = [] \<or> unit_end (hd rest)"
    and f: "k \<le> 9" "f < 10 ^ k" "f * q \<le> 10 ^ 12" "0 < f \<Longrightarrow> q * 10 ^ k \<le> 10 ^ 12"
    and v: "v \<le> 10 ^ 17" "v * (q * 10 ^ k) + f * q \<le> 2 ^ 63" "0 < q"
  shows "parse_component orig (nat_digits v @ (if f = 0 then [] else CHR ''.'' # fixed k f) @ u @ rest) =
    Inr (v * (q * 10 ^ k) + f * q, rest)"
proof -
  let ?fr = "if f = 0 then [] else CHR ''.'' # fixed k f"
  let ?s = "nat_digits v @ ?fr @ u @ rest" and ?unit = "q * 10 ^ k"
  obtain c us where c: "u = c # us" "\<not> is_digit c" "c \<noteq> CHR ''.''"
    using u(2,3) by (cases u) (auto simp: unit_end_def)
  have int: "leadingInt 0 ?s = Some (v, ?fr @ u @ rest)"
    using leadingInt_digits [OF v(1)] c dot_no_digit by (cases "f = 0") simp_all
  have tw: "takeWhile (\<lambda>c. \<not> unit_end c) (u @ rest) = u" "dropWhile (\<lambda>c. \<not> unit_end c) (u @ rest) = rest"
    using u(3) rest by (cases rest; auto simp: list_all_iff takeWhile_append dropWhile_append)+
  have hd: "unit_end (hd ?s)" using nat_digits_hd by (simp add: unit_end_def)
  have "v \<le> 2 ^ 63 div ?unit" using v(2,3) by (simp add: less_eq_div_iff_mult_less_eq)
  moreover have "leadingFraction 0 (Fin 1) False (fixed k f @ u @ rest) = (f, Fin (10 ^ k), u @ rest)"
    using leadingFraction_fixed [OF f(1,2)] c by simp
  moreover have "nat (f_trunc (f_mul (f_of_int (int f)) (f_div (f_of_int (int ?unit)) (Fin (10 ^ k))))) = f * q" if "0 < f"
  proof -
    have "(10 :: nat) ^ k \<le> 10 ^ 12" using f(1) by (intro power_increasing) simp_all
    then have "f \<le> 10 ^ 12" using f(2) by linarith
    from fraction_exact [OF this f(3) f(4) [OF that]] show ?thesis by (simp only: nat_int)
  qed
  ultimately show ?thesis
    unfolding parse_component_def using hd int tw u(1,2) v(2) c
    by (cases "f = 0") (simp_all add: Let_def del: f_mul.simps f_div.simps f_trunc.simps)
qed

lemma parse_units_step:
  assumes "parse_component orig s = Inr (w, r)" and "s \<noteq> []" and "d + w \<le> 2 ^ 63"
  shows "parse_units orig d s = parse_units orig (d + w) r"
  using assms by (subst parse_units.simps) (simp add: Let_def)

lemma parse_whole:
  assumes "unitMap u = Some q" and "u \<noteq> []" and "list_all (\<lambda>c. \<not> unit_end c) u" and "rest = [] \<or> unit_end (hd rest)"
    and "v \<le> 10 ^ 17" and "d + v * q \<le> 2 ^ 63" and "0 < q"
  shows "parse_units orig d (nat_digits v @ u @ rest) = parse_units orig (d + v * q) rest"
proof -
  have "parse_component orig (nat_digits v @ u @ rest) = Inr (v * q, rest)"
    using parse_component_printed [of u q 0 rest 0 v orig] assms by simp
  from parse_units_step [OF this _ assms(6)] show ?thesis by simp
qed

lemma parse_frac:
  assumes "unitMap u = Some (10 ^ prec)" and "u \<noteq> []" and "list_all (\<lambda>c. \<not> unit_end c) u" and "prec \<le> 9"
    and "fmtFrac prec n False u = (fr, w)" and "v \<le> 10 ^ 17" and "d + v * 10 ^ prec + n mod 10 ^ prec \<le> 2 ^ 63"
  shows "parse_units orig d (nat_digits v @ fr) = Inr (d + v * 10 ^ prec + n mod 10 ^ prec)"
proof -
  obtain k f where k: "k \<le> prec" "f < 10 ^ k" "f * 10 ^ (prec - k) = n mod 10 ^ prec"
    "fr = (if f = 0 then [] else CHR ''.'' # fixed k f) @ u"
    using fmtFrac_digits [of prec n u] assms(5) by auto
  have p: "10 ^ (prec - k) * 10 ^ k = (10 :: nat) ^ prec" using k(1) by (simp add: power_add [symmetric])
  have b: "(10 :: nat) ^ prec \<le> 10 ^ 9" using assms(4) by (intro power_increasing) simp_all
  have "n mod 10 ^ prec \<le> 10 ^ prec" by (simp add: less_imp_le)
  also have "\<dots> \<le> 10 ^ 9" by (rule b)
  finally have m: "n mod 10 ^ prec \<le> 10 ^ 12" by simp
  have "parse_component orig (nat_digits v @ (if f = 0 then [] else CHR ''.'' # fixed k f) @ u @ []) =
    Inr (v * (10 ^ (prec - k) * 10 ^ k) + f * 10 ^ (prec - k), [])"
    by (rule parse_component_printed) (use assms k p b m in \<open>simp_all\<close>)
  then have "parse_component orig (nat_digits v @ fr) = Inr (v * 10 ^ prec + n mod 10 ^ prec, [])"
    by (simp add: k(3,4) p)
  from parse_units_step [OF this, of d] show ?thesis
    using assms(7) by (simp add: add.assoc parse_units.simps [of orig _ "[]"])
qed

lemma units [simp]:
  "unitMap ''ns'' = Some (10 ^ 0)" "unitMap [CHR 0xC2, CHR 0xB5, CHR ''s''] = Some (10 ^ 3)"
  "unitMap ''ms'' = Some (10 ^ 6)" "unitMap ''s'' = Some (10 ^ 9)"
  "unitMap ''m'' = Some 60000000000" "unitMap ''h'' = Some 3600000000000"
  by (simp_all add: unitMap_def)

lemma unit_letters [simp]:
  "\<not> unit_end CHR ''n''" "\<not> unit_end CHR ''s''" "\<not> unit_end CHR ''m''" "\<not> unit_end CHR ''h''"
  "\<not> unit_end CHR 0xC2" "\<not> unit_end CHR 0xB5"
  by (simp_all add: unit_end_def is_digit_def byte_val_def)

lemma digits_unit_end: "unit_end (hd (nat_digits n @ cs))"
  using nat_digits_hd by (simp add: unit_end_def)

text \<open>Below a second the unit is chosen by the size; above, hours and minutes are printed as needed.\<close>

lemma parse_small:
  assumes "n < 10 ^ 9"
  shows "parse_units orig 0 (duration_abs n) = Inr n"
proof -
  have n: "n \<le> 10 ^ 17" "n \<le> 2 ^ 63" using assms by simp_all
  have b: "n div 10 ^ k \<le> 10 ^ 17" "n div 10 ^ k * 10 ^ k + n mod 10 ^ k \<le> 2 ^ 63" for k
    using n div_le_dividend [of n "10 ^ k"] div_mult_mod_eq [of n "10 ^ k"] by (metis order_trans, metis)
  have one: "parse_units orig 0 (nat_digits (snd (fmtFrac prec n False u)) @ fst (fmtFrac prec n False u)) = Inr n"
    if "unitMap u = Some (10 ^ prec)" "u \<noteq> []" "list_all (\<lambda>c. \<not> unit_end c) u" "prec \<le> 9" for prec u
  proof -
    obtain fr w where fr: "fmtFrac prec n False u = (fr, w)" by fastforce
    then have "w = n div 10 ^ prec" using fmtFrac_value [of prec n False u] by simp
    moreover have "parse_units orig 0 (nat_digits (n div 10 ^ prec) @ fr) = Inr (0 + n div 10 ^ prec * 10 ^ prec + n mod 10 ^ prec)"
      by (rule parse_frac [OF that fr b(1)]) (use b(2) in simp)
    ultimately show ?thesis using fr by (simp only: add_0 div_mult_mod_eq fst_conv snd_conv)
  qed
  have units: "parse_units orig 0 (nat_digits (snd (fmtFrac 0 n False ''ns'')) @ fst (fmtFrac 0 n False ''ns'')) = Inr n"
    "parse_units orig 0 (nat_digits (snd (fmtFrac 3 n False [CHR 0xC2, CHR 0xB5, CHR ''s''])) @
       fst (fmtFrac 3 n False [CHR 0xC2, CHR 0xB5, CHR ''s''])) = Inr n"
    "parse_units orig 0 (nat_digits (snd (fmtFrac 6 n False ''ms'')) @ fst (fmtFrac 6 n False ''ms'')) = Inr n"
    by (rule one; simp)+
  have z: "fmtFrac 9 0 False ''s'' = (''s'', 0)" using fmtFrac_whole [of 9 0 "''s''"] by (simp only: mult_zero_left)
  have "duration_abs 0 = nat_digits 0 @ ''s''" by code_simp
  then have zero: "parse_units orig 0 (duration_abs 0) = Inr 0"
    using parse_frac [OF _ _ _ _ z, of 0 0 orig] by simp
  have "duration_abs n = nat_digits (snd (fmtFrac 0 n False ''ns'')) @ fst (fmtFrac 0 n False ''ns'') \<or>
    duration_abs n = nat_digits (snd (fmtFrac 3 n False [CHR 0xC2, CHR 0xB5, CHR ''s''])) @
       fst (fmtFrac 3 n False [CHR 0xC2, CHR 0xB5, CHR ''s'']) \<or>
    duration_abs n = nat_digits (snd (fmtFrac 6 n False ''ms'')) @ fst (fmtFrac 6 n False ''ms'')" if "n \<noteq> 0"
    using that assms by (simp add: duration_abs_def Let_def split_beta del: fmtFrac.simps)
  then show ?thesis using units zero by (cases "n = 0") (simp_all only: not_False_eq_True, metis)
qed

lemma parse_seconds:
  assumes "fmtFrac 9 n False ''s'' = (fr, w)" and "s \<le> 10 ^ 17" and "d + s * 10 ^ 9 + n mod 10 ^ 9 \<le> 2 ^ 63"
  shows "parse_units orig d (nat_digits s @ fr) = Inr (d + s * 10 ^ 9 + n mod 10 ^ 9)"
  by (rule parse_frac [of "''s''" 9 n fr w]) (use assms in \<open>simp_all del: power_Suc\<close>)

lemma parse_minutes:
  assumes "fmtFrac 9 n False ''s'' = (fr, w)" and "m \<le> 10 ^ 17" and "s \<le> 10 ^ 17"
    and "d + m * 60000000000 + s * 10 ^ 9 + n mod 10 ^ 9 \<le> 2 ^ 63"
  shows "parse_units orig d (nat_digits m @ ''m'' @ nat_digits s @ fr) =
    Inr (d + m * 60000000000 + s * 10 ^ 9 + n mod 10 ^ 9)"
proof -
  have "parse_units orig d (nat_digits m @ ''m'' @ nat_digits s @ fr) = parse_units orig (d + m * 60000000000) (nat_digits s @ fr)"
    by (rule parse_whole) (use assms(2,4) digits_unit_end [of s fr] in \<open>simp_all\<close>)
  then show ?thesis unfolding parse_seconds [OF assms(1,3,4)] .
qed

lemma parse_hours:
  assumes "fmtFrac 9 n False ''s'' = (fr, w)" and "h \<le> 10 ^ 17" and "m \<le> 10 ^ 17" and "s \<le> 10 ^ 17"
    and "d + h * 3600000000000 + m * 60000000000 + s * 10 ^ 9 + n mod 10 ^ 9 \<le> 2 ^ 63"
  shows "parse_units orig d (nat_digits h @ ''h'' @ nat_digits m @ ''m'' @ nat_digits s @ fr) =
    Inr (d + h * 3600000000000 + m * 60000000000 + s * 10 ^ 9 + n mod 10 ^ 9)"
proof -
  have "parse_units orig d (nat_digits h @ ''h'' @ nat_digits m @ ''m'' @ nat_digits s @ fr) =
      parse_units orig (d + h * 3600000000000) (nat_digits m @ ''m'' @ nat_digits s @ fr)"
    by (rule parse_whole) (use assms(2,5) digits_unit_end [of m "''m'' @ nat_digits s @ fr"] in \<open>simp_all\<close>)
  then show ?thesis unfolding parse_minutes [OF assms(1,3,4,5)] .
qed

lemma parse_large:
  assumes "10 ^ 9 \<le> n" and "n \<le> 2 ^ 63"
  shows "parse_units orig 0 (duration_abs n) = Inr n"
proof -
  let ?secs = "n div 10 ^ 9" and ?r = "n mod 10 ^ 9"
  let ?mins = "?secs div 60"
  let ?s = "?secs mod 60" and ?m = "?mins mod 60" and ?h = "?mins div 60"
  obtain fr w where fr: "fmtFrac 9 n False ''s'' = (fr, w)" by fastforce
  then have w: "w = ?secs" using fmtFrac_value [of 9 n False "''s''"] by simp
  have sec: "?mins * 60 + ?s = ?secs" "?h * 60 + ?m = ?mins" "?secs * 10 ^ 9 + ?r = n" by (rule div_mult_mod_eq)+
  have flat: "h * 3600000000000 + m * 60000000000 + s * 10 ^ 9 + r = q"
    if "k * 60 + s = p" "h * 60 + m = k" "p * 10 ^ 9 + r = q" for h m s r q k p :: nat
    using that by simp
  from flat [OF sec] have n: "?h * 3600000000000 + ?m * 60000000000 + ?s * 10 ^ 9 + ?r = n" .
  have le: "?h \<le> 10 ^ 17" "?m \<le> 10 ^ 17" "?s \<le> 10 ^ 17"
  proof -
    have "?h * 3600000000000 \<le> 2 ^ 63" using n assms(2) by linarith
    then show "?h \<le> 10 ^ 17" by simp
    have "?m < 60" "?s < 60" by simp_all
    then show "?m \<le> 10 ^ 17" "?s \<le> 10 ^ 17" by simp_all
  qed
  note s = parse_seconds [OF fr le(3)] and m = parse_minutes [OF fr le(2,3)] and h = parse_hours [OF fr le(1,2,3)]
  have d: "duration_abs n = (if ?mins = 0 then nat_digits ?s @ fr
    else if ?h = 0 then nat_digits ?m @ ''m'' @ nat_digits ?s @ fr
    else nat_digits ?h @ ''h'' @ nat_digits ?m @ ''m'' @ nat_digits ?s @ fr)"
    using assms(1) fr w by (simp add: duration_abs_def Let_def)
  show ?thesis
  proof (cases "?mins = 0")
    case True
    then have e: "0 + ?s * 10 ^ 9 + ?r = n" using sec by (simp only: add_0 mult_zero_left)
    then show ?thesis using s [of 0 orig] d True assms(2) by (simp only: if_True simp_thms)
  next
    case False
    show ?thesis
    proof (cases "?h = 0")
      case True
      then have e: "0 + ?m * 60000000000 + ?s * 10 ^ 9 + ?r = n" using n by (simp only: add_0 mult_zero_left)
      then show ?thesis using m [of 0 orig] d False True assms(2) by (simp only: if_True if_False simp_thms)
    next
      case hours: False
      have "0 + ?h * 3600000000000 + ?m * 60000000000 + ?s * 10 ^ 9 + ?r = n" using n by (simp only: add_0)
      then show ?thesis using h [of 0 orig] d False hours assms(2) by (simp only: if_False simp_thms)
    qed
  qed
qed

text \<open>A printed duration starts with a digit and is longer than its first number.\<close>

lemma fmtFrac_nonempty: "buf \<noteq> [] \<Longrightarrow> fst (fmtFrac prec v p buf) \<noteq> []"
  by (induction prec arbitrary: v p buf) (simp_all add: Let_def)

lemma duration_abs_shape: "\<exists>v cs. duration_abs n = nat_digits v @ cs \<and> cs \<noteq> []"
proof -
  have f: "\<exists>v cs. nat_digits (snd (fmtFrac prec n False u)) @ fst (fmtFrac prec n False u) = nat_digits v @ cs \<and> cs \<noteq> []"
    if "u \<noteq> []" for prec u
    using fmtFrac_nonempty [OF that] by blast
  have "fst (fmtFrac 9 n False ''s'') \<noteq> []" by (rule fmtFrac_nonempty) simp
  then have g: "\<exists>v cs. duration_abs n = nat_digits v @ cs \<and> cs \<noteq> []" if "10 ^ 9 \<le> n"
    using that by (auto simp: duration_abs_def Let_def split_beta)
  have "''0s'' = nat_digits 0 @ ''s''" by code_simp
  then have zero: "\<exists>v cs. ''0s'' = nat_digits v @ cs \<and> cs \<noteq> []" by blast
  show ?thesis
  proof (cases "10 ^ 9 \<le> n")
    case False
    then show ?thesis
      using f [of "''ns''" 0] f [of "[CHR 0xC2, CHR 0xB5, CHR ''s'']" 3] f [of "''ms''" 6] zero
      by (cases "n = 0") (simp_all add: duration_abs_def Let_def split_beta del: fmtFrac.simps)
  qed (rule g)
qed

lemma duration_abs_not_bare:
  "hd (duration_abs n) \<noteq> CHR ''-''" "hd (duration_abs n) \<noteq> CHR ''+''" "duration_abs n \<noteq> []" "duration_abs n \<noteq> ''0''"
proof -
  obtain v cs where v: "duration_abs n = nat_digits v @ cs" "cs \<noteq> []" using duration_abs_shape by blast
  have d: "is_digit (hd (duration_abs n))" unfolding v by (rule nat_digits_hd)
  have "\<not> is_digit CHR ''-''" "\<not> is_digit CHR ''+''" by (simp_all add: is_digit_def byte_val_def)
  with d show "hd (duration_abs n) \<noteq> CHR ''-''" "hd (duration_abs n) \<noteq> CHR ''+''" by metis+
  have "nat_digits v \<noteq> []" by (simp add: nat_digits.simps [of v])
  then have "2 \<le> length (duration_abs n)" using v by (cases "nat_digits v"; cases cs) simp_all
  then show "duration_abs n \<noteq> []" "duration_abs n \<noteq> ''0''" by auto
qed

lemma parse_units_abs: "n \<le> 2 ^ 63 \<Longrightarrow> parse_units orig 0 (duration_abs n) = Inr n"
  using parse_small [of n orig] parse_large [of n orig] by (cases "n < 10 ^ 9") simp_all

text \<open>Parsing inverts printing, for every duration.\<close>

lemma ParseDuration_String:
  assumes "int64_range d"
  shows "ParseDuration (Duration_String d) = Inr d"
proof -
  let ?n = "nat \<bar>d\<bar>"
  have n: "?n \<le> 2 ^ 63" "0 \<le> d \<Longrightarrow> ?n \<le> 2 ^ 63 - 1" using assms by (auto simp: int64_range_def)
  obtain c t where c: "duration_abs ?n = c # t" "c \<noteq> CHR ''-''" "c \<noteq> CHR ''+''"
    using duration_abs_not_bare [of ?n] by (cases "duration_abs ?n") simp_all
  have z: "c # t \<noteq> ''0''" using duration_abs_not_bare(4) [of ?n] unfolding c(1) .
  have p: "parse_units orig 0 (c # t) = Inr ?n" for orig using parse_units_abs [OF n(1), of orig] unfolding c(1) .
  show ?thesis
  proof (cases "d < 0")
    case True
    then have "Duration_String d = CHR ''-'' # c # t" using c(1) by (simp add: Duration_String_def)
    then have "ParseDuration (Duration_String d) = Inr (- int ?n)"
      using z p by (simp add: ParseDuration_def del: list.inject)
    then show ?thesis using True by simp
  next
    case False
    then have "Duration_String d = c # t" using c(1) by (simp add: Duration_String_def)
    then have "ParseDuration (Duration_String d) = Inr (int ?n)"
      using z p c(2,3) n(2) False by (simp add: ParseDuration_def del: list.inject)
    then show ?thesis using False by simp
  qed
qed

end
