(* ===== verification/Config_Schema.thy ===== *)
theory Config_Schema
  imports Types Go_Duration
begin

text \<open>
  \<^verbatim>\<open>internal/config/schema.go\<close> and the data of \<^verbatim>\<open>config.go\<close>: the shapes of the two YAML inputs and
  of the merged configuration. A pointer to a value is an option, a nil slice is \<open>None\<close> where the
  code tells it from an empty one. Decoding YAML is a library function and an argument of the
  definitions that decode.
\<close>

record GlobalConfig =
  g_Interval :: duration
  g_PacketInterval :: duration
  g_Timeout :: duration
  g_Count :: go_int
  g_SourceIP :: string

record StdoutExporterConfig =
  so_Enabled :: bool
  so_Format :: string

record OTLPTLSConfig =
  tls_CertFile :: string
  tls_KeyFile :: string
  tls_CAFile :: string

record OTLPBatchConfig =
  b_ExportInterval :: duration
  b_ExportTimeout :: duration

record OTLPRetryConfig =
  rt_Enabled :: bool
  rt_MaxElapsedTime :: duration

record OTLPExporterConfig =
  o_Enabled :: bool
  o_Endpoint :: string
  o_Protocol :: string
  o_Insecure :: bool
  o_TLS :: OTLPTLSConfig
  o_Batch :: OTLPBatchConfig
  o_Retry :: OTLPRetryConfig
  o_ShutdownTimeout :: duration

record ExportersConfig =
  e_Stdout :: StdoutExporterConfig
  e_OTLP :: OTLPExporterConfig

record ServerConfig =
  sv_Listen :: string

record PipelineConfig =
  p_BufferSize :: go_int

record rawHTTPConfig =
  rh_Scheme :: string
  rh_Port :: go_int
  rh_Path :: string
  rh_Method :: string
  rh_ExpectedStatus :: go_int
  rh_FollowRedirects :: "bool option"
  rh_TLSExpiryWarningDays :: go_int

record rawTCPConfig =
  rtcp_Port :: go_int
  rtcp_Mode :: string

record rawUDPConfig =
  ru_Port :: go_int
  ru_Payload :: string
  ru_ExpectedResponse :: string

record rawDNSConfig =
  rd_RecordType :: string
  rd_Resolver :: string
  rd_ExpectedAnswer :: "string list"

record rawProbeConfig =
  r_Name :: string
  r_Type :: string
  r_Targets :: "string list"
  r_MaxResolvedIPs :: go_int
  r_SourceIP :: string
  r_Interval :: "duration option"
  r_PacketInterval :: "duration option"
  r_Timeout :: "duration option"
  r_Count :: "go_int option"
  r_Labels :: labels
  r_HTTP :: "rawHTTPConfig option"
  r_TCP :: "rawTCPConfig option"
  r_UDP :: "rawUDPConfig option"
  r_DNS :: "rawDNSConfig option"

record rawProbeFile =
  rf_Global :: "GlobalConfig option"
  rf_Probes :: "rawProbeConfig list option"

record rawOpsFile =
  of_Exporters :: ExportersConfig
  of_Server :: ServerConfig
  of_Pipeline :: PipelineConfig

record probeSource =
  ps_name :: string
  ps_data :: string

record Config =
  c_Global :: GlobalConfig
  c_Exporters :: ExportersConfig
  c_Server :: ServerConfig
  c_Pipeline :: PipelineConfig
  c_Probes :: "ProbeConfig list"
  c_SHA256 :: string

text \<open>\<^verbatim>\<open>Duration.UnmarshalYAML\<close>, over the parser of durations of package \<^verbatim>\<open>time\<close>.\<close>

definition UnmarshalYAML :: "string \<Rightarrow> string + duration" where
  "UnmarshalYAML v =
     (case ParseDuration v of
        Inl err \<Rightarrow> Inl (''invalid duration '' @ Quote v @ '': '' @ err)
      | Inr dur \<Rightarrow> Inr dur)"

lemma UnmarshalYAML_String: "int64_range d \<Longrightarrow> UnmarshalYAML (Duration_String d) = Inr d"
  by (simp add: UnmarshalYAML_def ParseDuration_String)

end
