(* ===== verification/Go_Net.thy ===== *)
theory Go_Net
  imports Prelude
begin

text \<open>
  The part of Go's package \<^verbatim>\<open>net\<close> that the sources call and that is a pure function: parsing of
  IP address literals (\<^verbatim>\<open>net.ParseIP\<close>, with the zone of an IPv6 literal as
  \<^verbatim>\<open>netip.ParseAddr\<close> reads it), \<^verbatim>\<open>IP.To4\<close>, \<^verbatim>\<open>IP.Equal\<close>, \<^verbatim>\<open>net.JoinHostPort\<close>, and the literal
  fast path of \<^verbatim>\<open>LookupHost\<close>. Name resolution itself is an argument of the definitions that use it.
\<close>

type_synonym byte = "8 word"
type_synonym ip = "byte list"

subsection \<open>IPv4 literals\<close>

text \<open>
  The scan of \<^verbatim>\<open>parseIPv4Fields\<close>: \<open>val\<close> and \<open>digs\<close> are the value and the number of digits of the
  current octet, \<open>done\<close> the octets already stored. An octet without a digit, a leading zero, a
  value above 255, a fifth octet and a foreign character are refused.
\<close>

fun ipv4_scan :: "nat \<Rightarrow> nat \<Rightarrow> nat list \<Rightarrow> string \<Rightarrow> nat list option" where
  "ipv4_scan val digs done [] =
     (if length done = 3 \<and> 0 < digs then Some (done @ [val]) else None)"
| "ipv4_scan val digs done (c # s) =
     (if is_digit c then
        if digs = 1 \<and> val = 0 then None
        else let v = val * 10 + (byte_val c - 48)
             in if 255 < v then None else ipv4_scan v (digs + 1) done s
      else if c = CHR ''.'' then
        if digs = 0 \<or> s = [] \<or> length done = 3 then None
        else ipv4_scan 0 0 (done @ [val]) s
      else None)"

definition parse_ipv4 :: "string \<Rightarrow> byte list option" where
  "parse_ipv4 s = map_option (map of_nat) (ipv4_scan 0 0 [] s)"

subsection \<open>IPv6 literals\<close>

definition hex_val :: "char \<Rightarrow> nat option" where
  "hex_val c =
     (let n = byte_val c in
      if 48 \<le> n \<and> n \<le> 57 then Some (n - 48)
      else if 97 \<le> n \<and> n \<le> 102 then Some (n - 87)
      else if 65 \<le> n \<and> n \<le> 70 then Some (n - 55)
      else None)"

text \<open>One group: its value, its number of digits and the rest of the text; more than 4 digits fail.\<close>

fun hex_group :: "nat \<Rightarrow> nat \<Rightarrow> string \<Rightarrow> (nat \<times> nat \<times> string) option" where
  "hex_group acc off [] = Some (acc, off, [])"
| "hex_group acc off (c # s) =
     (case hex_val c of
        None \<Rightarrow> Some (acc, off, c # s)
      | Some d \<Rightarrow> if 3 < off then None else hex_group (acc * 16 + d) (off + 1) s)"

text \<open>
  The loop over the groups. \<open>bs\<close> are the bytes stored so far, \<open>ell\<close> the position of \<^verbatim>\<open>::\<close>. The
  first argument bounds the rounds: every round stores at least two of the sixteen bytes, so
  eight rounds are all the loop can take.
\<close>

fun ipv6_groups :: "nat \<Rightarrow> byte list \<Rightarrow> nat option \<Rightarrow> string
    \<Rightarrow> (byte list \<times> nat option \<times> string) option" where
  "ipv6_groups 0 bs ell s = Some (bs, ell, s)"
| "ipv6_groups (Suc k) bs ell s =
     (if 16 \<le> length bs then Some (bs, ell, s)
      else case hex_group 0 0 s of
        None \<Rightarrow> None
      | Some (acc, off, rest) \<Rightarrow>
          if off = 0 then None
          else if rest \<noteq> [] \<and> hd rest = CHR ''.'' then
            if (ell = None \<and> length bs \<noteq> 12) \<or> 16 < length bs + 4 then None
            else (case parse_ipv4 s of None \<Rightarrow> None | Some q \<Rightarrow> Some (bs @ q, ell, []))
          else
            let bs' = bs @ [of_nat (acc div 256), of_nat (acc mod 256)] in
            (case rest of
               [] \<Rightarrow> Some (bs', ell, [])
             | c # s1 \<Rightarrow>
                 if c \<noteq> CHR '':'' \<or> s1 = [] then None
                 else if hd s1 = CHR '':'' then
                   if ell \<noteq> None then None
                   else if tl s1 = [] then Some (bs', Some (length bs'), [])
                   else ipv6_groups k bs' (Some (length bs')) (tl s1)
                 else ipv6_groups k bs' ell s1))"

definition ipv6_finish :: "byte list \<times> nat option \<times> string \<Rightarrow> byte list option" where
  "ipv6_finish = (\<lambda>(bs, ell, s).
     if s \<noteq> [] then None
     else if length bs < 16 then
       (case ell of
          None \<Rightarrow> None
        | Some e \<Rightarrow> Some (take e bs @ replicate (16 - length bs) 0 @ drop e bs))
     else if ell \<noteq> None then None else Some bs)"

definition parse_ipv6 :: "string \<Rightarrow> byte list option" where
  "parse_ipv6 s =
     (if HasPrefix s ''::'' then
        if drop 2 s = [] then Some (replicate 16 0)
        else Option.bind (ipv6_groups 8 [] (Some 0) (drop 2 s)) ipv6_finish
      else Option.bind (ipv6_groups 8 [] None s) ipv6_finish)"

subsection \<open>Addresses with a zone\<close>

text \<open>
  \<^verbatim>\<open>netip.ParseAddr\<close>: the first of the characters \<^verbatim>\<open>.\<close>, \<^verbatim>\<open>:\<close> and \<^verbatim>\<open>%\<close> decides the family. The
  result is the sixteen-byte form and the zone.
\<close>

definition v4_in_v6 :: "byte list \<Rightarrow> ip" where
  "v4_in_v6 q = replicate 10 0 @ [0xFF, 0xFF] @ q"

definition split_zone :: "string \<Rightarrow> string \<times> string option" where
  "split_zone s =
     (let a = takeWhile (\<lambda>c. c \<noteq> CHR ''%'') s
      in if length a = length s then (s, None) else (a, Some (drop (length a + 1) s)))"

definition ParseAddr :: "string \<Rightarrow> (ip \<times> string) option" where
  "ParseAddr s =
     (case dropWhile (\<lambda>c. c \<notin> set ''.:%'') s of
        [] \<Rightarrow> None
      | c # _ \<Rightarrow>
          if c = CHR ''.'' then map_option (\<lambda>q. (v4_in_v6 q, [])) (parse_ipv4 s)
          else if c = CHR '':'' then
            (case split_zone s of
               (a, None) \<Rightarrow> map_option (\<lambda>b. (b, [])) (parse_ipv6 a)
             | (a, Some z) \<Rightarrow> if z = [] then None else map_option (\<lambda>b. (b, z)) (parse_ipv6 a))
          else None)"

definition ParseIP :: "string \<Rightarrow> ip option" where
  "ParseIP s =
     (case ParseAddr s of None \<Rightarrow> None | Some (b, z) \<Rightarrow> if z = [] then Some b else None)"

definition To4 :: "ip \<Rightarrow> ip option" where
  "To4 b =
     (if length b = 4 then Some b
      else if length b = 16 \<and> take 12 b = replicate 10 0 @ [0xFF, 0xFF] then Some (drop 12 b)
      else None)"

definition IP_Equal :: "ip \<Rightarrow> ip \<Rightarrow> bool" where
  "IP_Equal a b \<longleftrightarrow>
     (if length a = length b then a = b
      else if length a = 4 \<and> length b = 16 then take 12 b = replicate 10 0 @ [0xFF, 0xFF] \<and> a = drop 12 b
      else if length a = 16 \<and> length b = 4 then take 12 a = replicate 10 0 @ [0xFF, 0xFF] \<and> drop 12 a = b
      else False)"

definition JoinHostPort :: "string \<Rightarrow> string \<Rightarrow> string" where
  "JoinHostPort h p =
     (if CHR '':'' \<in> set h then ''['' @ h @ '']:'' @ p else h @ '':'' @ p)"

text \<open>
  \<^verbatim>\<open>Resolver.LookupHost\<close>: the empty name is refused and an address literal, with or without a
  zone, is returned as it is; anything else goes to the resolver.
\<close>

definition LookupHost :: "(string \<Rightarrow> string + string list) \<Rightarrow> string \<Rightarrow> string + string list" where
  "LookupHost resolver host =
     (if host = [] then Inl ''no such host''
      else if ParseAddr host \<noteq> None then Inr [host]
      else resolver host)"

subsection \<open>Printing of addresses\<close>

text \<open>
  \<^verbatim>\<open>IP.String\<close>: dotted decimal for IPv4 and for IPv4 in IPv6, otherwise the eight groups in lower-case
  hexadecimal with the leftmost longest run of at least two zero groups replaced by \<^verbatim>\<open>::\<close>; the
  nil address prints as \<^verbatim>\<open><nil>\<close> and a slice of any other length as a question mark and its bytes.
\<close>

fun hex_digits :: "nat \<Rightarrow> string" where
  "hex_digits n =
     (if n < 16 then [hex_digit n] else hex_digits (n div 16) @ [hex_digit (n mod 16)])"

declare hex_digits.simps [simp del]

fun join_with :: "string \<Rightarrow> string list \<Rightarrow> string" where
  "join_with sep [] = []"
| "join_with sep [x] = x"
| "join_with sep (x # y # xs) = x @ sep @ join_with sep (y # xs)"

fun ip_groups :: "byte list \<Rightarrow> nat list" where
  "ip_groups (a # b # r) = (unat a * 256 + unat b) # ip_groups r"
| "ip_groups _ = []"

definition zero_run :: "nat list \<Rightarrow> nat" where
  "zero_run gs = length (takeWhile (\<lambda>g. g = 0) gs)"

text \<open>Position and length of the longest run, the leftmost one of that length.\<close>

fun longest_run :: "nat \<Rightarrow> nat list \<Rightarrow> nat \<times> nat \<Rightarrow> nat \<times> nat" where
  "longest_run i [] best = best"
| "longest_run i (g # gs) best =
     longest_run (Suc i) gs (if snd best < zero_run (g # gs) then (i, zero_run (g # gs)) else best)"

definition dotted :: "byte list \<Rightarrow> string" where
  "dotted q = join_with ''.'' (map (\<lambda>b. nat_digits (unat b)) q)"

definition IP_String :: "ip \<Rightarrow> string" where
  "IP_String b =
     (if b = [] then ''<nil>''
      else case To4 b of
        Some q \<Rightarrow> dotted q
      | None \<Rightarrow>
          if length b \<noteq> 16
          then ''?'' @ concat (map (\<lambda>x. [hex_digit (unat x div 16), hex_digit (unat x mod 16)]) b)
          else let gs = ip_groups b;
                   (p, n) = longest_run 0 gs (0, 0);
                   text = (\<lambda>xs. join_with '':'' (map hex_digits xs))
               in if n < 2 then text gs else text (take p gs) @ ''::'' @ text (drop (p + n) gs))"

subsection \<open>Shape of the results\<close>

lemma ipv4_scan_length: "ipv4_scan v d os s = Some r \<Longrightarrow> length r = 4"
  by (induction s arbitrary: v d os) (auto simp: Let_def split: if_splits)

lemma parse_ipv4_length: "parse_ipv4 s = Some q \<Longrightarrow> length q = 4"
  by (auto simp: parse_ipv4_def dest: ipv4_scan_length)

lemma To4_v4_in_v6 [simp]: "length q = 4 \<Longrightarrow> To4 (v4_in_v6 q) = Some q"
  by (simp add: To4_def v4_in_v6_def numeral_eq_Suc)

lemma To4_length: "To4 b = Some q \<Longrightarrow> length q = 4"
  by (auto simp: To4_def split: if_splits)

lemma ParseIP_no_zone: "ParseIP s = Some b \<Longrightarrow> ParseAddr s = Some (b, [])"
  by (auto simp: ParseIP_def split: option.splits if_splits)

lemma ParseIP_nonempty: "ParseIP s = Some b \<Longrightarrow> s \<noteq> []"
  by (auto simp: ParseIP_def ParseAddr_def)

end
