(* ===== verification/Config_Validate.thy ===== *)
theory Config_Validate
  imports Config_Schema Go_Net Go_Duration
begin

text \<open>
  \<^verbatim>\<open>internal/config/validate.go\<close> and \<^verbatim>\<open>protocols.go\<close>: the checks of the timings, of the targets, of the
  source address, of the labels and of the protocol blocks, and the merge of the global defaults
  into a probe. The environment the checks ask (name resolution, the local interfaces, the
  resolution of a nameserver address) is the record \<open>cfg_env\<close>.
\<close>

datatype net_addr = Net_IPNet ip | Net_IPAddr ip | Net_other

record cfg_env =
  ce_lookup :: "string \<Rightarrow> string + string list"
  ce_local_addrs :: "string + net_addr list"
  ce_resolve_tcp :: "string \<Rightarrow> string option"

subsection \<open>Timings\<close>

text \<open>
  The product of the packet interval and the count is an int64 multiplication: it wraps around.
\<close>

definition validateTimings :: "duration \<Rightarrow> duration \<Rightarrow> duration \<Rightarrow> go_int \<Rightarrow> string + unit" where
  "validateTimings interval packetInterval timeout count =
     (if interval \<le> 0 then Inl ''probe_every must be positive''
      else if packetInterval < Millisecond then Inl ''packet_interval must be >= 1ms''
      else if timeout \<le> 0 then Inl ''timeout must be positive''
      else if count \<le> 0 then Inl ''count must be positive''
      else let minDuration = wrap64 (packetInterval * count) in
        if timeout \<le> minDuration
        then Inl (''packet_interval * count ('' @ Duration_String minDuration @
                  '') must be less than timeout ('' @ Duration_String timeout @ '')'')
        else if interval \<le> timeout
        then Inl (''timeout ('' @ Duration_String timeout @ '') must be less than probe_every ('' @
                  Duration_String interval @ '')'')
        else Inr ())"

definition validateGlobal :: "GlobalConfig \<Rightarrow> string + unit" where
  "validateGlobal g =
     prefix_err ''global.'' (validateTimings (g_Interval g) (g_PacketInterval g) (g_Timeout g) (g_Count g))"

definition mergeTimings ::
  "rawProbeConfig \<Rightarrow> GlobalConfig \<Rightarrow> duration \<times> duration \<times> duration \<times> go_int" where
  "mergeTimings r g =
     (case r_Interval r of None \<Rightarrow> g_Interval g | Some d \<Rightarrow> d,
      case r_PacketInterval r of None \<Rightarrow> g_PacketInterval g | Some d \<Rightarrow> d,
      case r_Timeout r of None \<Rightarrow> g_Timeout g | Some d \<Rightarrow> d,
      case r_Count r of None \<Rightarrow> g_Count g | Some n \<Rightarrow> n)"

subsection \<open>Targets, source address, labels\<close>

definition validateOneTarget :: "cfg_env \<Rightarrow> string \<Rightarrow> string + unit" where
  "validateOneTarget env entry =
     (if ParseIP entry \<noteq> None then Inr ()
      else case LookupHost (ce_lookup env) entry of
        Inl err \<Rightarrow> Inl (''target '' @ Quote entry @ '' is not a valid IP and could not be resolved: '' @ err)
      | Inr addrs \<Rightarrow>
          if addrs = []
          then Inl (''target '' @ Quote entry @ '' is not a valid IP and resolved to no addresses'')
          else Inr ())"

definition validateDNSQueryName :: "string \<Rightarrow> string + unit" where
  "validateDNSQueryName entry =
     (if entry = [] then Inl ''dns target query name must not be empty''
      else if ContainsAny entry [CHR '' '', CHR 0x09, CHR 0x0D, CHR 0x0A]
      then Inl (''dns target query name '' @ Quote entry @ '' must not contain whitespace'')
      else Inr ())"

definition validateTargets :: "cfg_env \<Rightarrow> rawProbeConfig \<Rightarrow> string + unit" where
  "validateTargets env r =
     (if r_Targets r = [] then Inl ''targets is required and must have at least one entry''
      else first_error
             (if r_Type r = ProbeTypeDNS then validateDNSQueryName else validateOneTarget env)
             (r_Targets r))"

fun addr_ip :: "net_addr \<Rightarrow> ip option" where
  "addr_ip (Net_IPNet a) = Some a"
| "addr_ip (Net_IPAddr a) = Some a"
| "addr_ip Net_other = None"

text \<open>A string that is not an address parses to the nil slice.\<close>

definition isLocalIP :: "cfg_env \<Rightarrow> string \<Rightarrow> string + bool" where
  "isLocalIP env ip =
     (case ce_local_addrs env of
        Inl err \<Rightarrow> Inl (''listing local interfaces: '' @ err)
      | Inr addrs \<Rightarrow>
          Inr (list_ex (\<lambda>addr. case addr_ip addr of
                 None \<Rightarrow> False
               | Some a \<Rightarrow> IP_Equal a (case ParseIP ip of None \<Rightarrow> [] | Some b \<Rightarrow> b)) addrs))"

definition resolveSourceIP :: "cfg_env \<Rightarrow> rawProbeConfig \<Rightarrow> GlobalConfig \<Rightarrow> string + string" where
  "resolveSourceIP env r g =
     (let sourceIP = (if r_SourceIP r = [] then g_SourceIP g else r_SourceIP r)
      in if sourceIP = [] then Inr []
         else if ParseIP sourceIP = None
         then Inl (''source_ip '' @ Quote sourceIP @ '' is not a valid IP address'')
         else case isLocalIP env sourceIP of
           Inl err \<Rightarrow> Inl err
         | Inr isLocal \<Rightarrow>
             if \<not> isLocal
             then Inl (''source_ip '' @ Quote sourceIP @ '' is not assigned to any local interface'')
             else Inr sourceIP)"

definition label_first :: "char \<Rightarrow> bool" where
  "label_first c \<longleftrightarrow> 65 \<le> byte_val c \<and> byte_val c \<le> 90 \<or> 97 \<le> byte_val c \<and> byte_val c \<le> 122 \<or> c = CHR ''_''"

definition label_rest :: "char \<Rightarrow> bool" where
  "label_rest c \<longleftrightarrow> label_first c \<or> is_digit c \<or> c = CHR ''.'' \<or> c = CHR ''-''"

text \<open>The regular expression \<^verbatim>\<open>labelKeyRE\<close>.\<close>

fun labelKeyRE :: "string \<Rightarrow> bool" where
  "labelKeyRE [] = False"
| "labelKeyRE (c # cs) = (label_first c \<and> list_all label_rest cs)"

definition validateLabels :: "labels \<Rightarrow> string + unit" where
  "validateLabels labels =
     first_error (\<lambda>(k, v).
       if \<not> labelKeyRE k then Inl (''label key '' @ Quote k @ '' is not a valid OTel attribute name'')
       else if ContainsAny v [CHR 0x0A, CHR 0x0D, CHR 0x09]
       then Inl (''label '' @ Quote k @ '' value contains control characters'')
       else Inr ()) (case labels of None \<Rightarrow> [] | Some kvs \<Rightarrow> kvs)"

definition validateOTLP :: "OTLPExporterConfig \<Rightarrow> string + unit" where
  "validateOTLP oc =
     (if \<not> o_Enabled oc then Inr ()
      else if o_Endpoint oc = [] then Inl ''exporters.otlp.endpoint is required when otlp is enabled''
      else if o_Protocol oc \<noteq> ''grpc'' \<and> o_Protocol oc \<noteq> ''http''
      then Inl (''exporters.otlp.protocol must be '' @ Quote ''grpc'' @ '' or '' @ Quote ''http'' @
                '', got '' @ Quote (o_Protocol oc))
      else if (tls_CertFile (o_TLS oc) = []) \<noteq> (tls_KeyFile (o_TLS oc) = [])
      then Inl ''exporters.otlp.tls: cert_file and key_file must both be set or both be empty''
      else if o_ShutdownTimeout oc \<le> 0 then Inl ''exporters.otlp.shutdown_timeout must be positive''
      else Inr ())"

subsection \<open>Protocol blocks\<close>

definition port_ok :: "go_int \<Rightarrow> bool" where
  "port_ok p \<longleftrightarrow> 1 \<le> p \<and> p \<le> 65535"

definition validateHTTPConfig :: "rawHTTPConfig \<Rightarrow> string + HTTPConfig" where
  "validateHTTPConfig r =
     (let s = (if rh_Scheme r \<noteq> [] then ToLower (rh_Scheme r) else ''http'');
          m = (if rh_Method r \<noteq> [] then ToUpper (rh_Method r) else ''GET'')
      in if rh_Scheme r \<noteq> [] \<and> s \<noteq> ''http'' \<and> s \<noteq> ''https''
         then Inl (''http.scheme must be '' @ Quote ''http'' @ '' or '' @ Quote ''https'' @ '', got '' @ Quote (rh_Scheme r))
         else if rh_Port r \<noteq> 0 \<and> (rh_Port r < 1 \<or> 65535 < rh_Port r)
         then Inl (''http.port must be in [1, 65535], got '' @ Itoa (rh_Port r))
         else if rh_Method r \<noteq> [] \<and> m \<noteq> ''GET'' \<and> m \<noteq> ''HEAD'' \<and> m \<noteq> ''POST''
         then Inl (''http.method must be GET, HEAD, or POST, got '' @ Quote (rh_Method r))
         else if rh_ExpectedStatus r \<noteq> 0 \<and> (rh_ExpectedStatus r < 100 \<or> 599 < rh_ExpectedStatus r)
         then Inl (''http.expected_status must be in [100, 599] or 0 (any 2xx), got '' @ Itoa (rh_ExpectedStatus r))
         else if rh_TLSExpiryWarningDays r < 0
         then Inl (''http.tls_expiry_warning_days must be >= 0, got '' @ Itoa (rh_TLSExpiryWarningDays r))
         else Inr \<lparr>http_Scheme = s, http_Port = rh_Port r,
                   http_Path = (if rh_Path r \<noteq> [] then rh_Path r else ''/''),
                   http_Method = m, http_ExpectedStatus = rh_ExpectedStatus r,
                   http_FollowRedirects = (case rh_FollowRedirects r of None \<Rightarrow> True | Some b \<Rightarrow> b),
                   http_TLSExpiryWarningDays = rh_TLSExpiryWarningDays r\<rparr>)"

definition validateTCPConfig :: "rawTCPConfig \<Rightarrow> string + TCPConfig" where
  "validateTCPConfig r =
     (if rtcp_Port r < 1 \<or> 65535 < rtcp_Port r
      then Inl (''tcp.port must be in [1, 65535], got '' @ Itoa (rtcp_Port r))
      else let mode = (if rtcp_Mode r = [] then TCPModeConnect else rtcp_Mode r)
           in if mode \<noteq> TCPModeConnect \<and> mode \<noteq> TCPModeSYN
              then Inl (''tcp.mode must be '' @ Quote TCPModeConnect @ '' or '' @ Quote TCPModeSYN @
                        '', got '' @ Quote (rtcp_Mode r))
              else Inr \<lparr>tcp_Port = rtcp_Port r, tcp_Mode = mode\<rparr>)"

definition validateUDPConfig :: "rawUDPConfig \<Rightarrow> string + UDPConfig" where
  "validateUDPConfig r =
     (if ru_Port r < 1 \<or> 65535 < ru_Port r
      then Inl (''udp.port must be in [1, 65535], got '' @ Itoa (ru_Port r))
      else if ru_ExpectedResponse r \<noteq> [] \<and> ru_Payload r = []
      then Inl ''udp.expected_response requires a non-empty udp.payload''
      else Inr \<lparr>udp_Port = ru_Port r, udp_Payload = ru_Payload r,
                udp_ExpectedResponse = ru_ExpectedResponse r\<rparr>)"

definition dnsRecordTypes :: "string list" where
  "dnsRecordTypes = [''A'', ''AAAA'', ''CNAME'', ''MX'', ''TXT'']"

definition validateDNSConfig :: "cfg_env \<Rightarrow> rawDNSConfig \<Rightarrow> string + DNSConfig" where
  "validateDNSConfig env r =
     (let recordType = (if rd_RecordType r \<noteq> [] then ToUpper (rd_RecordType r) else ''A'')
      in if rd_RecordType r \<noteq> [] \<and> recordType \<notin> set dnsRecordTypes
         then Inl (''dns.record_type must be one of A, AAAA, CNAME, MX, TXT, got '' @ Quote (rd_RecordType r))
         else case (if rd_Resolver r \<noteq> [] then ce_resolve_tcp env (rd_Resolver r) else None) of
           Some err \<Rightarrow> Inl (''dns.resolver must be a valid host:port: '' @ err)
         | None \<Rightarrow> Inr \<lparr>dns_RecordType = recordType, dns_Resolver = rd_Resolver r,
                        dns_ExpectedAnswer = rd_ExpectedAnswer r\<rparr>)"

definition block_required :: "string \<Rightarrow> string" where
  "block_required ty = ty @ '' config block is required for type '' @ Quote ty"

definition validateProtocolConfig :: "cfg_env \<Rightarrow> rawProbeConfig \<Rightarrow> ProbeConfig \<Rightarrow> string + ProbeConfig" where
  "validateProtocolConfig env r pc =
     (if r_Type r = ProbeTypeICMP then Inr pc
      else if r_Type r = ProbeTypeHTTP then
        (case r_HTTP r of
           None \<Rightarrow> Inl (block_required ''http'')
         | Some h \<Rightarrow> res_bind (validateHTTPConfig h) (\<lambda>cfg. Inr (pc\<lparr>pc_HTTP := Some cfg\<rparr>)))
      else if r_Type r = ProbeTypeTCP then
        (case r_TCP r of
           None \<Rightarrow> Inl (block_required ''tcp'')
         | Some t \<Rightarrow> res_bind (validateTCPConfig t) (\<lambda>cfg. Inr (pc\<lparr>pc_TCP := Some cfg\<rparr>)))
      else if r_Type r = ProbeTypeUDP then
        (case r_UDP r of
           None \<Rightarrow> Inl (block_required ''udp'')
         | Some u \<Rightarrow> res_bind (validateUDPConfig u) (\<lambda>cfg. Inr (pc\<lparr>pc_UDP := Some cfg\<rparr>)))
      else if r_Type r = ProbeTypeDNS then
        (case r_DNS r of
           None \<Rightarrow> Inl (block_required ''dns'')
         | Some d \<Rightarrow> res_bind (validateDNSConfig env d) (\<lambda>cfg. Inr (pc\<lparr>pc_DNS := Some cfg\<rparr>)))
      else Inr pc)"

subsection \<open>Probes\<close>

definition knownProbeTypes :: "string list" where
  "knownProbeTypes = [ProbeTypeDNS, ProbeTypeHTTP, ProbeTypeICMP, ProbeTypeTCP, ProbeTypeUDP]"

text \<open>The struct literal of the merged probe, without its protocol block.\<close>

definition merged_probe ::
  "rawProbeConfig \<Rightarrow> string \<Rightarrow> duration \<Rightarrow> duration \<Rightarrow> duration \<Rightarrow> go_int \<Rightarrow> ProbeConfig" where
  "merged_probe r sourceIP interval packetInterval timeout count =
     \<lparr>pc_Name = r_Name r, pc_Type = r_Type r, pc_Targets = r_Targets r,
      pc_MaxResolvedIPs = r_MaxResolvedIPs r, pc_SourceIP = sourceIP, pc_Interval = interval,
      pc_PacketInterval = packetInterval, pc_Timeout = timeout, pc_Count = count,
      pc_Labels = r_Labels r, pc_HTTP = None, pc_TCP = None, pc_UDP = None, pc_DNS = None\<rparr>"

definition mergeAndValidateProbe :: "cfg_env \<Rightarrow> rawProbeConfig \<Rightarrow> GlobalConfig \<Rightarrow> string + ProbeConfig" where
  "mergeAndValidateProbe env r g =
     (let ctx = ''probe '' @ Quote (r_Name r) @ '': '' in
      if r_Type r = [] then Inl (ctx @ ''type is required'')
      else if r_Type r \<notin> set knownProbeTypes
      then Inl (ctx @ ''unknown type '' @ Quote (r_Type r) @ '' (supported: '' @ join_with '', '' knownProbeTypes @ '')'')
      else res_bind (prefix_err ctx (validateTargets env r)) (\<lambda>_.
      if r_MaxResolvedIPs r < 0 then Inl (ctx @ ''max_resolved_ips must be >= 0'')
      else res_bind (prefix_err ctx (resolveSourceIP env r g)) (\<lambda>sourceIP.
      let (interval, packetInterval, timeout, count) = mergeTimings r g in
      res_bind (if r_Type r \<noteq> ProbeTypeHTTP
                then prefix_err ctx (validateTimings interval packetInterval timeout count)
                else Inr ()) (\<lambda>_.
      res_bind (prefix_err ctx (validateLabels (r_Labels r))) (\<lambda>_.
      prefix_err ctx (validateProtocolConfig env r
        (merged_probe r sourceIP interval packetInterval timeout count)))))))"

text \<open>The loop over the probes of one file, from index \<open>i\<close>, with the names already seen.\<close>

fun mergeAndValidateProbes ::
  "cfg_env \<Rightarrow> nat \<Rightarrow> string list \<Rightarrow> rawProbeConfig list \<Rightarrow> GlobalConfig \<Rightarrow> string + ProbeConfig list" where
  "mergeAndValidateProbes env i seen [] g = Inr []"
| "mergeAndValidateProbes env i seen (r # raws) g =
     (if r_Name r = [] then Inl (''probe['' @ Itoa (int i) @ '']: name is required'')
      else if r_Name r \<in> set seen then Inl (''probe name '' @ Quote (r_Name r) @ '' is not unique'')
      else res_bind (mergeAndValidateProbe env r g) (\<lambda>pc.
           res_bind (mergeAndValidateProbes env (Suc i) (r_Name r # seen) raws g) (\<lambda>out. Inr (pc # out))))"

subsection \<open>What a validated probe satisfies\<close>

definition timings_ok :: "duration \<Rightarrow> duration \<Rightarrow> duration \<Rightarrow> go_int \<Rightarrow> bool" where
  "timings_ok interval packetInterval timeout count \<longleftrightarrow>
     Millisecond \<le> packetInterval \<and> 0 < count \<and> 0 < timeout \<and> timeout < interval \<and>
     wrap64 (packetInterval * count) < timeout"

lemma validateTimings_iff: "validateTimings i p t c = Inr u \<longleftrightarrow> timings_ok i p t c"
  by (auto simp: validateTimings_def timings_ok_def Let_def)

text \<open>Where the product does not overflow, all packets fit into the timeout, and the count is small.\<close>

lemma timings_no_overflow:
  assumes "timings_ok i p t c" and "int64_range (p * c)" and "int64_range t"
  shows "p * c < t" and "p * c < i" and "c \<le> 2 ^ 53"
proof -
  have t: "p * c < t" "t < i" "1000000 \<le> p" "0 < c"
    using assms(1,2) by (auto simp: timings_ok_def duration_consts)
  then show "p * c < t" "p * c < i" by simp_all
  have "1000000 * c \<le> p * c" using t by (intro mult_right_mono) auto
  moreover have "t < 9223372036854775808" using assms(3) by (simp add: int64_range_def)
  ultimately have "c \<le> 9007199254740992" using t by linarith
  then show "c \<le> 2 ^ 53" by simp
qed

definition labels_valid :: "labels \<Rightarrow> bool" where
  "labels_valid labels \<longleftrightarrow>
     list_all (\<lambda>(k, v). labelKeyRE k \<and> \<not> ContainsAny v [CHR 0x0A, CHR 0x0D, CHR 0x09])
       (case labels of None \<Rightarrow> [] | Some kvs \<Rightarrow> kvs)"

lemma validateLabels_iff: "validateLabels labels = Inr u \<longleftrightarrow> labels_valid labels"
  by (auto simp: validateLabels_def labels_valid_def list_all_iff split: if_splits)

definition http_valid :: "HTTPConfig \<Rightarrow> bool" where
  "http_valid h \<longleftrightarrow>
     http_Scheme h \<in> {''http'', ''https''} \<and> (http_Port h = 0 \<or> port_ok (http_Port h)) \<and> http_Path h \<noteq> [] \<and>
     http_Method h \<in> {''GET'', ''HEAD'', ''POST''} \<and>
     (http_ExpectedStatus h = 0 \<or> 100 \<le> http_ExpectedStatus h \<and> http_ExpectedStatus h \<le> 599) \<and>
     0 \<le> http_TLSExpiryWarningDays h"

definition tcp_valid :: "TCPConfig \<Rightarrow> bool" where
  "tcp_valid t \<longleftrightarrow> port_ok (tcp_Port t) \<and> tcp_Mode t \<in> {TCPModeConnect, TCPModeSYN}"

definition udp_valid :: "UDPConfig \<Rightarrow> bool" where
  "udp_valid u \<longleftrightarrow> port_ok (udp_Port u) \<and> (udp_ExpectedResponse u \<noteq> [] \<longrightarrow> udp_Payload u \<noteq> [])"

definition dns_valid :: "DNSConfig \<Rightarrow> bool" where
  "dns_valid d \<longleftrightarrow> dns_RecordType d \<in> set dnsRecordTypes"

lemma validateHTTPConfig_valid:
  assumes "validateHTTPConfig r = Inr h"
  shows "http_valid h"
proof -
  define s where "s = (if rh_Scheme r \<noteq> [] then ToLower (rh_Scheme r) else ''http'')"
  define m where "m = (if rh_Method r \<noteq> [] then ToUpper (rh_Method r) else ''GET'')"
  note g = assms [unfolded validateHTTPConfig_def Let_def if_Inl_Inr, folded s_def m_def]
  note port = g [THEN conjunct2, THEN conjunct1] and rest = g [THEN conjunct2, THEN conjunct2, THEN conjunct2]
  have "s = ''http'' \<or> s = ''https''"
    using g s_def by (cases "rh_Scheme r = []") simp_all
  moreover have "m = ''GET'' \<or> m = ''HEAD'' \<or> m = ''POST''"
    using g m_def by (cases "rh_Method r = []") simp_all
  moreover have "rh_Port r = 0 \<or> port_ok (rh_Port r)" using port by (auto simp: port_ok_def)
  moreover have "rh_ExpectedStatus r = 0 \<or> 100 \<le> rh_ExpectedStatus r \<and> rh_ExpectedStatus r \<le> 599"
    using rest [THEN conjunct1] by auto
  moreover have "0 \<le> rh_TLSExpiryWarningDays r" using rest [THEN conjunct2, THEN conjunct1] by simp
  moreover have "Inr \<lparr>http_Scheme = s, http_Port = rh_Port r,
      http_Path = (if rh_Path r \<noteq> [] then rh_Path r else ''/''), http_Method = m,
      http_ExpectedStatus = rh_ExpectedStatus r,
      http_FollowRedirects = (case rh_FollowRedirects r of None \<Rightarrow> True | Some b \<Rightarrow> b),
      http_TLSExpiryWarningDays = rh_TLSExpiryWarningDays r\<rparr> = (Inr h :: string + HTTPConfig)"
    by (rule rest [THEN conjunct2, THEN conjunct2])
  then have "http_Scheme h = s" "http_Method h = m" "http_Port h = rh_Port r" "http_Path h \<noteq> []"
    "http_ExpectedStatus h = rh_ExpectedStatus r" "http_TLSExpiryWarningDays h = rh_TLSExpiryWarningDays r"
    by (auto split: if_splits)
  ultimately show ?thesis by (simp add: http_valid_def)
qed

lemma validateTCPConfig_valid: "validateTCPConfig r = Inr t \<Longrightarrow> tcp_valid t"
  by (auto simp: validateTCPConfig_def tcp_valid_def port_ok_def Let_def split: if_splits)

lemma validateUDPConfig_valid: "validateUDPConfig r = Inr u \<Longrightarrow> udp_valid u"
  by (auto simp: validateUDPConfig_def udp_valid_def port_ok_def split: if_splits)

lemma validateDNSConfig_valid: "validateDNSConfig env r = Inr d \<Longrightarrow> dns_valid d"
  by (auto simp: validateDNSConfig_def dns_valid_def dnsRecordTypes_def Let_def split: if_splits option.splits)

text \<open>Exactly the block of the probe's type is present, and it is valid.\<close>

definition blocks_valid :: "ProbeConfig \<Rightarrow> bool" where
  "blocks_valid pc \<longleftrightarrow>
     (case pc_HTTP pc of None \<Rightarrow> pc_Type pc \<noteq> ProbeTypeHTTP | Some h \<Rightarrow> pc_Type pc = ProbeTypeHTTP \<and> http_valid h) \<and>
     (case pc_TCP pc of None \<Rightarrow> pc_Type pc \<noteq> ProbeTypeTCP | Some t \<Rightarrow> pc_Type pc = ProbeTypeTCP \<and> tcp_valid t) \<and>
     (case pc_UDP pc of None \<Rightarrow> pc_Type pc \<noteq> ProbeTypeUDP | Some u \<Rightarrow> pc_Type pc = ProbeTypeUDP \<and> udp_valid u) \<and>
     (case pc_DNS pc of None \<Rightarrow> pc_Type pc \<noteq> ProbeTypeDNS | Some d \<Rightarrow> pc_Type pc = ProbeTypeDNS \<and> dns_valid d)"

definition probe_valid :: "ProbeConfig \<Rightarrow> bool" where
  "probe_valid pc \<longleftrightarrow>
     pc_Name pc \<noteq> [] \<and> pc_Type pc \<in> set knownProbeTypes \<and> pc_Targets pc \<noteq> [] \<and> 0 \<le> pc_MaxResolvedIPs pc \<and>
     (pc_SourceIP pc \<noteq> [] \<longrightarrow> ParseIP (pc_SourceIP pc) \<noteq> None) \<and>
     (pc_Type pc \<noteq> ProbeTypeHTTP \<longrightarrow>
        timings_ok (pc_Interval pc) (pc_PacketInterval pc) (pc_Timeout pc) (pc_Count pc)) \<and>
     labels_valid (pc_Labels pc) \<and> blocks_valid pc"

lemma validateProtocolConfig_blocks:
  assumes "validateProtocolConfig env r pc = Inr pc1" and "pc_Type pc = r_Type r"
    and "r_Type r \<in> set knownProbeTypes"
    and "pc_HTTP pc = None" "pc_TCP pc = None" "pc_UDP pc = None" "pc_DNS pc = None"
  shows "blocks_valid pc1"
proof -
  consider "r_Type r = ProbeTypeICMP" | "r_Type r = ProbeTypeHTTP" | "r_Type r = ProbeTypeTCP"
    | "r_Type r = ProbeTypeUDP" | "r_Type r = ProbeTypeDNS"
    using assms(3) by (auto simp: knownProbeTypes_def)
  then show ?thesis
    using assms
    by cases
      (auto simp: validateProtocolConfig_def blocks_valid_def split: option.splits
        dest: validateHTTPConfig_valid validateTCPConfig_valid validateUDPConfig_valid validateDNSConfig_valid)
qed

lemma validateProtocolConfig_frame:
  assumes "validateProtocolConfig env r pc = Inr pc1"
  shows "pc_Name pc1 = pc_Name pc" "pc_Type pc1 = pc_Type pc" "pc_Targets pc1 = pc_Targets pc"
    "pc_MaxResolvedIPs pc1 = pc_MaxResolvedIPs pc" "pc_SourceIP pc1 = pc_SourceIP pc"
    "pc_Interval pc1 = pc_Interval pc" "pc_PacketInterval pc1 = pc_PacketInterval pc"
    "pc_Timeout pc1 = pc_Timeout pc" "pc_Count pc1 = pc_Count pc" "pc_Labels pc1 = pc_Labels pc"
  using assms by (auto simp: validateProtocolConfig_def split: if_splits option.splits)

lemma resolveSourceIP_valid:
  "resolveSourceIP env r g = Inr s \<Longrightarrow> s \<noteq> [] \<Longrightarrow> ParseIP s \<noteq> None \<and> isLocalIP env s = Inr True"
  by (auto simp: resolveSourceIP_def Let_def split: if_splits sum.splits)

lemma mergeAndValidateProbe_Inr:
  "mergeAndValidateProbe env r g = Inr pc \<longleftrightarrow>
     r_Type r \<noteq> [] \<and> r_Type r \<in> set knownProbeTypes \<and> validateTargets env r = Inr () \<and> 0 \<le> r_MaxResolvedIPs r \<and>
     (\<exists>s. resolveSourceIP env r g = Inr s \<and>
        (case mergeTimings r g of (i, p, t, c) \<Rightarrow>
           (r_Type r \<noteq> ProbeTypeHTTP \<longrightarrow> timings_ok i p t c) \<and> labels_valid (r_Labels r) \<and>
           validateProtocolConfig env r (merged_probe r s i p t c) = Inr pc))"
proof -
  have if_ok: "(if b then x else Inr ()) = Inr u \<longleftrightarrow> (b \<longrightarrow> x = Inr ())" for b and x :: "string + unit" and u
    by simp
  obtain i p t c where mt: "mergeTimings r g = (i, p, t, c)" by (metis prod_cases4)
  show ?thesis
    unfolding mergeAndValidateProbe_def Let_def if_Inl_Inr res_bind_Inr prefix_err_Inr mt prod.case if_ok
      validateTimings_iff validateLabels_iff
    by (auto simp: not_less)
qed

lemma mergeAndValidateProbe_valid:
  assumes "mergeAndValidateProbe env r g = Inr pc" and "r_Name r \<noteq> []"
  shows "probe_valid pc" and "pc_Name pc = r_Name r" and "pc_Targets pc = r_Targets r"
    and "(pc_Interval pc, pc_PacketInterval pc, pc_Timeout pc, pc_Count pc) = mergeTimings r g"
    and "resolveSourceIP env r g = Inr (pc_SourceIP pc)" and "pc_Type pc = r_Type r"
    and "pc_MaxResolvedIPs pc = r_MaxResolvedIPs r" and "pc_Labels pc = r_Labels r"
proof -
  obtain i p t c where mt: "mergeTimings r g = (i, p, t, c)" by (metis prod_cases4)
  obtain s where ty: "r_Type r \<in> set knownProbeTypes" "0 \<le> r_MaxResolvedIPs r"
    and tg: "validateTargets env r = Inr ()"
    and src: "resolveSourceIP env r g = Inr s"
    and tm: "r_Type r \<noteq> ProbeTypeHTTP \<longrightarrow> timings_ok i p t c"
    and lb: "labels_valid (r_Labels r)"
    and pr: "validateProtocolConfig env r (merged_probe r s i p t c) = Inr pc"
    using assms(1) by (auto simp: mergeAndValidateProbe_Inr mt)
  note fr = validateProtocolConfig_frame [OF pr]
  have "r_Targets r \<noteq> []" using tg by (auto simp: validateTargets_def)
  moreover have "blocks_valid pc" using validateProtocolConfig_blocks [OF pr] ty by (simp add: merged_probe_def)
  ultimately show "probe_valid pc"
    using fr ty tm lb assms(2) resolveSourceIP_valid [OF src] by (simp add: probe_valid_def merged_probe_def)
  show "pc_Name pc = r_Name r" "pc_Targets pc = r_Targets r"
    "(pc_Interval pc, pc_PacketInterval pc, pc_Timeout pc, pc_Count pc) = mergeTimings r g"
    "resolveSourceIP env r g = Inr (pc_SourceIP pc)" "pc_Type pc = r_Type r"
    "pc_MaxResolvedIPs pc = r_MaxResolvedIPs r" "pc_Labels pc = r_Labels r"
    using fr mt src by (simp_all add: merged_probe_def)
qed

lemma mergeAndValidateProbes_Cons:
  "mergeAndValidateProbes env i seen (r # raws) g = Inr pcs \<longleftrightarrow>
     r_Name r \<noteq> [] \<and> r_Name r \<notin> set seen \<and>
     (\<exists>pc out. mergeAndValidateProbe env r g = Inr pc \<and>
        mergeAndValidateProbes env (Suc i) (r_Name r # seen) raws g = Inr out \<and> pcs = pc # out)"
  by auto

lemma mergeAndValidateProbes_names:
  "mergeAndValidateProbes env i seen raws g = Inr pcs \<Longrightarrow> map pc_Name pcs = map r_Name raws"
proof (induction raws arbitrary: i seen pcs)
  case (Cons r raws)
  then show ?case
    by (auto simp: mergeAndValidateProbes_Cons mergeAndValidateProbe_valid(2) simp del: mergeAndValidateProbes.simps(2))
qed simp

lemma mergeAndValidateProbes_distinct:
  "mergeAndValidateProbes env i seen raws g = Inr pcs \<Longrightarrow>
     distinct (map r_Name raws) \<and> set (map r_Name raws) \<inter> set seen = {}"
proof (induction raws arbitrary: i seen pcs)
  case (Cons r raws)
  then obtain out where "r_Name r \<notin> set seen"
    "mergeAndValidateProbes env (Suc i) (r_Name r # seen) raws g = Inr out"
    by (auto simp: mergeAndValidateProbes_Cons simp del: mergeAndValidateProbes.simps(2))
  with Cons.IH [OF this(2)] show ?case by auto
qed simp

lemma mergeAndValidateProbes_valid:
  "mergeAndValidateProbes env i seen raws g = Inr pcs \<Longrightarrow> list_all probe_valid pcs"
proof (induction raws arbitrary: i seen pcs)
  case (Cons r raws)
  then show ?case
    by (auto simp: mergeAndValidateProbes_Cons mergeAndValidateProbe_valid(1) simp del: mergeAndValidateProbes.simps(2))
qed simp

subsection \<open>Properties\<close>

text \<open>
  C30. Where the product of packet interval and count fits into 64 bits, \<^verbatim>\<open>validateTimings\<close> accepts
  exactly the timings it documents: the packet interval is at least a millisecond, the count
  positive, all packets fit into the timeout and the timeout is shorter than the interval.
\<close>

theorem validateTimings_exact:
  assumes "int64_range (packetInterval * count)"
  shows "is_ok (validateTimings interval packetInterval timeout count) \<longleftrightarrow>
    Millisecond \<le> packetInterval \<and> 0 < count \<and> packetInterval * count < timeout \<and> timeout < interval"
proof -
  have "0 < timeout"
    if "Millisecond \<le> packetInterval" "0 < count" "packetInterval * count < timeout"
  proof -
    have "0 < packetInterval * count" using that by (intro mult_pos_pos) (simp_all add: duration_consts)
    with that show ?thesis by linarith
  qed
  then show ?thesis
    using assms by (auto simp: is_ok_iff validateTimings_iff timings_ok_def)
qed

theorem validateTimings_exact_witness:
  "is_ok (validateTimings 30000000000 1000000000 5000000000 3) \<and>
   \<not> is_ok (validateTimings 30000000000 1000000000 3000000000 3)"
  using validateTimings_exact [of 1000000000 3 30000000000 5000000000]
    validateTimings_exact [of 1000000000 3 30000000000 3000000000]
  by (simp add: int64_range_def duration_consts)

text \<open>
  The guard does not see an overflow of that product: four seconds between \<open>2 ^ 32\<close> packets,
  half a millennium of probing, pass the check against a timeout of thirty seconds.
\<close>

theorem validateTimings_overflow:
  "validateTimings (60 * Second) (2 ^ 32) (30 * Second) (2 ^ 32) = Inr () \<and>
   30 * Second < (2 ^ 32 :: int) * 2 ^ 32"
  by (simp add: validateTimings_iff timings_ok_def wrap64_def duration_consts)

text \<open>
  C5. A probe that validation accepts is the raw probe overlaid on the globals, field by field: each
  of the four timings and the source address is that of the probe where the probe sets it and that
  of the globals otherwise, and name, type, targets, cap and labels are those of the probe. And it
  satisfies everything the probers and the exporters rely on: a name, a known type, targets, a
  cap that is not negative, a source address that parses, the timings (for every type but
  HTTP), label keys and values the exporters can carry, and exactly the protocol block of its
  type with ports, methods, modes and record types in range.
\<close>

theorem mergeAndValidateProbe_sound:
  assumes "mergeAndValidateProbe env r g = Inr pc" and "r_Name r \<noteq> []"
  shows "probe_valid pc \<and> pc_Name pc = r_Name r \<and> pc_Type pc = r_Type r \<and> pc_Targets pc = r_Targets r \<and>
    pc_MaxResolvedIPs pc = r_MaxResolvedIPs r \<and> pc_Labels pc = r_Labels r \<and>
    pc_Interval pc = (case r_Interval r of Some d \<Rightarrow> d | None \<Rightarrow> g_Interval g) \<and>
    pc_PacketInterval pc = (case r_PacketInterval r of Some d \<Rightarrow> d | None \<Rightarrow> g_PacketInterval g) \<and>
    pc_Timeout pc = (case r_Timeout r of Some d \<Rightarrow> d | None \<Rightarrow> g_Timeout g) \<and>
    pc_Count pc = (case r_Count r of Some n \<Rightarrow> n | None \<Rightarrow> g_Count g) \<and>
    pc_SourceIP pc = (if r_SourceIP r \<noteq> [] then r_SourceIP r else g_SourceIP g)"
proof -
  note v = mergeAndValidateProbe_valid [OF assms]
  have "pc_SourceIP pc = (if r_SourceIP r \<noteq> [] then r_SourceIP r else g_SourceIP g)"
    using v(5) by (auto simp: resolveSourceIP_def Let_def split: if_splits sum.splits)
  with v show ?thesis by (simp add: mergeTimings_def)
qed

definition example_global :: GlobalConfig where
  "example_global = \<lparr>g_Interval = 30000000000, g_PacketInterval = 1000000000, g_Timeout = 5000000000,
     g_Count = 3, g_SourceIP = []\<rparr>"

definition example_raw :: rawProbeConfig where
  "example_raw = \<lparr>r_Name = ''web'', r_Type = ''tcp'', r_Targets = [''10.0.0.1''], r_MaxResolvedIPs = 0,
     r_SourceIP = [], r_Interval = None, r_PacketInterval = None, r_Timeout = None, r_Count = Some 2,
     r_Labels = Some [(''site'', ''berlin'')], r_HTTP = None,
     r_TCP = Some \<lparr>rtcp_Port = 443, rtcp_Mode = []\<rparr>, r_UDP = None, r_DNS = None\<rparr>"

definition example_cfg_env :: cfg_env where
  "example_cfg_env = \<lparr>ce_lookup = (\<lambda>_. Inl ''no such host''), ce_local_addrs = Inr [],
     ce_resolve_tcp = (\<lambda>_. None)\<rparr>"

definition example_probe :: ProbeConfig where
  "example_probe = (merged_probe example_raw [] 30000000000 1000000000 5000000000 2)
     \<lparr>pc_TCP := Some \<lparr>tcp_Port = 443, tcp_Mode = ''connect''\<rparr>\<rparr>"

lemma example_probe_accepted: "mergeAndValidateProbe example_cfg_env example_raw example_global = Inr example_probe"
  by code_simp

theorem mergeAndValidateProbe_sound_witness:
  "probe_valid example_probe \<and> pc_Name example_probe = ''web'' \<and> pc_Count example_probe = 2 \<and>
   pc_Timeout example_probe = 5000000000"
  using mergeAndValidateProbe_sound [OF example_probe_accepted] by (simp add: example_raw_def example_global_def)

definition example_http_raw :: rawProbeConfig where
  "example_http_raw = example_raw\<lparr>r_Type := ''http'', r_Interval := Some 0,
     r_HTTP := Some \<lparr>rh_Scheme = [], rh_Port = 0, rh_Path = [], rh_Method = [], rh_ExpectedStatus = 0,
       rh_FollowRedirects = None, rh_TLSExpiryWarningDays = 0\<rparr>\<rparr>"

text \<open>
  HTTP probes skip the timing checks altogether: one that asks to run every zero seconds, a
  period the scheduler's ticker refuses with a panic, is accepted.
\<close>

theorem http_interval_unchecked:
  "\<exists>pc. mergeAndValidateProbe example_cfg_env example_http_raw example_global = Inr pc \<and> pc_Interval pc = 0"
proof -
  have "(case mergeAndValidateProbe example_cfg_env example_http_raw example_global of
     Inl _ \<Rightarrow> False | Inr pc \<Rightarrow> pc_Interval pc = 0)" by code_simp
  then show ?thesis by (auto split: sum.splits)
qed

end
