(* ===== verification/Config_Load.thy ===== *)
theory Config_Load
  imports Config_Validate
begin

text \<open>
  \<^verbatim>\<open>internal/config/config.go\<close>: reading of the probe directory, parsing of the two inputs, the merge of
  the probe files into one set, the fingerprint, and \<^verbatim>\<open>Load\<close>. The file system, the YAML decoder and
  SHA-256 are the record \<open>load_env\<close>. A dereference of a nil pointer, which ends the goroutine in a
  panic, is the error \<open>Nil_deref\<close>.
\<close>

datatype load_error = Load_err string | Nil_deref

record load_env = cfg_env +
  le_ReadFile :: "string \<Rightarrow> string + string"
  le_ReadDir :: "string \<Rightarrow> string + (string \<times> bool) list"
  le_Join :: "string \<Rightarrow> string \<Rightarrow> string"
  le_yaml_ops :: "string \<Rightarrow> rawOpsFile \<Rightarrow> string + rawOpsFile"
  le_yaml_probes :: "string \<Rightarrow> rawProbeFile \<Rightarrow> string + rawProbeFile"
  le_sha256 :: "string \<Rightarrow> string"

definition globalFileName :: string where
  "globalFileName = ''_global.yaml''"

subsection \<open>Reading the directory\<close>

text \<open>\<^verbatim>\<open>filepath.Ext\<close> of a file name: from its last dot on.\<close>

definition filepath_Ext :: "string \<Rightarrow> string" where
  "filepath_Ext name =
     (let e = rev (takeWhile (\<lambda>c. c \<noteq> CHR ''.'') (rev name))
      in if length e = length name then [] else CHR ''.'' # e)"

definition is_probe_file :: "string \<times> bool \<Rightarrow> bool" where
  "is_probe_file = (\<lambda>(name, is_dir).
     \<not> (is_dir \<or> HasPrefix name ''.'' \<or> filepath_Ext name \<noteq> ''.yaml''))"

fun read_entries ::
  "'a load_env_scheme \<Rightarrow> string \<Rightarrow> (string \<times> bool) list \<Rightarrow> string + probeSource list" where
  "read_entries env dir [] = Inr []"
| "read_entries env dir ((name, is_dir) # es) =
     (if \<not> is_probe_file (name, is_dir) then read_entries env dir es
      else case le_ReadFile env (le_Join env dir name) of
        Inl err \<Rightarrow> Inl (''reading probe config file '' @ le_Join env dir name @ '': '' @ err)
      | Inr data \<Rightarrow>
          res_bind (read_entries env dir es) (\<lambda>sources. Inr (\<lparr>ps_name = name, ps_data = data\<rparr> # sources)))"

definition readProbeDir :: "'a load_env_scheme \<Rightarrow> string \<Rightarrow> string + probeSource list" where
  "readProbeDir env dir =
     (case le_ReadDir env dir of
        Inl err \<Rightarrow> Inl (''reading probe config dir '' @ dir @ '': '' @ err)
      | Inr entries \<Rightarrow>
          res_bind (read_entries env dir entries) (\<lambda>sources.
            if sources = [] then Inl (''reading probe config dir '' @ dir @ '': no *.yaml files found'')
            else Inr sources))"

subsection \<open>Fingerprint\<close>

definition fingerprint_stream :: "probeSource list \<Rightarrow> string" where
  "fingerprint_stream sources =
     concat (map (\<lambda>s. ps_name s @ [CHR 0x00] @ ps_data s @ [CHR 0x00]) sources)"

definition hex_encode :: "string \<Rightarrow> string" where
  "hex_encode bs = concat (map (\<lambda>b. [hex_digit (byte_val b div 16), hex_digit (byte_val b mod 16)]) bs)"

definition fingerprint :: "'a load_env_scheme \<Rightarrow> probeSource list \<Rightarrow> string" where
  "fingerprint env sources = hex_encode (le_sha256 env (fingerprint_stream sources))"

subsection \<open>The ops file\<close>

definition opsDefaults :: rawOpsFile where
  "opsDefaults = \<lparr>
     of_Exporters = \<lparr>
       e_Stdout = \<lparr>so_Enabled = False, so_Format = ''json''\<rparr>,
       e_OTLP = \<lparr>o_Enabled = False, o_Endpoint = [], o_Protocol = ''grpc'', o_Insecure = False,
         o_TLS = \<lparr>tls_CertFile = [], tls_KeyFile = [], tls_CAFile = []\<rparr>,
         o_Batch = \<lparr>b_ExportInterval = 30 * Second, b_ExportTimeout = 10 * Second\<rparr>,
         o_Retry = \<lparr>rt_Enabled = True, rt_MaxElapsedTime = 300 * Second\<rparr>,
         o_ShutdownTimeout = 10 * Second\<rparr>\<rparr>,
     of_Server = \<lparr>sv_Listen = ''127.0.0.1:8080''\<rparr>,
     of_Pipeline = \<lparr>p_BufferSize = 1000\<rparr>\<rparr>"

definition parseOpsFile :: "'a load_env_scheme \<Rightarrow> string \<Rightarrow> string + rawOpsFile" where
  "parseOpsFile env data =
     (case le_yaml_ops env data opsDefaults of
        Inl err \<Rightarrow> Inl (''parsing ops config YAML: '' @ err)
      | Inr raw \<Rightarrow>
          let fmt = so_Format (e_Stdout (of_Exporters raw)) in
          if fmt \<noteq> ''json'' \<and> fmt \<noteq> ''text''
          then Inl (''exporters.stdout.format must be '' @ Quote ''json'' @ '' or '' @ Quote ''text'' @ '', got '' @ Quote fmt)
          else res_bind (validateOTLP (e_OTLP (of_Exporters raw))) (\<lambda>_.
            if p_BufferSize (of_Pipeline raw) \<le> 0 then Inl ''pipeline.buffer_size must be positive''
            else Inr raw))"

subsection \<open>The probe files\<close>

definition globalDefaults :: GlobalConfig where
  "globalDefaults = \<lparr>g_Interval = 30 * Second, g_PacketInterval = 1 * Second, g_Timeout = 5 * Second,
     g_Count = 3, g_SourceIP = []\<rparr>"

text \<open>The first loop: decode every file, take the globals from the reserved one, keep the probes.\<close>

fun collect_fragments :: "'a load_env_scheme \<Rightarrow> GlobalConfig \<Rightarrow> probeSource list
    \<Rightarrow> load_error + GlobalConfig \<times> (string \<times> rawProbeConfig list) list" where
  "collect_fragments env g [] = Inr (g, [])"
| "collect_fragments env g (s # sources) =
     (case le_yaml_probes env (ps_data s)
             \<lparr>rf_Global = (if ps_name s = globalFileName then Some g else None), rf_Probes = None\<rparr> of
        Inl err \<Rightarrow> Inl (Load_err (''parsing probe config YAML in '' @ ps_name s @ '': '' @ err))
      | Inr raw \<Rightarrow>
          if ps_name s = globalFileName then
            if rf_Probes raw \<noteq> None then Inl (Load_err (ps_name s @ '' must not contain a probes: key''))
            else (case rf_Global raw of
                    None \<Rightarrow> Inl Nil_deref
                  | Some g1 \<Rightarrow> collect_fragments env g1 sources)
          else if rf_Global raw \<noteq> None
          then Inl (Load_err (ps_name s @ '': global: is only allowed in '' @ globalFileName))
          else res_bind (collect_fragments env g sources) (\<lambda>(g1, frags).
                 Inr (g1, (ps_name s, case rf_Probes raw of None \<Rightarrow> [] | Some ps \<Rightarrow> ps) # frags)))"

text \<open>The inner loop over the names of one file: the first name that another file defines is an error.\<close>

fun record_origins :: "string \<Rightarrow> ProbeConfig list \<Rightarrow> (string \<rightharpoonup> string) \<Rightarrow> string + (string \<rightharpoonup> string)" where
  "record_origins file [] origin = Inr origin"
| "record_origins file (pc # pcs) origin =
     (case origin (pc_Name pc) of
        Some prev \<Rightarrow> Inl (''probe name '' @ Quote (pc_Name pc) @ '' defined in both '' @ prev @ '' and '' @ file)
      | None \<Rightarrow> record_origins file pcs (origin(pc_Name pc \<mapsto> file)))"

fun merge_fragments :: "'a load_env_scheme \<Rightarrow> GlobalConfig \<Rightarrow> (string \<rightharpoonup> string)
    \<Rightarrow> (string \<times> rawProbeConfig list) list \<Rightarrow> string + ProbeConfig list" where
  "merge_fragments env g origin [] = Inr []"
| "merge_fragments env g origin ((file, raws) # frags) =
     res_bind (prefix_err (file @ '': '') (mergeAndValidateProbes (cfg_env.truncate env) 0 [] raws g)) (\<lambda>pcs.
     res_bind (record_origins file pcs origin) (\<lambda>origin1.
     res_bind (merge_fragments env g origin1 frags) (\<lambda>rest. Inr (pcs @ rest))))"

definition lift_err :: "string + 'a \<Rightarrow> load_error + 'a" where
  "lift_err r = (case r of Inl e \<Rightarrow> Inl (Load_err e) | Inr x \<Rightarrow> Inr x)"

definition parseProbeSources ::
  "'a load_env_scheme \<Rightarrow> probeSource list \<Rightarrow> load_error + GlobalConfig \<times> ProbeConfig list" where
  "parseProbeSources env sources =
     res_bind (collect_fragments env globalDefaults sources) (\<lambda>(g, frags).
     res_bind (lift_err (validateGlobal g)) (\<lambda>_.
     res_bind (lift_err (merge_fragments env g Map.empty frags)) (\<lambda>probes. Inr (g, probes))))"

definition parseSources :: "'a load_env_scheme \<Rightarrow> string \<Rightarrow> probeSource list \<Rightarrow> load_error + Config" where
  "parseSources env opsData sources =
     res_bind (lift_err (parseOpsFile env opsData)) (\<lambda>ops.
     res_bind (parseProbeSources env sources) (\<lambda>(g, probes).
     Inr \<lparr>c_Global = g, c_Exporters = of_Exporters ops, c_Server = of_Server ops,
          c_Pipeline = of_Pipeline ops, c_Probes = probes, c_SHA256 = fingerprint env sources\<rparr>))"

definition Load :: "'a load_env_scheme \<Rightarrow> string \<Rightarrow> string \<Rightarrow> load_error + Config" where
  "Load env opsPath probesDir =
     (case le_ReadFile env opsPath of
        Inl err \<Rightarrow> Inl (Load_err (''reading ops config: '' @ err))
      | Inr opsData \<Rightarrow>
          res_bind (lift_err (readProbeDir env probesDir)) (\<lambda>sources. parseSources env opsData sources))"

subsection \<open>Lemmas\<close>

lemma lift_err_Inr [simp]: "lift_err r = Inr y \<longleftrightarrow> r = Inr y"
  by (cases r) (auto simp: lift_err_def)

lemma filepath_Ext_yaml: "filepath_Ext name = ''.yaml'' \<longleftrightarrow> HasSuffix name ''.yaml''"
proof
  assume a: "filepath_Ext name = ''.yaml''"
  let ?t = "takeWhile (\<lambda>c. c \<noteq> CHR ''.'') (rev name)"
  have t: "rev ?t = ''yaml''" "length ?t \<noteq> length (rev name)"
    using a by (auto simp: filepath_Ext_def Let_def split: if_splits)
  then have "dropWhile (\<lambda>c. c \<noteq> CHR ''.'') (rev name) \<noteq> []"
    by (metis append_Nil2 takeWhile_dropWhile_id)
  moreover from this obtain c d where cd: "dropWhile (\<lambda>c. c \<noteq> CHR ''.'') (rev name) = c # d"
    by (meson list.exhaust)
  ultimately have "c = CHR ''.''" using hd_dropWhile [of "\<lambda>c. c \<noteq> CHR ''.''" "rev name"] by simp
  moreover have "?t = rev ''yaml''" using t(1) by (simp only: rev_swap rev_rev_ident)
  ultimately have "rev name = rev ''yaml'' @ CHR ''.'' # d"
    using takeWhile_dropWhile_id [of "\<lambda>c. c \<noteq> CHR ''.''" "rev name"] by (simp only: cd)
  then have "name = rev d @ ''.yaml''" by (simp add: rev_swap)
  then show "HasSuffix name ''.yaml''" by (simp add: HasSuffix_def)
next
  assume "HasSuffix name ''.yaml''"
  then obtain p where "name = p @ ''.yaml''"
    unfolding HasSuffix_def by (metis append_take_drop_id)
  then show "filepath_Ext name = ''.yaml''" by (simp add: filepath_Ext_def Let_def)
qed

text \<open>The sources are the probe files of the listing, in its order, with their content.\<close>

lemma read_entries_sources:
  "read_entries env dir es = Inr sources \<Longrightarrow>
     map ps_name sources = map fst (filter is_probe_file es) \<and>
     list_all (\<lambda>s. le_ReadFile env (le_Join env dir (ps_name s)) = Inr (ps_data s)) sources"
  by (induction es arbitrary: sources) (auto split: if_splits sum.splits)

text \<open>Without NUL bytes in names and contents the hashed stream determines the sources.\<close>

lemma nul_split:
  "CHR 0x00 \<notin> set xs \<Longrightarrow> CHR 0x00 \<notin> set ys \<Longrightarrow> xs @ CHR 0x00 # r = ys @ CHR 0x00 # s \<Longrightarrow> xs = ys \<and> r = s"
  by (induction xs arbitrary: ys) (case_tac [!] ys, auto)

definition nul_free :: "probeSource \<Rightarrow> bool" where
  "nul_free s \<longleftrightarrow> CHR 0x00 \<notin> set (ps_name s) \<and> CHR 0x00 \<notin> set (ps_data s)"

lemma fingerprint_stream_inj:
  assumes "list_all nul_free a" and "list_all nul_free b" and "fingerprint_stream a = fingerprint_stream b"
  shows "a = b"
  using assms
proof (induction a arbitrary: b)
  case Nil
  then show ?case by (cases b) (simp_all add: fingerprint_stream_def)
next
  case (Cons s a)
  then obtain t b1 where b: "b = t # b1" by (cases b) (simp_all add: fingerprint_stream_def)
  have e: "ps_name s @ CHR 0x00 # (ps_data s @ CHR 0x00 # fingerprint_stream a) =
    ps_name t @ CHR 0x00 # (ps_data t @ CHR 0x00 # fingerprint_stream b1)"
    using Cons.prems(3) by (simp add: b fingerprint_stream_def)
  have f: "CHR 0x00 \<notin> set (ps_name s)" "CHR 0x00 \<notin> set (ps_data s)" "CHR 0x00 \<notin> set (ps_name t)"
    "CHR 0x00 \<notin> set (ps_data t)" using Cons.prems by (auto simp: b nul_free_def)
  note n = nul_split [OF f(1,3) e]
  note d = nul_split [OF f(2,4) n [THEN conjunct2]]
  with n Cons.IH [of b1] Cons.prems show ?case by (simp add: b)
qed

lemma record_origins_iff:
  "record_origins fl pcs origin = Inr o1 \<longleftrightarrow>
     distinct (map pc_Name pcs) \<and> set (map pc_Name pcs) \<inter> dom origin = {} \<and>
     o1 = (\<lambda>n. if n \<in> set (map pc_Name pcs) then Some fl else origin n)"
proof (induction pcs arbitrary: origin)
  case (Cons pc pcs)
  let ?x = "pc_Name pc"
  show ?case
  proof (cases "origin ?x")
    case None
    have "(\<lambda>n. if n \<in> set (map pc_Name pcs) then Some fl else (origin(?x \<mapsto> fl)) n) =
      (\<lambda>n. if n \<in> set (map pc_Name (pc # pcs)) then Some fl else origin n)" by auto
    moreover have "distinct (map pc_Name pcs) \<and> set (map pc_Name pcs) \<inter> dom (origin(?x \<mapsto> fl)) = {} \<longleftrightarrow>
      distinct (map pc_Name (pc # pcs)) \<and> set (map pc_Name (pc # pcs)) \<inter> dom origin = {}"
      using None by (simp only: dom_fun_upd) auto
    ultimately show ?thesis
      using None by (simp only: record_origins.simps option.case Cons.IH) (simp only: conj_assoc [symmetric])
  next
    case (Some prev)
    then have "?x \<in> dom origin" by blast
    with Some show ?thesis by simp
  qed
qed auto

lemma merge_fragments_iff:
  "merge_fragments env g origin frags = Inr probes \<longleftrightarrow>
     (\<exists>pss. list_all2 (\<lambda>f pcs. mergeAndValidateProbes (cfg_env.truncate env) 0 [] (snd f) g = Inr pcs) frags pss \<and>
        probes = concat pss \<and> distinct (map pc_Name probes) \<and> set (map pc_Name probes) \<inter> dom origin = {})"
proof (induction frags arbitrary: origin probes)
  case (Cons f frags)
  obtain fl raws where f: "f = (fl, raws)" by fastforce
  let ?o = "\<lambda>pcs n. if n \<in> set (map pc_Name pcs) then Some fl else origin n"
  have dom: "dom (?o pcs) = set (map pc_Name pcs) \<union> dom origin" for pcs
    by (auto simp: dom_def)
  have names: "distinct (map pc_Name a) \<and> set (map pc_Name a) \<inter> dom origin = {} \<and> distinct (map pc_Name b) \<and>
      set (map pc_Name b) \<inter> (set (map pc_Name a) \<union> dom origin) = {} \<longleftrightarrow>
    distinct (map pc_Name (a @ b)) \<and> set (map pc_Name (a @ b)) \<inter> dom origin = {}" for a b
    unfolding map_append distinct_append set_append by blast
  let ?m = "\<lambda>raws. mergeAndValidateProbes (cfg_env.truncate env) 0 [] raws g"
  have "merge_fragments env g origin (f # frags) = Inr probes \<longleftrightarrow>
    (\<exists>pcs rest. ?m raws = Inr pcs \<and> distinct (map pc_Name pcs) \<and> set (map pc_Name pcs) \<inter> dom origin = {} \<and>
       merge_fragments env g (?o pcs) frags = Inr rest \<and> probes = pcs @ rest)"
    by (simp only: f merge_fragments.simps res_bind_Inr prefix_err_Inr record_origins_iff) blast
  also have "\<dots> \<longleftrightarrow> (\<exists>pcs pss. ?m raws = Inr pcs \<and> list_all2 (\<lambda>f pcs. ?m (snd f) = Inr pcs) frags pss \<and>
      probes = pcs @ concat pss \<and> distinct (map pc_Name probes) \<and> set (map pc_Name probes) \<inter> dom origin = {})"
    (is "?L = ?R")
  proof -
    have "?L \<longleftrightarrow> (\<exists>pcs pss. ?m raws = Inr pcs \<and> list_all2 (\<lambda>f pcs. ?m (snd f) = Inr pcs) frags pss \<and>
      probes = pcs @ concat pss \<and>
      (distinct (map pc_Name pcs) \<and> set (map pc_Name pcs) \<inter> dom origin = {} \<and> distinct (map pc_Name (concat pss)) \<and>
       set (map pc_Name (concat pss)) \<inter> (set (map pc_Name pcs) \<union> dom origin) = {}))"
      unfolding Cons.IH dom by blast
    moreover have "probes = ps \<and> distinct (map pc_Name ps) \<and> set (map pc_Name ps) \<inter> dom origin = {} \<longleftrightarrow>
      probes = ps \<and> distinct (map pc_Name probes) \<and> set (map pc_Name probes) \<inter> dom origin = {}" for ps
      by auto
    ultimately show ?thesis by (simp only: names)
  qed
  also have "\<dots> \<longleftrightarrow> (\<exists>pss. list_all2 (\<lambda>f pcs. ?m (snd f) = Inr pcs) (f # frags) pss \<and>
      probes = concat pss \<and> distinct (map pc_Name probes) \<and> set (map pc_Name probes) \<inter> dom origin = {})"
    unfolding list_all2_Cons1 f snd_conv by (metis concat.simps(2))
  finally show ?case .
qed auto

lemma merge_fragments_valid:
  assumes "merge_fragments env g origin frags = Inr probes"
  shows "list_all probe_valid probes" "distinct (map pc_Name probes)"
    "map pc_Name probes = map r_Name (concat (map snd frags))"
proof -
  obtain pss where pss: "list_all2 (\<lambda>f pcs. mergeAndValidateProbes (cfg_env.truncate env) 0 [] (snd f) g = Inr pcs) frags pss"
    "probes = concat pss" "distinct (map pc_Name probes)"
    using assms by (auto simp: merge_fragments_iff)
  have "list_all probe_valid (concat pss) \<and> map pc_Name (concat pss) = map r_Name (concat (map snd frags))"
    using pss(1)
    by (induction rule: list_all2_induct)
      (auto dest: mergeAndValidateProbes_valid mergeAndValidateProbes_names)
  with pss show "list_all probe_valid probes" "distinct (map pc_Name probes)"
    "map pc_Name probes = map r_Name (concat (map snd frags))" by simp_all
qed

subsection \<open>What a loaded configuration satisfies\<close>

definition otlp_valid :: "OTLPExporterConfig \<Rightarrow> bool" where
  "otlp_valid oc \<longleftrightarrow> o_Enabled oc \<longrightarrow>
     o_Endpoint oc \<noteq> [] \<and> o_Protocol oc \<in> {''grpc'', ''http''} \<and>
     (tls_CertFile (o_TLS oc) = [] \<longleftrightarrow> tls_KeyFile (o_TLS oc) = []) \<and> 0 < o_ShutdownTimeout oc"

lemma validateOTLP_iff: "validateOTLP oc = Inr u \<longleftrightarrow> otlp_valid oc"
  by (auto simp: validateOTLP_def otlp_valid_def)

definition config_valid :: "Config \<Rightarrow> bool" where
  "config_valid c \<longleftrightarrow>
     (let g = c_Global c in timings_ok (g_Interval g) (g_PacketInterval g) (g_Timeout g) (g_Count g)) \<and>
     so_Format (e_Stdout (c_Exporters c)) \<in> {''json'', ''text''} \<and>
     otlp_valid (e_OTLP (c_Exporters c)) \<and> 0 < p_BufferSize (c_Pipeline c) \<and>
     list_all probe_valid (c_Probes c) \<and> distinct (map pc_Name (c_Probes c))"

lemma parseOpsFile_valid:
  assumes "parseOpsFile env data = Inr raw"
  shows "so_Format (e_Stdout (of_Exporters raw)) \<in> {''json'', ''text''}"
    "otlp_valid (e_OTLP (of_Exporters raw))" "0 < p_BufferSize (of_Pipeline raw)"
  using assms by (auto simp: parseOpsFile_def Let_def validateOTLP_iff split: sum.splits)

lemma parseSources_valid: "parseSources env opsData sources = Inr c \<Longrightarrow> config_valid c"
  by (auto simp: parseSources_def parseProbeSources_def config_valid_def Let_def validateGlobal_def
      validateTimings_iff merge_fragments_valid(1) dest: parseOpsFile_valid merge_fragments_valid(2))

lemma Load_valid: "Load env opsPath probesDir = Inr c \<Longrightarrow> config_valid c"
  by (auto simp: Load_def parseSources_valid split: sum.splits)

subsection \<open>Properties\<close>

text \<open>
  C6. A configuration that \<^verbatim>\<open>Load\<close> returns is valid as a whole: the global timings, the stdout
  format, the OTLP settings, the buffer size, every probe, and no two probes with the same name.
\<close>

theorem Load_config_valid:
  assumes "Load env opsPath probesDir = Inr c"
  shows "config_valid c"
  using assms by (rule Load_valid)

definition example_load_env :: load_env where
  "example_load_env = cfg_env.extend example_cfg_env
     \<lparr>le_ReadFile = (\<lambda>_. Inr []),
      le_ReadDir = (\<lambda>_. Inr [(''README.md'', False), (''a.yaml'', False), (''old.yaml'', True)]),
      le_Join = (\<lambda>d n. d @ ''/'' @ n),
      le_yaml_ops = (\<lambda>_ raw. Inr raw),
      le_yaml_probes = (\<lambda>_ raw. Inr (raw\<lparr>rf_Probes := Some [example_raw]\<rparr>)),
      le_sha256 = (\<lambda>_. [])\<rparr>"

definition example_config :: Config where
  "example_config = \<lparr>c_Global = globalDefaults, c_Exporters = of_Exporters opsDefaults,
     c_Server = of_Server opsDefaults, c_Pipeline = of_Pipeline opsDefaults,
     c_Probes = [example_probe], c_SHA256 = []\<rparr>"

lemma example_load: "Load example_load_env ''ops.yaml'' ''probes.d'' = Inr example_config"
  by code_simp

theorem Load_config_valid_witness: "config_valid example_config"
  by (rule Load_config_valid [OF example_load])

text \<open>
  C19. The probe set is accepted exactly when the probes of every file validate on their own and no
  name is used twice, in one file or across files; it is then the concatenation of the files'
  probes in the order of the files, none dropped and none added.
\<close>

theorem merge_fragments_spec:
  "merge_fragments env g Map.empty frags = Inr probes \<longleftrightarrow>
     (\<exists>pss. list_all2 (\<lambda>f pcs. mergeAndValidateProbes (cfg_env.truncate env) 0 [] (snd f) g = Inr pcs) frags pss \<and>
        probes = concat pss \<and> distinct (map pc_Name probes))"
  by (simp add: merge_fragments_iff)

text \<open>
  From a directory listing the loader takes exactly the regular entries whose name does not
  start with a dot and ends in \<^verbatim>\<open>.yaml\<close>, in the order of the listing, each with its own content.
\<close>

theorem readProbeDir_selects:
  assumes "le_ReadDir env dir = Inr entries" and "readProbeDir env dir = Inr sources"
  shows "map ps_name sources =
      map fst (filter (\<lambda>(name, is_dir). \<not> is_dir \<and> \<not> HasPrefix name ''.'' \<and> HasSuffix name ''.yaml'') entries) \<and>
    list_all (\<lambda>s. le_ReadFile env (le_Join env dir (ps_name s)) = Inr (ps_data s)) sources \<and> sources \<noteq> []"
proof -
  have "is_probe_file = (\<lambda>(name, is_dir). \<not> is_dir \<and> \<not> HasPrefix name ''.'' \<and> HasSuffix name ''.yaml'')"
    by (auto simp: is_probe_file_def fun_eq_iff filepath_Ext_yaml)
  then show ?thesis
    using assms read_entries_sources [of env dir entries sources]
    by (auto simp: readProbeDir_def)
qed

theorem readProbeDir_selects_witness:
  "\<exists>s. readProbeDir example_load_env ''probes.d'' = Inr s \<and> map ps_name s = [''a.yaml'']"
proof -
  have r: "readProbeDir example_load_env ''probes.d'' = Inr [\<lparr>ps_name = ''a.yaml'', ps_data = []\<rparr>]"
    by code_simp
  have l: "le_ReadDir example_load_env ''probes.d'' =
    Inr [(''README.md'', False), (''a.yaml'', False), (''old.yaml'', True)]"
    by code_simp
  show ?thesis using readProbeDir_selects [OF l r] r by auto
qed

text \<open>
  C31. The byte stream that is hashed into the fingerprint determines the probe files: as long as
  names and contents hold no NUL byte, adding, removing, renaming, reordering or editing a file
  changes what is hashed.
\<close>

theorem fingerprint_covers_sources:
  assumes "list_all nul_free a" and "list_all nul_free b"
  shows "fingerprint_stream a = fingerprint_stream b \<longleftrightarrow> a = b"
  using fingerprint_stream_inj [OF assms] by blast

theorem fingerprint_covers_sources_witness:
  "fingerprint_stream [\<lparr>ps_name = ''ab.yaml'', ps_data = ''c''\<rparr>] \<noteq>
   fingerprint_stream [\<lparr>ps_name = ''a.yaml'', ps_data = ''bc''\<rparr>]"
  using fingerprint_covers_sources [of "[\<lparr>ps_name = ''ab.yaml'', ps_data = ''c''\<rparr>]"
      "[\<lparr>ps_name = ''a.yaml'', ps_data = ''bc''\<rparr>]"]
  by (simp add: nul_free_def)

text \<open>
  A reserved file whose \<^verbatim>\<open>global\<close> key decodes to a nil pointer (an empty value in YAML) is not
  reported as an error: the loader dereferences the pointer and panics.
\<close>

theorem global_null_panics:
  assumes "ps_name s = globalFileName"
    and "le_yaml_probes env (ps_data s) \<lparr>rf_Global = Some globalDefaults, rf_Probes = None\<rparr> =
      Inr \<lparr>rf_Global = None, rf_Probes = None\<rparr>"
  shows "parseProbeSources env (s # sources) = Inl Nil_deref"
  using assms by (simp add: parseProbeSources_def)

theorem global_null_panics_witness:
  "parseProbeSources (example_load_env\<lparr>le_yaml_probes := \<lambda>_ raw. Inr (raw\<lparr>rf_Global := None\<rparr>)\<rparr>)
     [\<lparr>ps_name = ''_global.yaml'', ps_data = ''global:''\<rparr>] = Inl Nil_deref"
  by (rule global_null_panics) (simp_all add: globalFileName_def)

end
