(* ===== verification/Channel.thy ===== *)
theory Channel
  imports Types "HOL-Library.Multiset"
begin

text \<open>
  The buffered results channel between the probe goroutines and the pipeline, and its interface.
  The locale \<open>buffered_channel\<close> states what both sides rely on: a non-blocking send appends or, on a
  full buffer, leaves the channel alone; a receive takes the oldest element. The lemmas about a
  whole batch of sends and about draining are proved in the locale and used through the
  interpretation on \<open>chan\<close>.
\<close>

subsection \<open>The interface\<close>

locale buffered_channel =
  fixes contents :: "'c \<Rightarrow> 'a list"
    and capacity :: "'c \<Rightarrow> nat"
    and is_open :: "'c \<Rightarrow> bool"
    and trysend :: "'a \<Rightarrow> 'c \<Rightarrow> 'c option"
    and recv :: "'c \<Rightarrow> ('a \<times> 'c) option"
  assumes trysend_None: "is_open c \<Longrightarrow> trysend x c = None \<longleftrightarrow> capacity c \<le> length (contents c)"
    and trysend_Some: "is_open c \<Longrightarrow> trysend x c = Some c1 \<Longrightarrow>
      contents c1 = contents c @ [x] \<and> capacity c1 = capacity c \<and> is_open c1"
    and recv_None: "recv c = None \<longleftrightarrow> contents c = []"
    and recv_Some: "recv c = Some (x, c1) \<Longrightarrow>
      contents c = x # contents c1 \<and> capacity c1 = capacity c \<and> is_open c1 = is_open c"
begin

text \<open>The sends of one run: what was accepted, in order, and what was dropped.\<close>

fun send_all :: "'a list \<Rightarrow> 'c \<Rightarrow> 'c \<times> 'a list \<times> 'a list" where
  "send_all [] c = (c, [], [])"
| "send_all (x # xs) c =
     (case trysend x c of
        Some c1 \<Rightarrow> let (c2, acc, dropped) = send_all xs c1 in (c2, x # acc, dropped)
      | None \<Rightarrow> let (c2, acc, dropped) = send_all xs c in (c2, acc, x # dropped))"

lemma send_all_spec:
  "is_open c \<Longrightarrow> send_all xs c = (c1, acc, dropped) \<Longrightarrow>
     contents c1 = contents c @ acc \<and> capacity c1 = capacity c \<and> is_open c1 \<and>
     acc = take (capacity c - length (contents c)) xs \<and>
     dropped = drop (capacity c - length (contents c)) xs"
proof (induction xs arbitrary: c c1 acc dropped)
  case (Cons x xs)
  show ?case
  proof (cases "trysend x c")
    case None
    then have full: "capacity c - length (contents c) = 0" using trysend_None Cons.prems(1) by simp
    obtain c2 a d where r: "send_all xs c = (c2, a, d)" by (metis prod_cases3)
    with Cons.IH [OF Cons.prems(1) r] None full Cons.prems show ?thesis by simp
  next
    case (Some c0)
    note s = trysend_Some [OF Cons.prems(1) Some]
    obtain c2 a d where r: "send_all xs c0 = (c2, a, d)" by (metis prod_cases3)
    have "length (contents c) < capacity c"
      using trysend_None [OF Cons.prems(1), of x] Some by (simp add: not_le [symmetric])
    then obtain k where k: "capacity c - length (contents c) = Suc k"
      by (metis Suc_diff_Suc)
    then have "capacity c0 - length (contents c0) = k" using s by simp
    with Cons.IH [OF _ r] s k Some r Cons.prems(2) show ?thesis by auto
  qed
qed simp

lemma send_all_conserves:
  "is_open c \<Longrightarrow> send_all xs c = (c1, acc, dropped) \<Longrightarrow> mset xs = mset acc + mset dropped"
  using send_all_spec [of c xs c1 acc dropped]
  by (metis append_take_drop_id mset_append)

lemma send_all_bounded:
  "is_open c \<Longrightarrow> length (contents c) \<le> capacity c \<Longrightarrow> send_all xs c = (c1, acc, dropped) \<Longrightarrow>
     length (contents c1) \<le> capacity c1"
  using send_all_spec [of c xs c1 acc dropped] by auto

end

subsection \<open>Go's buffered channel of results\<close>

record chan =
  ch_buf :: "ProbeResult list"
  ch_cap :: nat
  ch_closed :: bool

text \<open>
  The two branches of \<^verbatim>\<open>select { case ch <- x: default: }\<close> on an open channel, and a receive. A send
  on a closed channel panics; the callers test \<open>ch_closed\<close> first.
\<close>

definition make_chan :: "nat \<Rightarrow> chan" where
  "make_chan n = \<lparr>ch_buf = [], ch_cap = n, ch_closed = False\<rparr>"

definition chan_trysend :: "ProbeResult \<Rightarrow> chan \<Rightarrow> chan option" where
  "chan_trysend x c =
     (if length (ch_buf c) < ch_cap c then Some (c\<lparr>ch_buf := ch_buf c @ [x]\<rparr>) else None)"

definition chan_recv :: "chan \<Rightarrow> (ProbeResult \<times> chan) option" where
  "chan_recv c = (case ch_buf c of [] \<Rightarrow> None | x # xs \<Rightarrow> Some (x, c\<lparr>ch_buf := xs\<rparr>))"

definition chan_close :: "chan \<Rightarrow> chan" where
  "chan_close c = c\<lparr>ch_closed := True\<rparr>"

interpretation results: buffered_channel ch_buf ch_cap "\<lambda>c. \<not> ch_closed c" chan_trysend chan_recv
  by unfold_locales (auto simp: chan_trysend_def chan_recv_def split: if_splits list.splits)

end
