(* ===== verification/Scheduler.thy ===== *)
theory Scheduler
  imports Channel "HOL-Library.AList"
begin

text \<open>
  \<^verbatim>\<open>internal/scheduler/scheduler.go\<close>: the map of workers and the goroutines behind it. A goroutine has
  an identity of its own, its position in the list \<open>sc_procs\<close>: the map only refers to it, and a
  goroutine that the map has lost goes on running. \<^verbatim>\<open>Stop\<close> is split where it blocks: the part under
  the mutex with the cancellations, and the wait for the goroutines to exit.
\<close>

text \<open>
  Phases of a goroutine: before its ticker is made, waiting in the select, sending the results of a
  run, and after its channel \<^verbatim>\<open>done\<close> is closed.
\<close>

datatype phase = Ph_Start | Ph_Idle | Ph_Sending "ProbeResult list" | Ph_Exited

record 'p proc =
  p_cfg :: ProbeConfig
  p_prober :: 'p
  p_cancelled :: bool
  p_phase :: phase

record 'p sched =
  sc_workers :: "(string \<times> nat) list"
  sc_procs :: "'p proc list"

type_synonym 'p factory = "ProbeConfig \<Rightarrow> string + 'p"

definition sched_New :: "'p sched" where
  "sched_New = \<lparr>sc_workers = [], sc_procs = []\<rparr>"

text \<open>A factory error is logged and the probe is left out.\<close>

definition startLocked :: "'p factory \<Rightarrow> ProbeConfig \<Rightarrow> 'p sched \<Rightarrow> 'p sched" where
  "startLocked factory cfg s =
     (case factory cfg of
        Inl err \<Rightarrow> s
      | Inr p \<Rightarrow>
          s\<lparr>sc_workers := AList.update (pc_Name cfg) (length (sc_procs s)) (sc_workers s),
            sc_procs := sc_procs s @
              [\<lparr>p_cfg = cfg, p_prober = p, p_cancelled = False, p_phase = Ph_Start\<rparr>]\<rparr>)"

definition Start :: "'p factory \<Rightarrow> ProbeConfig list \<Rightarrow> 'p sched \<Rightarrow> 'p sched" where
  "Start factory cfgs s = fold (startLocked factory) cfgs s"

definition WorkerCount :: "'p sched \<Rightarrow> nat" where
  "WorkerCount s = length (sc_workers s)"

definition cancel_proc :: "nat \<Rightarrow> 'p proc list \<Rightarrow> 'p proc list" where
  "cancel_proc i ps = (if i < length ps then ps[i := (ps ! i)\<lparr>p_cancelled := True\<rparr>] else ps)"

text \<open>The first part of \<^verbatim>\<open>Stop\<close>: the workers it will wait for, and the state after the cancellations.\<close>

definition Stop_begin :: "'p sched \<Rightarrow> nat list \<times> 'p sched" where
  "Stop_begin s =
     (let ids = map snd (sc_workers s)
      in (ids, s\<lparr>sc_workers := [], sc_procs := fold cancel_proc ids (sc_procs s)\<rparr>))"

definition all_exited :: "nat list \<Rightarrow> 'p sched \<Rightarrow> bool" where
  "all_exited ids s = list_all (\<lambda>i. i < length (sc_procs s) \<and> p_phase (sc_procs s ! i) = Ph_Exited) ids"

text \<open>
  The whole of \<^verbatim>\<open>Stop\<close> and \<^verbatim>\<open>Reload\<close> as seen by the caller. While it waits the goroutines go on:
  \<open>later\<close> maps them to what has become of them. The call returns, and the first component is
  true, only when those it waits for have exited.
\<close>

definition Stop :: "('p proc list \<Rightarrow> 'p proc list) \<Rightarrow> 'p sched \<Rightarrow> bool \<times> 'p sched" where
  "Stop later s =
     (let (ids, s1) = Stop_begin s; s2 = s1\<lparr>sc_procs := later (sc_procs s1)\<rparr>
      in (all_exited ids s2, s2))"

definition Reload :: "('p proc list \<Rightarrow> 'p proc list) \<Rightarrow> 'p factory \<Rightarrow> ProbeConfig list \<Rightarrow> 'p sched
    \<Rightarrow> bool \<times> 'p sched" where
  "Reload later factory cfgs s =
     (let (returned, s1) = Stop later s in if returned then (True, Start factory cfgs s1) else (False, s1))"

subsection \<open>Lemmas\<close>

lemma startLocked_Inl [simp]: "factory cfg = Inl e \<Longrightarrow> startLocked factory cfg s = s"
  by (simp add: startLocked_def)

lemma Start_simps [simp]:
  "Start factory [] s = s"
  "Start factory (cfg # cfgs) s = Start factory cfgs (startLocked factory cfg s)"
  by (simp_all add: Start_def)

lemma update_fresh: "k \<notin> fst ` set al \<Longrightarrow> AList.update k v al = al @ [(k, v)]"
  by (induction al) auto

text \<open>The goroutines that \<^verbatim>\<open>Start\<close> launches, when no two configurations share a name.\<close>

definition launched :: "'p factory \<Rightarrow> ProbeConfig list \<Rightarrow> 'p proc list" where
  "launched factory cfgs =
     concat (map (\<lambda>cfg. case factory cfg of
       Inl _ \<Rightarrow> []
     | Inr p \<Rightarrow> [\<lparr>p_cfg = cfg, p_prober = p, p_cancelled = False, p_phase = Ph_Start\<rparr>]) cfgs)"

lemma Start_procs: "sc_procs (Start factory cfgs s) = sc_procs s @ launched factory cfgs"
proof (induction cfgs arbitrary: s)
  case (Cons cfg cfgs)
  then show ?case
    by (cases "factory cfg") (simp_all add: startLocked_def launched_def)
qed (simp add: launched_def)

lemma Start_workers:
  assumes "distinct (map pc_Name cfgs)" and "pc_Name ` set cfgs \<inter> fst ` set (sc_workers s) = {}"
  shows "map snd (sc_workers (Start factory cfgs s)) =
    map snd (sc_workers s) @ [length (sc_procs s)..<length (sc_procs (Start factory cfgs s))]"
  using assms
proof (induction cfgs arbitrary: s)
  case (Cons cfg cfgs)
  show ?case
  proof (cases "factory cfg")
    case (Inl e)
    with Cons show ?thesis by auto
  next
    case (Inr p)
    let ?s = "startLocked factory cfg s"
    have w: "sc_workers ?s = sc_workers s @ [(pc_Name cfg, length (sc_procs s))]"
      using Inr Cons.prems by (simp add: startLocked_def update_fresh)
    have l: "length (sc_procs ?s) = Suc (length (sc_procs s))" using Inr by (simp add: startLocked_def)
    have "map snd (sc_workers (Start factory cfgs ?s)) =
      map snd (sc_workers ?s) @ [length (sc_procs ?s)..<length (sc_procs (Start factory cfgs ?s))]"
      using Cons.prems w by (intro Cons.IH) auto
    moreover have "length (sc_procs s) < length (sc_procs (Start factory cfgs ?s))"
      by (simp add: Start_procs l)
    ultimately show ?thesis using w l by (simp add: upt_conv_Cons)
  qed
qed simp

lemma length_cancel [simp]: "length (fold cancel_proc ids ps) = length ps"
  by (induction ids arbitrary: ps) (simp_all add: cancel_proc_def)

lemma cancel_nth:
  "i < length ps \<Longrightarrow> fold cancel_proc ids ps ! i =
     (if i \<in> set ids then (ps ! i)\<lparr>p_cancelled := True\<rparr> else ps ! i)"
  by (induction ids arbitrary: ps) (auto simp: cancel_proc_def nth_list_update)

lemma cancel_frame:
  "i < length ps \<Longrightarrow> p_phase (fold cancel_proc ids ps ! i) = p_phase (ps ! i)"
  "i < length ps \<Longrightarrow> p_cfg (fold cancel_proc ids ps ! i) = p_cfg (ps ! i)"
  by (simp_all add: cancel_nth)

lemma Stop_begin_procs:
  assumes "Stop_begin s = (ids, s1)"
  shows "ids = map snd (sc_workers s)" "sc_workers s1 = []" "sc_procs s1 = fold cancel_proc ids (sc_procs s)"
  using assms by (auto simp: Stop_begin_def Let_def)

lemma Stop_state:
  assumes "Stop later s = (returned, s1)"
  shows "sc_workers s1 = []" and "returned \<longleftrightarrow> all_exited (map snd (sc_workers s)) s1"
  using assms by (auto simp: Stop_def Stop_begin_def Let_def)

text \<open>After a reload the map has the new set, and the goroutines of the old one have exited.\<close>

lemma Reload_names:
  assumes "distinct (map pc_Name cfgs)" and "\<forall>c \<in> set cfgs. is_ok (factory c)"
    and "Reload later factory cfgs s = (True, s1)"
  shows "map fst (sc_workers s1) = map pc_Name cfgs"
proof -
  have "map fst (sc_workers (Start factory cs t)) = map fst (sc_workers t) @ map pc_Name cs"
    if "distinct (map pc_Name cs)" "\<forall>c \<in> set cs. is_ok (factory c)"
      "pc_Name ` set cs \<inter> fst ` set (sc_workers t) = {}" for cs t
    using that
  proof (induction cs arbitrary: t)
    case (Cons c cs)
    then obtain p where p: "factory c = Inr p" by (auto simp: is_ok_iff)
    have w: "sc_workers (startLocked factory c t) = sc_workers t @ [(pc_Name c, length (sc_procs t))]"
      using p Cons.prems by (simp add: startLocked_def update_fresh)
    with Cons.prems Cons.IH [of "startLocked factory c t"] show ?case by auto
  qed simp
  moreover obtain t where t: "Stop later s = (True, t)" "s1 = Start factory cfgs t"
    using assms(3) by (auto simp: Reload_def split: prod.splits if_splits)
  ultimately show ?thesis using assms(1,2) Stop_state(1) [OF t(1)] by simp
qed

lemma Reload_exited:
  assumes "Reload later factory cfgs s = (True, s1)"
  shows "all_exited (map snd (sc_workers s)) s1"
proof -
  obtain t where t: "Stop later s = (True, t)" "s1 = Start factory cfgs t"
    using assms by (auto simp: Reload_def split: prod.splits if_splits)
  then have "all_exited (map snd (sc_workers s)) t" using Stop_state(2) by blast
  then show ?thesis by (auto simp: all_exited_def list_all_iff t(2) Start_procs nth_append)
qed

lemma Reload_blocked:
  assumes "Reload later factory cfgs s = (False, s1)"
  shows "sc_workers s1 = []" and "\<not> all_exited (map snd (sc_workers s)) s1"
proof -
  have "Stop later s = (False, s1)" using assms by (auto simp: Reload_def split: prod.splits if_splits)
  then show "sc_workers s1 = []" "\<not> all_exited (map snd (sc_workers s)) s1" using Stop_state by blast+
qed

subsection \<open>Properties\<close>

text \<open>
  Starting a set of configurations with distinct names on an idle scheduler launches one
  goroutine per probe that the factory accepts, and the map refers to every one of them;
  stopping then cancels them all and empties the map.
\<close>

theorem Start_Stop_covers:
  assumes "distinct (map pc_Name cfgs)" and "sc_workers s = []"
  shows "WorkerCount (Start factory cfgs s) = length (filter (\<lambda>c. is_ok (factory c)) cfgs) \<and>
    (case Stop_begin (Start factory cfgs s) of (ids, s1) \<Rightarrow>
       ids = [length (sc_procs s)..<length (sc_procs s1)] \<and> WorkerCount s1 = 0 \<and>
       list_all (\<lambda>i. p_cancelled (sc_procs s1 ! i)) ids)"
proof -
  have w: "map snd (sc_workers (Start factory cfgs s)) =
    [length (sc_procs s)..<length (sc_procs (Start factory cfgs s))]"
    using Start_workers [OF assms(1), of s factory] assms(2) by simp
  have "length (launched factory cfgs) = length (filter (\<lambda>c. is_ok (factory c)) cfgs)"
    by (induction cfgs) (auto simp: launched_def split: sum.splits)
  then have "WorkerCount (Start factory cfgs s) = length (filter (\<lambda>c. is_ok (factory c)) cfgs)"
    using arg_cong [OF w, of length] by (simp add: WorkerCount_def Start_procs)
  with w show ?thesis
    by (auto simp: Stop_begin_def Let_def WorkerCount_def list_all_iff cancel_nth)
qed

theorem Start_Stop_covers_witness:
  "WorkerCount (Start (\<lambda>c. if pc_Type c = ''icmp'' then Inr () else Inl ''unknown'')
     [zero_cfg\<lparr>pc_Name := ''a'', pc_Type := ''icmp''\<rparr>, zero_cfg\<lparr>pc_Name := ''b'', pc_Type := ''x''\<rparr>] sched_New) = 1"
  using Start_Stop_covers [of "[zero_cfg\<lparr>pc_Name := ''a'', pc_Type := ''icmp''\<rparr>, zero_cfg\<lparr>pc_Name := ''b'', pc_Type := ''x''\<rparr>]"
      sched_New "\<lambda>c. if pc_Type c = ''icmp'' then Inr () else Inl ''unknown''"]
  by (simp add: sched_New_def zero_cfg_def)

end
