(* ===== verification/Pipeline.thy ===== *)
theory Pipeline
  imports Channel
begin

text \<open>
  \<^verbatim>\<open>internal/pipeline/pipeline.go\<close>: the dispatch of a result to all exporters, the draining of the
  channel at shutdown, and the buffer usage. The exporters act on a world of type \<open>'w\<close> (their sinks,
  the log, the counters); \<^verbatim>\<open>Run\<close> interleaves with the probe goroutines and is part of the step
  relation of the daemon.
\<close>

record 'w exporter =
  ex_Name :: string
  ex_Export :: "ProbeResult \<Rightarrow> 'w \<Rightarrow> 'w \<times> string option"

record 'w pipeline =
  pl_exporters :: "'w exporter list"
  pl_logError :: "string \<Rightarrow> string \<Rightarrow> 'w \<Rightarrow> 'w"
  pl_onExportError :: "(string \<Rightarrow> 'w \<Rightarrow> 'w) option"

definition export_one :: "'w pipeline \<Rightarrow> ProbeResult \<Rightarrow> 'w exporter \<Rightarrow> 'w \<Rightarrow> 'w" where
  "export_one p result ex w =
     (let (w1, err) = ex_Export ex result w
      in case err of
           None \<Rightarrow> w1
         | Some e \<Rightarrow>
             let w2 = pl_logError p (ex_Name ex) e w1
             in case pl_onExportError p of None \<Rightarrow> w2 | Some f \<Rightarrow> f (ex_Name ex) w2)"

definition dispatch :: "'w pipeline \<Rightarrow> ProbeResult \<Rightarrow> 'w \<Rightarrow> 'w" where
  "dispatch p result w = fold (export_one p result) (pl_exporters p) w"

text \<open>The drain loop after the context is done, and the close of the channel.\<close>

function drain :: "'w pipeline \<Rightarrow> chan \<Rightarrow> 'w \<Rightarrow> chan \<times> 'w" where
  "drain p c w =
     (case chan_recv c of
        Some (result, c1) \<Rightarrow> drain p c1 (dispatch p result w)
      | None \<Rightarrow> (chan_close c, w))"
  by pat_completeness auto
termination
  by (relation "measure (\<lambda>(p, c, w). length (ch_buf c))") (auto dest: results.recv_Some)

declare drain.simps [simp del]

text \<open>
  The drain hands every buffered result to the exporters in the order in which they were sent,
  leaves the buffer empty and closes the channel.
\<close>

lemma drain_spec: "drain p c w = (c\<lparr>ch_buf := [], ch_closed := True\<rparr>, fold (dispatch p) (ch_buf c) w)"
proof (induction p c w rule: drain.induct)
  case (1 p c w)
  show ?case
  proof (cases "ch_buf c")
    case Nil
    then have "chan_recv c = None" by (simp add: chan_recv_def)
    with Nil show ?thesis by (simp add: drain.simps [of p c w] chan_close_def)
  next
    case (Cons x xs)
    then have "chan_recv c = Some (x, c\<lparr>ch_buf := xs\<rparr>)" by (simp add: chan_recv_def)
    with 1 [OF this refl] Cons show ?thesis by (simp add: drain.simps [of p c w])
  qed
qed

definition BufferUsage :: "chan \<Rightarrow> float64" where
  "BufferUsage c = f_div (f_of_int (int (length (ch_buf c)))) (f_of_int (int (ch_cap c)))"

text \<open>The usage is the rounded quotient, between 0 and 1.\<close>

lemma BufferUsage_Fin:
  assumes "length (ch_buf c) \<le> ch_cap c" and "0 < ch_cap c" and "ch_cap c \<le> 2 ^ 53"
  shows "BufferUsage c = Fin (rnd (of_nat (length (ch_buf c)) / of_nat (ch_cap c)))"
    and "0 \<le> rnd (of_nat (length (ch_buf c)) / of_nat (ch_cap c))"
    and "rnd (of_nat (length (ch_buf c)) / of_nat (ch_cap c)) \<le> 1"
proof -
  let ?q = "of_nat (length (ch_buf c)) / of_nat (ch_cap c) :: rat"
  have q: "0 \<le> ?q" "?q \<le> 1" using assms by (simp_all add: divide_le_eq)
  have b: "int (ch_cap c) \<le> 2 ^ 53"
    using assms(3) of_nat_le_iff [of "ch_cap c" "2 ^ 53", where ?'a = int] by simp
  then have "int (length (ch_buf c)) \<le> 2 ^ 53" using assms(1) by linarith
  then have "f_of_int (int (length (ch_buf c))) = Fin (of_nat (length (ch_buf c)))"
    "f_of_int (int (ch_cap c)) = Fin (of_nat (ch_cap c))"
    using b f_of_int_exact [of "int (length (ch_buf c))"] f_of_int_exact [of "int (ch_cap c)"] by simp_all
  then show "BufferUsage c = Fin (rnd ?q)"
    using assms(2) f64_unit [OF q] by (simp add: BufferUsage_def)
  show "0 \<le> rnd ?q" "rnd ?q \<le> 1" using r64.nonneg [OF q(1)] rnd_mono [OF q(2)] by simp_all
qed

subsection \<open>Properties\<close>

definition tracing_exporter :: "string \<Rightarrow> bool \<Rightarrow> (string \<times> ProbeResult option) list exporter" where
  "tracing_exporter n fails =
     \<lparr>ex_Name = n, ex_Export = (\<lambda>r w. (w @ [(n, Some r)], if fails then Some ''failed'' else None))\<rparr>"

definition tracing_pipeline :: "(string \<times> bool) list \<Rightarrow> (string \<times> ProbeResult option) list pipeline" where
  "tracing_pipeline es =
     \<lparr>pl_exporters = map (\<lambda>(n, fails). tracing_exporter n fails) es,
      pl_logError = (\<lambda>n e w. w), pl_onExportError = Some (\<lambda>n w. w @ [(n, None)])\<rparr>"

text \<open>
  C32. A failing exporter does not keep a result from the others: whatever the exporters append to a
  log they share, dispatching runs every one of them exactly once, in order, whatever the earlier
  ones returned; each error is counted under the exporter's name right after it.
\<close>

theorem dispatch_reaches_all:
  assumes "\<And>ex v. ex \<in> set (pl_exporters p) \<Longrightarrow> journal (fst (ex_Export ex r v)) = journal v @ [(ex_Name ex, Some r)]"
    and "\<And>ex v. ex \<in> set (pl_exporters p) \<Longrightarrow> snd (ex_Export ex r v) = fails ex"
    and "\<And>n e v. journal (pl_logError p n e v) = journal v"
    and "pl_onExportError p = Some f" and "\<And>n v. journal (f n v) = journal v @ [(n, None)]"
  shows "journal (dispatch p r w) = journal w @ concat (map (\<lambda>ex.
    (ex_Name ex, Some r) # (if fails ex = None then [] else [(ex_Name ex, None)])) (pl_exporters p))"
proof -
  have one: "journal (export_one p r ex v) =
      journal v @ (ex_Name ex, Some r) # (if fails ex = None then [] else [(ex_Name ex, None)])"
    if ex: "ex \<in> set (pl_exporters p)" for ex v
  proof -
    obtain u where "ex_Export ex r v = (u, fails ex)" "journal u = journal v @ [(ex_Name ex, Some r)]"
      using assms(1) [OF ex, of v] assms(2) [OF ex, of v] by (metis prod.collapse)
    then show ?thesis
      by (cases "fails ex") (simp_all add: export_one_def assms(3,4,5))
  qed
  have "journal (fold (export_one p r) exs v) = journal v @ concat (map (\<lambda>ex.
      (ex_Name ex, Some r) # (if fails ex = None then [] else [(ex_Name ex, None)])) exs)"
    if "set exs \<subseteq> set (pl_exporters p)" for exs v
    using that by (induction exs arbitrary: v) (simp_all add: one)
  then show ?thesis by (simp add: dispatch_def)
qed

theorem dispatch_reaches_all_witness:
  "dispatch (tracing_pipeline [(''otlp'', True), (''stdout'', False)]) zero_result [] =
     [(''otlp'', Some zero_result), (''otlp'', None), (''stdout'', Some zero_result)]"
proof -
  let ?p = "tracing_pipeline [(''otlp'', True), (''stdout'', False)]"
  have "dispatch ?p zero_result [] = [] @ concat (map (\<lambda>ex. (ex_Name ex, Some zero_result) #
      (if (if ex_Name ex = ''otlp'' then Some ''failed'' else None) = None then [] else [(ex_Name ex, None)]))
      (pl_exporters ?p))"
    by (rule dispatch_reaches_all [where journal = "\<lambda>w. w"]) (auto simp: tracing_pipeline_def tracing_exporter_def)
  then show ?thesis by (simp add: tracing_pipeline_def tracing_exporter_def)
qed

end
