(* ===== verification/Daemon.thy ===== *)
theory Daemon
  imports Scheduler Pipeline
begin

text \<open>
  \<^verbatim>\<open>cmd/trimon/main.go\<close> with the goroutines it puts together: the main goroutine from the start of
  the HTTP server to its shutdown, the reload handler, the probe goroutines and the pipeline, as a
  step relation over one state. A step is one action of one goroutine, so the relation has every
  interleaving.

  The relation has a parameter \<open>serial\<close>. With \<open>False\<close> it is the program: the HTTP server accepts a
  reload from its start to its shutdown. With \<open>True\<close> a reload runs only between the start of the
  scheduler and the signal, and the signal is not taken while a reload is under way.
\<close>

subsection \<open>Probe factory and logger\<close>

datatype prober_kind = K_ICMP | K_TCP | K_UDP | K_DNS | K_HTTP

definition probeFactory :: "prober_kind factory" where
  "probeFactory cfg =
     (if pc_Type cfg = ProbeTypeICMP then Inr K_ICMP
      else if pc_Type cfg = ProbeTypeTCP then Inr K_TCP
      else if pc_Type cfg = ProbeTypeUDP then Inr K_UDP
      else if pc_Type cfg = ProbeTypeDNS then Inr K_DNS
      else if pc_Type cfg = ProbeTypeHTTP then Inr K_HTTP
      else Inl (''unknown probe type '' @ Quote (pc_Type cfg)))"

datatype log_level = LevelDebug | LevelInfo | LevelWarn | LevelError
datatype log_handler = TextHandler log_level | JSONHandler log_level

definition buildLogger :: "string \<Rightarrow> string \<Rightarrow> log_handler" where
  "buildLogger level fmt =
     (let lvl = (if level = ''debug'' then LevelDebug
                 else if level = ''warn'' then LevelWarn
                 else if level = ''error'' then LevelError
                 else LevelInfo)
      in if fmt = ''text'' then TextHandler lvl else JSONHandler lvl)"

subsection \<open>The state\<close>

text \<open>
  The main goroutine: before the server is up, with the server up, with the pipeline started, with
  the scheduler started, in \<^verbatim>\<open>sched.Stop\<close>, in \<^verbatim>\<open>pipe.Wait\<close> (the context is cancelled), closing the
  exporter and shutting the server down, and returned.
\<close>

datatype main_pc = M_Init | M_ServerUp | M_PipeUp | M_Running | M_Stopping "nat list"
  | M_Waiting | M_Closing | M_Down

datatype reload_pc = R_Idle | R_Stopping "nat list" "ProbeConfig list"

text \<open>
  The pipeline goroutine: not started, in the outer select, in the drain loop, between the
  \<^verbatim>\<open>default\<close> case of the drain and the close of the channel, and returned.
\<close>

datatype pipe_pc = P_New | P_Running | P_Draining | P_Closing | P_Done

text \<open>
  The last four fields are histories: the results probes produced, those the channel accepted,
  those that were dropped, and those dispatched to the exporters.
\<close>

record daemon =
  d_main :: main_pc
  d_reload :: reload_pc
  d_sched :: "prober_kind sched"
  d_chan :: chan
  d_pipe :: pipe_pc
  d_panic :: bool
  d_produced :: "ProbeResult list"
  d_accepted :: "ProbeResult list"
  d_dropped :: "ProbeResult list"
  d_dispatched :: "ProbeResult list"

definition daemon_init :: "nat \<Rightarrow> daemon" where
  "daemon_init buffer = \<lparr>d_main = M_Init, d_reload = R_Idle, d_sched = sched_New,
     d_chan = make_chan buffer, d_pipe = P_New, d_panic = False,
     d_produced = [], d_accepted = [], d_dropped = [], d_dispatched = []\<rparr>"

definition ctx_cancelled :: "daemon \<Rightarrow> bool" where
  "ctx_cancelled s \<longleftrightarrow> d_main s \<in> {M_Waiting, M_Closing, M_Down}"

definition server_up :: "daemon \<Rightarrow> bool" where
  "server_up s \<longleftrightarrow> d_main s \<notin> {M_Init, M_Down}"

definition alive :: "daemon \<Rightarrow> bool" where
  "alive s \<longleftrightarrow> \<not> d_panic s \<and> d_main s \<noteq> M_Down"

definition set_phase :: "nat \<Rightarrow> phase \<Rightarrow> daemon \<Rightarrow> daemon" where
  "set_phase i ph s =
     s\<lparr>d_sched := (d_sched s)\<lparr>sc_procs := (sc_procs (d_sched s))
        [i := (sc_procs (d_sched s) ! i)\<lparr>p_phase := ph\<rparr>]\<rparr>\<rparr>"

definition phase_of :: "nat \<Rightarrow> daemon \<Rightarrow> phase option" where
  "phase_of i s =
     (if i < length (sc_procs (d_sched s)) then Some (p_phase (sc_procs (d_sched s) ! i)) else None)"

text \<open>The body of the send loop for one result: the channel is closed, has room, or is full.\<close>

definition send_result :: "nat \<Rightarrow> ProbeResult \<Rightarrow> ProbeResult list \<Rightarrow> daemon \<Rightarrow> daemon" where
  "send_result i r rs s =
     (if ch_closed (d_chan s) then s\<lparr>d_panic := True\<rparr>
      else case chan_trysend r (d_chan s) of
        Some c \<Rightarrow> (set_phase i (Ph_Sending rs) s)\<lparr>d_chan := c, d_accepted := d_accepted s @ [r]\<rparr>
      | None \<Rightarrow> (set_phase i (Ph_Sending rs) s)\<lparr>d_dropped := d_dropped s @ [r]\<rparr>)"

subsection \<open>The steps\<close>

inductive step :: "bool \<Rightarrow> (ProbeConfig list \<Rightarrow> bool) \<Rightarrow> daemon \<Rightarrow> daemon \<Rightarrow> bool"
  for serial :: bool and loadable :: "ProbeConfig list \<Rightarrow> bool" where
  server_start: "alive s \<Longrightarrow> d_main s = M_Init \<Longrightarrow> step serial loadable s (s\<lparr>d_main := M_ServerUp\<rparr>)"
| pipe_start: "alive s \<Longrightarrow> d_main s = M_ServerUp \<Longrightarrow>
    step serial loadable s (s\<lparr>d_main := M_PipeUp, d_pipe := P_Running\<rparr>)"
| sched_start: "alive s \<Longrightarrow> d_main s = M_PipeUp \<Longrightarrow> loadable cfgs \<Longrightarrow>
    step serial loadable s (s\<lparr>d_main := M_Running, d_sched := Start probeFactory cfgs (d_sched s)\<rparr>)"
| signal: "alive s \<Longrightarrow> d_main s = M_Running \<Longrightarrow> (serial \<Longrightarrow> d_reload s = R_Idle) \<Longrightarrow>
    Stop_begin (d_sched s) = (ids, sc) \<Longrightarrow>
    step serial loadable s (s\<lparr>d_main := M_Stopping ids, d_sched := sc\<rparr>)"
| stopped: "alive s \<Longrightarrow> d_main s = M_Stopping ids \<Longrightarrow> all_exited ids (d_sched s) \<Longrightarrow>
    step serial loadable s (s\<lparr>d_main := M_Waiting\<rparr>)"
| waited: "alive s \<Longrightarrow> d_main s = M_Waiting \<Longrightarrow> d_pipe s = P_Done \<Longrightarrow>
    step serial loadable s (s\<lparr>d_main := M_Closing\<rparr>)"
| shutdown: "alive s \<Longrightarrow> d_main s = M_Closing \<Longrightarrow> step serial loadable s (s\<lparr>d_main := M_Down\<rparr>)"
| reload_begin: "alive s \<Longrightarrow> server_up s \<Longrightarrow> d_reload s = R_Idle \<Longrightarrow> loadable cfgs \<Longrightarrow>
    (serial \<Longrightarrow> d_main s = M_Running) \<Longrightarrow> Stop_begin (d_sched s) = (ids, sc) \<Longrightarrow>
    step serial loadable s (s\<lparr>d_reload := R_Stopping ids cfgs, d_sched := sc\<rparr>)"
| reload_start: "alive s \<Longrightarrow> d_reload s = R_Stopping ids cfgs \<Longrightarrow> all_exited ids (d_sched s) \<Longrightarrow>
    step serial loadable s (s\<lparr>d_reload := R_Idle, d_sched := Start probeFactory cfgs (d_sched s)\<rparr>)"
| new_ticker: "alive s \<Longrightarrow> phase_of i s = Some Ph_Start \<Longrightarrow>
    step serial loadable s
      (if pc_Interval (p_cfg (sc_procs (d_sched s) ! i)) \<le> 0 then s\<lparr>d_panic := True\<rparr>
       else set_phase i Ph_Idle s)"
| tick: "alive s \<Longrightarrow> phase_of i s = Some Ph_Idle \<Longrightarrow>
    step serial loadable s ((set_phase i (Ph_Sending rs) s)\<lparr>d_produced := d_produced s @ rs\<rparr>)"
| send: "alive s \<Longrightarrow> phase_of i s = Some (Ph_Sending (r # rs)) \<Longrightarrow>
    step serial loadable s (send_result i r rs s)"
| sent: "alive s \<Longrightarrow> phase_of i s = Some (Ph_Sending []) \<Longrightarrow> step serial loadable s (set_phase i Ph_Idle s)"
| exit: "alive s \<Longrightarrow> phase_of i s = Some Ph_Idle \<Longrightarrow> p_cancelled (sc_procs (d_sched s) ! i) \<Longrightarrow>
    step serial loadable s (set_phase i Ph_Exited s)"
| recv: "alive s \<Longrightarrow> d_pipe s = P_Running \<Longrightarrow> chan_recv (d_chan s) = Some (r, c) \<Longrightarrow>
    step serial loadable s (s\<lparr>d_chan := c, d_dispatched := d_dispatched s @ [r]\<rparr>)"
| ctx_done: "alive s \<Longrightarrow> d_pipe s = P_Running \<Longrightarrow> ctx_cancelled s \<Longrightarrow>
    step serial loadable s (s\<lparr>d_pipe := P_Draining\<rparr>)"
| drain_one: "alive s \<Longrightarrow> d_pipe s = P_Draining \<Longrightarrow> chan_recv (d_chan s) = Some (r, c) \<Longrightarrow>
    step serial loadable s (s\<lparr>d_chan := c, d_dispatched := d_dispatched s @ [r]\<rparr>)"
| drain_end: "alive s \<Longrightarrow> d_pipe s = P_Draining \<Longrightarrow> chan_recv (d_chan s) = None \<Longrightarrow>
    step serial loadable s (s\<lparr>d_pipe := P_Closing\<rparr>)"
| close_results: "alive s \<Longrightarrow> d_pipe s = P_Closing \<Longrightarrow>
    step serial loadable s (s\<lparr>d_chan := chan_close (d_chan s), d_pipe := P_Done\<rparr>)"

inductive reachable_from :: "bool \<Rightarrow> (ProbeConfig list \<Rightarrow> bool) \<Rightarrow> nat \<Rightarrow> daemon \<Rightarrow> bool"
  for serial :: bool and loadable :: "ProbeConfig list \<Rightarrow> bool" and buffer :: nat where
  initial: "reachable_from serial loadable buffer (daemon_init buffer)"
| further: "reachable_from serial loadable buffer s \<Longrightarrow> step serial loadable s t \<Longrightarrow>
    reachable_from serial loadable buffer t"

inductive_cases stepE: "step serial loadable s t"

subsection \<open>The phases of the goroutines\<close>

definition phases :: "daemon \<Rightarrow> phase list" where
  "phases s = map p_phase (sc_procs (d_sched s))"

definition configs :: "daemon \<Rightarrow> ProbeConfig list" where
  "configs s = map p_cfg (sc_procs (d_sched s))"

fun sending :: "phase \<Rightarrow> ProbeResult list" where
  "sending (Ph_Sending rs) = rs"
| "sending _ = []"

definition pending :: "daemon \<Rightarrow> ProbeResult multiset" where
  "pending s = mset (concat (map sending (phases s)))"

lemma phase_of_iff: "phase_of i s = Some ph \<longleftrightarrow> i < length (phases s) \<and> phases s ! i = ph"
  by (auto simp: phase_of_def phases_def)

lemma phases_set_phase: "phases (set_phase i ph s) = (phases s)[i := ph]"
proof (cases "i < length (sc_procs (d_sched s))")
  case True
  then show ?thesis by (simp add: phases_def set_phase_def map_update)
next
  case False
  then show ?thesis by (simp add: phases_def set_phase_def list_update_beyond)
qed

lemma configs_frame [frame_simps]:
  "configs (set_phase i ph s) = configs s"
  "configs (s\<lparr>d_main := m\<rparr>) = configs s" "configs (s\<lparr>d_reload := r\<rparr>) = configs s"
  "configs (s\<lparr>d_chan := c\<rparr>) = configs s" "configs (s\<lparr>d_pipe := q\<rparr>) = configs s"
  "configs (s\<lparr>d_produced := x\<rparr>) = configs s" "configs (s\<lparr>d_accepted := x\<rparr>) = configs s"
  "configs (s\<lparr>d_dropped := x\<rparr>) = configs s" "configs (s\<lparr>d_dispatched := x\<rparr>) = configs s"
  "configs (s\<lparr>d_sched := sc\<rparr>) = map p_cfg (sc_procs sc)"
proof -
  show "configs (set_phase i ph s) = configs s"
    by (cases "i < length (sc_procs (d_sched s))")
      (simp_all add: configs_def set_phase_def map_update list_update_same_conv list_update_beyond)
qed (simp_all add: configs_def)

lemma set_phase_frame [frame_simps]:
  "d_main (set_phase i ph s) = d_main s" "d_reload (set_phase i ph s) = d_reload s"
  "d_chan (set_phase i ph s) = d_chan s" "d_pipe (set_phase i ph s) = d_pipe s"
  "d_panic (set_phase i ph s) = d_panic s" "d_produced (set_phase i ph s) = d_produced s"
  "d_accepted (set_phase i ph s) = d_accepted s" "d_dropped (set_phase i ph s) = d_dropped s"
  "d_dispatched (set_phase i ph s) = d_dispatched s"
  "sc_workers (d_sched (set_phase i ph s)) = sc_workers (d_sched s)"
  by (simp_all add: set_phase_def)

lemma phases_frame [frame_simps]:
  "phases (s\<lparr>d_main := m\<rparr>) = phases s" "phases (s\<lparr>d_reload := r\<rparr>) = phases s"
  "phases (s\<lparr>d_chan := c\<rparr>) = phases s" "phases (s\<lparr>d_pipe := q\<rparr>) = phases s"
  "phases (s\<lparr>d_panic := b\<rparr>) = phases s" "phases (s\<lparr>d_produced := x\<rparr>) = phases s"
  "phases (s\<lparr>d_accepted := x\<rparr>) = phases s" "phases (s\<lparr>d_dropped := x\<rparr>) = phases s"
  "phases (s\<lparr>d_dispatched := x\<rparr>) = phases s"
  by (simp_all add: phases_def)

lemma phases_sched [frame_simps]: "phases (s\<lparr>d_sched := sc\<rparr>) = map p_phase (sc_procs sc)"
  by (simp add: phases_def)

lemma phases_Stop: "Stop_begin sc = (ids, sc1) \<Longrightarrow> map p_phase (sc_procs sc1) = map p_phase (sc_procs sc)"
  by (auto dest!: Stop_begin_procs intro!: nth_equalityI simp: cancel_frame)

lemma configs_Stop: "Stop_begin sc = (ids, sc1) \<Longrightarrow> map p_cfg (sc_procs sc1) = map p_cfg (sc_procs sc)"
  by (auto dest!: Stop_begin_procs intro!: nth_equalityI simp: cancel_frame)

lemma launched_phases: "p \<in> set (launched f cfgs) \<Longrightarrow> p_phase p = Ph_Start \<and> p_cfg p \<in> set cfgs"
  by (auto simp: launched_def split: sum.splits)

lemma phases_Start:
  "map p_phase (sc_procs (Start f cfgs sc)) =
     map p_phase (sc_procs sc) @ replicate (length (launched f cfgs)) Ph_Start"
proof -
  have "map p_phase (launched f cfgs) = replicate (length (launched f cfgs)) Ph_Start"
    by (rule replicate_eqI) (auto dest: launched_phases)
  then show ?thesis by (simp add: Start_procs)
qed

lemma concat_update:
  "i < length xs \<Longrightarrow>
   mset (concat (map f (xs[i := y]))) + mset (f (xs ! i)) = mset (concat (map f xs)) + mset (f y)"
proof (induction xs arbitrary: i)
  case (Cons x xs)
  then show ?case by (cases i) (auto simp: union_assoc union_commute union_lcomm)
qed simp

lemma pending_update:
  "phases t = (phases s)[i := ph] \<Longrightarrow> i < length (phases s) \<Longrightarrow>
   pending t + mset (sending (phases s ! i)) = pending s + mset (sending ph)"
  unfolding pending_def by (simp only: concat_update)

subsection \<open>Conservation\<close>

text \<open>What holds in every interleaving, serial or not.\<close>

definition flow_inv :: "nat \<Rightarrow> daemon \<Rightarrow> bool" where
  "flow_inv buffer s \<longleftrightarrow>
     ch_cap (d_chan s) = buffer \<and> length (ch_buf (d_chan s)) \<le> buffer \<and>
     d_accepted s = d_dispatched s @ ch_buf (d_chan s) \<and>
     mset (d_produced s) = mset (d_accepted s) + mset (d_dropped s) + pending s \<and>
     (ch_closed (d_chan s) \<longleftrightarrow> d_pipe s = P_Done) \<and>
     (d_main s \<in> {M_Closing, M_Down} \<longrightarrow> d_pipe s = P_Done) \<and>
     (d_pipe s \<in> {P_Draining, P_Closing, P_Done} \<longrightarrow> ctx_cancelled s)"

text \<open>Steps that leave the channel, the histories and the phases alone up to launching and cancelling.\<close>

lemma pending_same: "phases t = phases s @ replicate n Ph_Start \<Longrightarrow> pending t = pending s"
  by (simp add: pending_def)

lemma flow_control:
  assumes "flow_inv b s" and "d_chan t = d_chan s" and "d_accepted t = d_accepted s"
    and "d_dispatched t = d_dispatched s" and "d_produced t = d_produced s" and "d_dropped t = d_dropped s"
    and "phases t = phases s @ replicate n Ph_Start"
    and "d_pipe t = P_Done \<longleftrightarrow> d_pipe s = P_Done"
    and "d_main t \<in> {M_Closing, M_Down} \<Longrightarrow> d_pipe t = P_Done"
    and "d_pipe t \<in> {P_Draining, P_Closing, P_Done} \<Longrightarrow> ctx_cancelled t"
  shows "flow_inv b t"
  using assms pending_same [OF assms(7)] by (simp add: flow_inv_def)

lemma flow_worker:
  assumes "flow_inv b s" and "phase_of i s = Some old" and "phases t = (phases s)[i := ph]"
    and "mset (d_produced t) + mset (d_accepted s) + mset (d_dropped s) + mset (sending old) =
      mset (d_produced s) + mset (d_accepted t) + mset (d_dropped t) + mset (sending ph)"
    and "ch_cap (d_chan t) = b" and "length (ch_buf (d_chan t)) \<le> b"
    and "d_accepted t = d_dispatched t @ ch_buf (d_chan t)"
    and "ch_closed (d_chan t) = ch_closed (d_chan s)" and "d_pipe t = d_pipe s" and "d_main t = d_main s"
  shows "flow_inv b t"
proof -
  have i: "i < length (phases s)" "phases s ! i = old" using assms(2) by (simp_all add: phase_of_iff)
  let ?k = "mset (d_accepted s) + mset (d_dropped s) + mset (sending old)"
  have "mset (d_produced t) + ?k = mset (d_produced s) + mset (d_accepted t) + mset (d_dropped t) + mset (sending ph)"
    using assms(4) by (simp only: add.assoc)
  also have "\<dots> = mset (d_accepted s) + mset (d_dropped s) + mset (d_accepted t) + mset (d_dropped t) +
      (pending s + mset (sending ph))"
    using assms(1) by (simp add: flow_inv_def ac_simps)
  also have "pending s + mset (sending ph) = pending t + mset (sending old)"
    using pending_update [OF assms(3) i(1)] i(2) by simp
  finally have "mset (d_produced t) + ?k = (mset (d_accepted t) + mset (d_dropped t) + pending t) + ?k"
    by (simp add: ac_simps)
  then have "mset (d_produced t) = mset (d_accepted t) + mset (d_dropped t) + pending t"
    by (simp only: add_right_cancel)
  with assms show ?thesis by (simp add: flow_inv_def ctx_cancelled_def)
qed

lemmas flow_simps = flow_inv_def ctx_cancelled_def frame_simps phases_Start phases_Stop
  phases_def [symmetric] phases_set_phase

lemma flow_step:
  assumes "step serial loadable s t" and "flow_inv b s"
  shows "flow_inv b t"
  using assms
proof (induction rule: step.induct)
  case (server_start s)
  show ?case
    by (rule flow_control [of b s _ 0])
      (use server_start in \<open>auto simp: flow_simps\<close>)
next
  case (pipe_start s)
  show ?case
    by (rule flow_control [of b s _ 0])
      (use pipe_start in \<open>auto simp: flow_simps\<close>)
next
  case (sched_start s cfgs)
  show ?case
    by (rule flow_control [of b s _ "length (launched probeFactory cfgs)"])
      (use sched_start in \<open>auto simp: flow_simps\<close>)
next
  case (signal s ids sc)
  show ?case
    by (rule flow_control [of b s _ 0])
      (use signal in \<open>auto simp: flow_simps\<close>)
next
  case (stopped s ids)
  show ?case
    by (rule flow_control [of b s _ 0])
      (use stopped in \<open>auto simp: flow_simps\<close>)
next
  case (waited s)
  show ?case
    by (rule flow_control [of b s _ 0])
      (use waited in \<open>auto simp: flow_simps\<close>)
next
  case (shutdown s)
  show ?case
    by (rule flow_control [of b s _ 0])
      (use shutdown in \<open>auto simp: flow_simps\<close>)
next
  case (reload_begin s cfgs ids sc)
  show ?case
    by (rule flow_control [of b s _ 0])
      (use reload_begin in \<open>auto simp: flow_simps\<close>)
next
  case (reload_start s ids cfgs)
  show ?case
    by (rule flow_control [of b s _ "length (launched probeFactory cfgs)"])
      (use reload_start in \<open>auto simp: flow_simps\<close>)
next
  case (new_ticker s i)
  have "flow_inv b (s\<lparr>d_panic := True\<rparr>)"
    by (rule flow_control [of b s _ 0])
      (use new_ticker in \<open>auto simp: flow_simps\<close>)
  moreover have "flow_inv b (set_phase i Ph_Idle s)"
    by (rule flow_worker [of b s i Ph_Start _ Ph_Idle])
      (use new_ticker in \<open>auto simp: flow_simps\<close>)
  ultimately show ?case by simp
next
  case (tick s i rs)
  show ?case
    by (rule flow_worker [of b s i Ph_Idle _ "Ph_Sending rs"])
      (use tick in \<open>auto simp: flow_simps\<close>)
next
  case (send s i r rs)
  show ?case
  proof (cases "ch_closed (d_chan s)")
    case True
    show ?thesis
    by (rule flow_control [of b s _ 0])
      (use send True in \<open>auto simp: send_result_def flow_inv_def ctx_cancelled_def frame_simps\<close>)
  next
    case False
    show ?thesis
    by (rule flow_worker [of b s i "Ph_Sending (r # rs)" _ "Ph_Sending rs"])
      (use send False in \<open>auto simp: send_result_def flow_inv_def frame_simps phases_set_phase chan_trysend_def\<close>)
  qed
next
  case (sent s i)
  show ?case
    by (rule flow_worker [of b s i "Ph_Sending []" _ Ph_Idle])
      (use sent in \<open>auto simp: flow_simps\<close>)
next
  case (exit s i)
  show ?case
    by (rule flow_worker [of b s i Ph_Idle _ Ph_Exited])
      (use exit in \<open>auto simp: flow_simps\<close>)
next
  case (recv s r c)
  then show ?case by (auto simp: flow_inv_def ctx_cancelled_def pending_def frame_simps dest: results.recv_Some)
next
  case (ctx_done s)
  show ?case
    by (rule flow_control [of b s _ 0])
      (use ctx_done in \<open>auto simp: flow_simps\<close>)
next
  case (drain_one s r c)
  then show ?case by (auto simp: flow_inv_def ctx_cancelled_def pending_def frame_simps dest: results.recv_Some)
next
  case (drain_end s)
  show ?case
    by (rule flow_control [of b s _ 0])
      (use drain_end in \<open>auto simp: flow_simps\<close>)
next
  case (close_results s)
  then show ?case
    by (auto simp: flow_inv_def ctx_cancelled_def pending_def frame_simps chan_close_def)
qed

lemma flow_reachable: "reachable_from serial loadable b s \<Longrightarrow> flow_inv b s"
proof (induction rule: reachable_from.induct)
  case initial
  then show ?case
    by (simp add: flow_inv_def daemon_init_def make_chan_def pending_def phases_def sched_New_def ctx_cancelled_def)
next
  case (further s t)
  then show ?case by (blast intro: flow_step)
qed

subsection \<open>Orderly runs\<close>

text \<open>
  What the daemon relies on from the configuration: the probe sets it starts have distinct names
  and positive intervals.
\<close>

definition awaited :: "daemon \<Rightarrow> nat list" where
  "awaited s = (case d_main s of M_Stopping ids \<Rightarrow> ids | _ \<Rightarrow> []) @
     (case d_reload s of R_Stopping ids _ \<Rightarrow> ids | R_Idle \<Rightarrow> [])"

definition owned :: "daemon \<Rightarrow> bool" where
  "owned s \<longleftrightarrow> (\<forall>i < length (phases s). phases s ! i \<noteq> Ph_Exited \<longrightarrow>
     i \<in> set (map snd (sc_workers (d_sched s))) \<union> set (awaited s))"

definition all_done :: "daemon \<Rightarrow> bool" where
  "all_done s \<longleftrightarrow> set (phases s) \<subseteq> {Ph_Exited}"

locale probe_sets =
  fixes loadable :: "ProbeConfig list \<Rightarrow> bool"
  assumes names: "loadable cfgs \<Longrightarrow> distinct (map pc_Name cfgs)"
    and intervals: "loadable cfgs \<Longrightarrow> cfg \<in> set cfgs \<Longrightarrow> 0 < pc_Interval cfg"
begin

definition safe_inv :: "daemon \<Rightarrow> bool" where
  "safe_inv s \<longleftrightarrow>
     \<not> d_panic s \<and> owned s \<and>
     (\<forall>c \<in> set (configs s). 0 < pc_Interval c) \<and>
     (d_main s \<in> {M_Init, M_ServerUp, M_PipeUp} \<longrightarrow> d_sched s = sched_New) \<and>
     (d_main s \<noteq> M_Running \<longrightarrow> sc_workers (d_sched s) = [] \<and> d_reload s = R_Idle) \<and>
     (\<forall>ids cfgs. d_reload s = R_Stopping ids cfgs \<longrightarrow> sc_workers (d_sched s) = [] \<and> loadable cfgs) \<and>
     (ctx_cancelled s \<longrightarrow> all_done s) \<and>
     (d_pipe s \<in> {P_Closing, P_Done} \<longrightarrow> ctx_cancelled s \<and> ch_buf (d_chan s) = [])"

text \<open>Launching on an empty map: every goroutine that has not exited is in the map.\<close>

lemma owned_Start:
  assumes "loadable cfgs" and "sc_workers sc = []" and "set (map p_phase (sc_procs sc)) \<subseteq> {Ph_Exited}"
    and "d_sched t = Start probeFactory cfgs sc"
  shows "owned t"
  unfolding owned_def
proof (intro allI impI)
  fix i
  let ?n = "length (sc_procs sc)"
  assume i: "i < length (phases t)" "phases t ! i \<noteq> Ph_Exited"
  have ph: "phases t = map p_phase (sc_procs sc) @ replicate (length (launched probeFactory cfgs)) Ph_Start"
    by (simp add: phases_def assms(4) phases_Start)
  have "map p_phase (sc_procs sc) ! i \<in> {Ph_Exited}" if "i < ?n"
    using that assms(3) nth_mem [of i "map p_phase (sc_procs sc)"] by (metis length_map subsetD)
  then have "?n \<le> i" using i(2) by (auto simp: ph nth_append split: if_splits)
  moreover have "map snd (sc_workers (d_sched t)) = [?n..<length (sc_procs (d_sched t))]"
    using Start_workers [OF names [OF assms(1)], of sc] assms(2,4) by simp
  ultimately show "i \<in> set (map snd (sc_workers (d_sched t))) \<union> set (awaited t)"
    using i(1) by (simp add: phases_def)
qed

lemma Start_intervals:
  assumes "loadable cfgs" and "\<forall>c \<in> set (map p_cfg (sc_procs sc)). 0 < pc_Interval c"
  shows "\<forall>c \<in> set (map p_cfg (sc_procs (Start probeFactory cfgs sc))). 0 < pc_Interval c"
  using assms intervals [OF assms(1)] by (auto simp: Start_procs dest: launched_phases)

lemma awaited_exited:
  assumes "owned s" and "sc_workers (d_sched s) = []" and "all_exited (awaited s) (d_sched s)"
  shows "all_done s"
proof -
  have "phases s ! i = Ph_Exited" if "i < length (phases s)" for i
    using assms that by (auto simp: owned_def all_exited_def list_all_iff phases_def)
  then show ?thesis by (auto simp: all_done_def in_set_conv_nth)
qed

text \<open>The steps of a goroutine that is not done keep the invariant.\<close>

lemma safe_worker:
  assumes "safe_inv s" and "phase_of i s = Some old" and "old \<noteq> Ph_Exited" and "phases t = (phases s)[i := ph]"
    and "d_main t = d_main s" and "d_reload t = d_reload s" and "\<not> d_panic t"
    and "sc_workers (d_sched t) = sc_workers (d_sched s)"
    and "configs t = configs s" and "d_pipe t = d_pipe s"
  shows "safe_inv t"
proof -
  have i: "i < length (phases s)" "phases s ! i = old" using assms(2) by (simp_all add: phase_of_iff)
  then have "\<not> all_done s" using assms(3) nth_mem [of i "phases s"] by (auto simp: all_done_def)
  moreover have "d_sched s \<noteq> sched_New" using i(1) by (auto simp: phases_def sched_New_def)
  moreover have "awaited t = awaited s" using assms(5,6) by (simp add: awaited_def)
  then have "owned t"
    using assms(1,3,4,8) i by (auto simp: safe_inv_def owned_def nth_list_update)
  ultimately show ?thesis using assms by (auto simp: safe_inv_def ctx_cancelled_def)
qed

text \<open>So do the steps of the pipeline.\<close>

lemma safe_pipe:
  assumes "safe_inv s" and "d_main t = d_main s" and "d_reload t = d_reload s" and "d_sched t = d_sched s"
    and "d_panic t = d_panic s" and "d_pipe t \<in> {P_Closing, P_Done} \<Longrightarrow> ctx_cancelled t \<and> ch_buf (d_chan t) = []"
  shows "safe_inv t"
proof -
  have "phases t = phases s" "configs t = configs s" "awaited t = awaited s" "ctx_cancelled t = ctx_cancelled s"
    using assms(2,3,4) by (simp_all add: phases_def configs_def awaited_def ctx_cancelled_def)
  with assms show ?thesis by (simp add: safe_inv_def owned_def all_done_def)
qed

lemma owned_Stop:
  assumes "owned s" and "Stop_begin (d_sched s) = (ids, sc)" and "d_sched t = sc"
    and "set ids \<union> set (awaited s) \<subseteq> set (awaited t)"
  shows "owned t"
  using assms Stop_begin_procs [OF assms(2)] phases_Stop [OF assms(2)]
  by (auto simp: owned_def phases_def)

lemma safe_step:
  assumes "step True loadable s t" and "safe_inv s" and flow: "flow_inv b s"
  shows "safe_inv t"
  using assms
proof (induction rule: step.induct)
  case (sched_start s cfgs)
  have "owned (s\<lparr>d_main := M_Running, d_sched := Start probeFactory cfgs (d_sched s)\<rparr>)"
    by (rule owned_Start [OF sched_start(3), of "d_sched s"])
      (use sched_start in \<open>auto simp: safe_inv_def sched_New_def\<close>)
  moreover have "\<forall>c \<in> set (map p_cfg (sc_procs (Start probeFactory cfgs (d_sched s)))). 0 < pc_Interval c"
    by (rule Start_intervals) (use sched_start in \<open>simp_all add: safe_inv_def configs_def\<close>)
  ultimately show ?case
    using sched_start by (simp add: safe_inv_def ctx_cancelled_def frame_simps)
next
  case (signal s ids sc)
  have "owned (s\<lparr>d_main := M_Stopping ids, d_sched := sc\<rparr>)"
    by (rule owned_Stop [of s ids sc]) (use signal in \<open>auto simp: safe_inv_def awaited_def\<close>)
  with signal Stop_begin_procs [OF signal(4)] configs_Stop [OF signal(4)] show ?case
    by (auto simp: safe_inv_def ctx_cancelled_def frame_simps configs_def [symmetric])
next
  case (stopped s ids)
  have "all_done s"
    by (rule awaited_exited) (use stopped in \<open>auto simp: safe_inv_def awaited_def\<close>)
  with stopped show ?case
    by (auto simp: safe_inv_def ctx_cancelled_def all_done_def owned_def frame_simps dest: nth_mem)
next
  case (reload_begin s cfgs ids sc)
  have "owned (s\<lparr>d_reload := R_Stopping ids cfgs, d_sched := sc\<rparr>)"
    by (rule owned_Stop [of s ids sc]) (use reload_begin in \<open>auto simp: safe_inv_def awaited_def\<close>)
  with reload_begin Stop_begin_procs [OF reload_begin(6)] configs_Stop [OF reload_begin(6)] show ?case
    by (auto simp: safe_inv_def ctx_cancelled_def frame_simps configs_def [symmetric])
next
  case (reload_start s ids cfgs)
  then have c: "loadable cfgs" "sc_workers (d_sched s) = []" "d_main s = M_Running"
    by (auto simp: safe_inv_def)
  have "all_done s"
    by (rule awaited_exited) (use reload_start c in \<open>auto simp: safe_inv_def awaited_def\<close>)
  then have "owned (s\<lparr>d_reload := R_Idle, d_sched := Start probeFactory cfgs (d_sched s)\<rparr>)"
    by (intro owned_Start [OF c(1,2)]) (simp_all add: all_done_def phases_def)
  moreover have "\<forall>c \<in> set (map p_cfg (sc_procs (Start probeFactory cfgs (d_sched s)))). 0 < pc_Interval c"
    by (rule Start_intervals [OF c(1)]) (use reload_start in \<open>simp add: safe_inv_def configs_def\<close>)
  ultimately show ?case
    using reload_start c by (simp add: safe_inv_def ctx_cancelled_def frame_simps)
next
  case (new_ticker s i)
  then have "0 < pc_Interval (p_cfg (sc_procs (d_sched s) ! i))"
    by (auto simp: safe_inv_def configs_def phase_of_def split: if_splits)
  moreover have "safe_inv (set_phase i Ph_Idle s)"
    by (rule safe_worker [of s i Ph_Start _ Ph_Idle])
      (use new_ticker in \<open>auto simp: frame_simps phases_set_phase safe_inv_def\<close>)
  ultimately show ?case by simp
next
  case (tick s i rs)
  show ?case
    by (rule safe_worker [of s i Ph_Idle _ "Ph_Sending rs"])
      (use tick in \<open>auto simp: frame_simps phases_set_phase safe_inv_def\<close>)
next
  case (send s i r rs)
  have "\<not> all_done s" using send nth_mem by (fastforce simp: all_done_def phase_of_iff)
  then have open_chan: "\<not> ch_closed (d_chan s)" using send by (auto simp: safe_inv_def flow_inv_def)
  show ?case
    by (rule safe_worker [of s i "Ph_Sending (r # rs)" _ "Ph_Sending rs"])
      (use send open_chan in \<open>auto simp: send_result_def frame_simps phases_set_phase safe_inv_def
         split: option.split\<close>)
next
  case (sent s i)
  show ?case
    by (rule safe_worker [of s i "Ph_Sending []" _ Ph_Idle])
      (use sent in \<open>auto simp: frame_simps phases_set_phase safe_inv_def\<close>)
next
  case (exit s i)
  show ?case
    by (rule safe_worker [of s i Ph_Idle _ Ph_Exited])
      (use exit in \<open>auto simp: frame_simps phases_set_phase safe_inv_def\<close>)
next
  case (recv s r c)
  show ?case by (rule safe_pipe [of s]) (use recv in \<open>auto simp: safe_inv_def\<close>)
next
  case (ctx_done s)
  show ?case by (rule safe_pipe [of s]) (use ctx_done in \<open>simp_all\<close>)
next
  case (drain_one s r c)
  show ?case by (rule safe_pipe [of s]) (use drain_one in \<open>simp_all\<close>)
next
  case (drain_end s)
  show ?case
    by (rule safe_pipe [of s]) (use drain_end in \<open>auto simp: flow_inv_def ctx_cancelled_def results.recv_None\<close>)
next
  case (close_results s)
  show ?case
    by (rule safe_pipe [of s]) (use close_results in \<open>auto simp: safe_inv_def ctx_cancelled_def chan_close_def\<close>)
qed (auto simp: safe_inv_def ctx_cancelled_def owned_def awaited_def all_done_def frame_simps)

lemma safe_reachable: "reachable_from True loadable b s \<Longrightarrow> safe_inv s \<and> flow_inv b s"
proof (induction rule: reachable_from.induct)
  case initial
  have "safe_inv (daemon_init b)"
    by (auto simp: safe_inv_def daemon_init_def owned_def phases_def configs_def sched_New_def ctx_cancelled_def)
  then show ?case using flow_reachable reachable_from.initial by blast
next
  case (further s t)
  then show ?case using safe_step flow_step by blast
qed

text \<open>An orderly run never panics, and when it is down every accepted result has been exported.\<close>

lemma orderly_shutdown:
  assumes "reachable_from True loadable b s"
  shows "\<not> d_panic s"
    and "d_main s \<in> {M_Closing, M_Down} \<Longrightarrow>
      all_done s \<and> d_dispatched s = d_accepted s \<and> mset (d_produced s) = mset (d_dispatched s) + mset (d_dropped s)"
proof -
  have inv: "safe_inv s" "flow_inv b s" using safe_reachable [OF assms] by simp_all
  then show "\<not> d_panic s" by (simp add: safe_inv_def)
  assume m: "d_main s \<in> {M_Closing, M_Down}"
  then have d: "all_done s" using inv by (auto simp: safe_inv_def ctx_cancelled_def)
  then have "\<forall>ph \<in> set (phases s). sending ph = []" by (auto simp: all_done_def)
  then have "pending s = {#}" by (simp add: pending_def)
  moreover have "ch_buf (d_chan s) = []" using inv m by (auto simp: safe_inv_def flow_inv_def)
  ultimately show "all_done s \<and> d_dispatched s = d_accepted s \<and>
    mset (d_produced s) = mset (d_dispatched s) + mset (d_dropped s)" using inv(2) d by (auto simp: flow_inv_def)
qed

end

subsection \<open>Disorderly runs\<close>

text \<open>
  The HTTP server outlives the scheduler: a reload that arrives after the signal starts goroutines
  that nobody stops. The trace below has no probes before the signal and one after the reload.
\<close>

definition one_proc :: "ProbeConfig \<Rightarrow> prober_kind \<Rightarrow> bool \<Rightarrow> phase \<Rightarrow> prober_kind proc" where
  "one_proc cfg k b ph = \<lparr>p_cfg = cfg, p_prober = k, p_cancelled = b, p_phase = ph\<rparr>"

definition after_stop :: "nat \<Rightarrow> main_pc \<Rightarrow> reload_pc \<Rightarrow> (string \<times> nat) list \<Rightarrow> prober_kind proc list
    \<Rightarrow> bool \<Rightarrow> pipe_pc \<Rightarrow> ProbeResult list \<Rightarrow> bool \<Rightarrow> daemon" where
  "after_stop b m r ws ps cl pipe out panic = \<lparr>d_main = m, d_reload = r,
     d_sched = \<lparr>sc_workers = ws, sc_procs = ps\<rparr>,
     d_chan = \<lparr>ch_buf = [], ch_cap = b, ch_closed = cl\<rparr>, d_pipe = pipe, d_panic = panic,
     d_produced = out, d_accepted = [], d_dropped = [], d_dispatched = []\<rparr>"

lemmas trace_simps = after_stop_def one_proc_def daemon_init_def make_chan_def sched_New_def alive_def
  server_up_def ctx_cancelled_def Stop_begin_def all_exited_def phase_of_def set_phase_def
  startLocked_def send_result_def chan_recv_def chan_close_def

lemma trace_step:
  "reachable_from serial loadable b s \<Longrightarrow> step serial loadable s u \<Longrightarrow> u = t \<Longrightarrow>
   reachable_from serial loadable b t"
  by (auto intro: reachable_from.further)

lemma step_serial: "step True loadable s t \<Longrightarrow> step False loadable s t"
proof (induction rule: step.induct)
  case (new_ticker s i)
  then show ?case by (rule step.new_ticker)
qed (auto intro: step.intros)

lemma reachable_serial: "reachable_from True loadable b s \<Longrightarrow> reachable_from False loadable b s"
  by (induction rule: reachable_from.induct) (auto intro: reachable_from.intros step_serial)

lemma path_step:
  "(step serial loadable)\<^sup>*\<^sup>* s t \<Longrightarrow> step serial loadable t u \<Longrightarrow> u = v \<Longrightarrow> (step serial loadable)\<^sup>*\<^sup>* s v"
  by (auto intro: rtranclp.rtrancl_into_rtrancl)

lemma reachable_path:
  "(step serial loadable)\<^sup>*\<^sup>* s t \<Longrightarrow> reachable_from serial loadable b s \<Longrightarrow> reachable_from serial loadable b t"
  by (induction rule: rtranclp_induct) (auto intro: reachable_from.further)

text \<open>An orderly run without probes, up to the wait for the pipeline.\<close>

lemma idle_run:
  assumes "loadable []"
  shows "reachable_from True loadable b (after_stop b M_Waiting R_Idle [] [] False P_Running [] False)"
proof -
  let ?R = "reachable_from True loadable b" and ?S = "after_stop b"
  have "?R (?S M_ServerUp R_Idle [] [] False P_New [] False)"
    by (rule trace_step [OF reachable_from.initial step.server_start]) (simp_all add: trace_simps)+
  then have "?R (?S M_PipeUp R_Idle [] [] False P_Running [] False)"
    by (rule trace_step [OF _ step.pipe_start]) (simp_all add: trace_simps)+
  then have "?R (?S M_Running R_Idle [] [] False P_Running [] False)"
    by (rule trace_step [OF _ step.sched_start [where loadable = loadable, OF _ _ assms]]) (simp_all add: trace_simps)+
  then have "?R (?S (M_Stopping []) R_Idle [] [] False P_Running [] False)"
    by (rule trace_step [OF _ step.signal]) (simp_all add: trace_simps)+
  then show ?thesis
    by (rule trace_step [OF _ step.stopped]) (simp_all add: trace_simps)+
qed

lemma late_reload:
  assumes "loadable []" and "loadable [cfg]" and "probeFactory cfg = Inr k" and "0 < pc_Interval cfg"
  shows "\<exists>s t u. reachable_from True loadable b s \<and> d_main s = M_Waiting \<and> d_reload s = R_Idle \<and>
    step False loadable s t \<and> d_reload t = R_Stopping [] [cfg] \<and>
    (step False loadable)\<^sup>*\<^sup>* t u \<and> d_pipe u = P_Done \<and> ch_closed (d_chan u) \<and> d_panic u"
proof -
  let ?S = "after_stop b"
  let ?ws = "[(pc_Name cfg, 0)]" and ?p = "one_proc cfg k False"
  let ?s = "?S M_Waiting R_Idle [] [] False P_Running [] False"
  let ?t = "?S M_Waiting (R_Stopping [] [cfg]) [] [] False P_Running [] False"
  let ?P = "(step False loadable)\<^sup>*\<^sup>* ?t"
  have st: "step False loadable ?s ?t"
    using step.reload_begin [where loadable = loadable and serial = False, of ?s "[cfg]" "[]" "d_sched ?s"] assms(2)
    by (simp add: trace_simps)
  have "?P (?S M_Waiting R_Idle ?ws [?p Ph_Start] False P_Running [] False)"
    by (rule path_step [OF rtranclp.rtrancl_refl step.reload_start]) (simp_all add: trace_simps assms(3))+
  then have "?P (?S M_Waiting R_Idle ?ws [?p Ph_Start] False P_Draining [] False)"
    by (rule path_step [OF _ step.ctx_done]) (simp_all add: trace_simps)+
  then have "?P (?S M_Waiting R_Idle ?ws [?p Ph_Start] False P_Closing [] False)"
    by (rule path_step [OF _ step.drain_end]) (simp_all add: trace_simps)+
  then have "?P (?S M_Waiting R_Idle ?ws [?p Ph_Start] True P_Done [] False)"
    by (rule path_step [OF _ step.close_results]) (simp_all add: trace_simps)+
  then have "?P (?S M_Waiting R_Idle ?ws [?p Ph_Idle] True P_Done [] False)"
    by (rule path_step [OF _ step.new_ticker [of _ 0]]) (simp_all add: trace_simps assms(4) not_le)+
  then have "?P (?S M_Waiting R_Idle ?ws [?p (Ph_Sending [zero_result])] True P_Done [zero_result] False)"
    by (rule path_step [OF _ step.tick [of _ 0]]) (simp_all add: trace_simps)+
  then have "?P (?S M_Waiting R_Idle ?ws [?p (Ph_Sending [zero_result])] True P_Done [zero_result] True)"
    by (rule path_step [OF _ step.send [of _ 0 zero_result "[]"]]) (simp_all add: trace_simps)+
  with idle_run [where loadable = loadable, OF assms(1)] st show ?thesis
    by (intro exI [of _ ?s] exI [of _ ?t] exI) (auto simp: after_stop_def)
qed

text \<open>
  The HTTP server is also up before the scheduler starts: a reload at that time starts the probes a
  first time, and the start of the scheduler replaces them in the map, where they are lost.
\<close>

lemma early_reload:
  assumes "loadable [cfg]" and "probeFactory cfg = Inr k"
  shows "\<exists>s. reachable_from False loadable b s \<and> d_main s = M_Running \<and> d_reload s = R_Idle \<and>
    WorkerCount (d_sched s) = 1 \<and> phases s = [Ph_Start, Ph_Start] \<and> \<not> owned s"
proof -
  let ?R = "reachable_from False loadable b" and ?S = "after_stop b"
  let ?p = "one_proc cfg k False Ph_Start"
  have "?R (?S M_ServerUp R_Idle [] [] False P_New [] False)"
    by (rule trace_step [OF reachable_from.initial step.server_start]) (simp_all add: trace_simps)+
  then have "?R (?S M_ServerUp (R_Stopping [] [cfg]) [] [] False P_New [] False)"
    by (rule trace_step [OF _ step.reload_begin [where loadable = loadable, OF _ _ _ assms(1)]]) (simp_all add: trace_simps)+
  then have "?R (?S M_ServerUp R_Idle [(pc_Name cfg, 0)] [?p] False P_New [] False)"
    by (rule trace_step [OF _ step.reload_start]) (simp_all add: trace_simps assms(2))+
  then have "?R (?S M_PipeUp R_Idle [(pc_Name cfg, 0)] [?p] False P_Running [] False)"
    by (rule trace_step [OF _ step.pipe_start]) (simp_all add: trace_simps)+
  then have r: "?R (?S M_Running R_Idle [(pc_Name cfg, 1)] [?p, ?p] False P_Running [] False)"
    by (rule trace_step [OF _ step.sched_start [where loadable = loadable, OF _ _ assms(1)]]) (simp_all add: trace_simps assms(2))+
  show ?thesis
    by (rule exI, rule conjI, rule r)
      (auto simp: after_stop_def one_proc_def WorkerCount_def phases_def owned_def awaited_def)
qed

end
