(* ===== verification/Go_JSON.thy ===== *)
theory Go_JSON
  imports Float64
begin

text \<open>
  JSON documents as \<^verbatim>\<open>encoding/json\<close> makes them of Go values: the text of a document is left to the
  library, but not the question whether there is one, since a float that is not finite has no
  encoding and makes \<^verbatim>\<open>Encode\<close> return an error.
\<close>

datatype json = JStr string | JBool bool | JInt int | JFloat float64 | JObj "(string \<times> json) list" | JArr "json list"

fun f_finite :: "float64 \<Rightarrow> bool" where
  "f_finite (Fin _) = True"
| "f_finite _ = False"

fun encodable :: "json \<Rightarrow> bool" where
  "encodable (JFloat x) = f_finite x"
| "encodable (JObj kvs) = list_all (\<lambda>(k, v). encodable v) kvs"
| "encodable (JArr vs) = list_all encodable vs"
| "encodable _ = True"

definition Encode :: "json \<Rightarrow> string + json" where
  "Encode v = (if encodable v then Inr v else Inl ''json: unsupported value'')"

text \<open>A pointer field with \<^verbatim>\<open>omitempty\<close> is left out when nil, a string field when empty.\<close>

definition opt_float :: "string \<Rightarrow> float64 option \<Rightarrow> (string \<times> json) list" where
  "opt_float k v = (case v of None \<Rightarrow> [] | Some x \<Rightarrow> [(k, JFloat x)])"

definition opt_str :: "string \<Rightarrow> string \<Rightarrow> (string \<times> json) list" where
  "opt_str k s = (if s = [] then [] else [(k, JStr s)])"

end
