(* ===== verification/Server.thy ===== *)
theory Server
  imports Config_Load Daemon Go_JSON
begin

text \<open>
  \<^verbatim>\<open>internal/server/server.go\<close> and the reload callback of \<^verbatim>\<open>main.go\<close>: the handlers of \<^verbatim>\<open>/healthz\<close>,
  \<^verbatim>\<open>/metrics\<close>, \<^verbatim>\<open>/reload\<close> and \<^verbatim>\<open>/config\<close>, and the dump of the configuration. A handler maps the state
  of the daemon it can reach to a response and a new state; requests to \<^verbatim>\<open>/reload\<close> hold a mutex, so
  one runs at a time.
\<close>

subsection \<open>Responses\<close>

datatype 'b body = B_JSON json | B_YAML json | B_Text string | B_Handler 'b

record 'b response =
  rs_Status :: int
  rs_Body :: "'b body"

definition writeJSON :: "int \<Rightarrow> json \<Rightarrow> 'b response" where
  "writeJSON status v = \<lparr>rs_Status = status, rs_Body = B_JSON v\<rparr>"

definition healthBufferThreshold :: float64 where
  "healthBufferThreshold = f64 (9 / 10)"

text \<open>The argument is the reading of the health checker, \<open>None\<close> when none is set.\<close>

definition handleHealthz :: "float64 option \<Rightarrow> 'b response" where
  "handleHealthz usage =
     (case usage of
        Some u \<Rightarrow>
          if f_lt healthBufferThreshold u
          then writeJSON 503 (JObj [(''status'', JStr ''degraded''),
                 (''reason'', JStr ''results buffer near capacity''), (''buffer_usage'', JFloat u)])
          else writeJSON 200 (JObj [(''status'', JStr ''ok'')])
      | None \<Rightarrow> writeJSON 200 (JObj [(''status'', JStr ''ok'')]))"

text \<open>A registered metrics handler answers with a status and a body of its own.\<close>

definition handleMetrics :: "'b response option \<Rightarrow> 'b response" where
  "handleMetrics metricsHandler =
     (case metricsHandler of
        Some answer \<Rightarrow> answer
      | None \<Rightarrow> \<lparr>rs_Status = 404, rs_Body = B_Text ''404 page not found''\<rparr>)"

subsection \<open>Reload\<close>

text \<open>
  What the handlers reach through their callbacks: the scheduler, the results channel, the served
  configuration and the reload counter.
\<close>

record app =
  ap_sched :: "prober_kind sched"
  ap_chan :: chan
  ap_currentCfg :: "Config option"
  ap_reloads :: nat

text \<open>
  The callback that \<^verbatim>\<open>main\<close> registers, with \<open>later\<close> as in \<open>Stop\<close>: a reload that waits for a goroutine
  has not returned.
\<close>

datatype reload_outcome = Reloaded Config | Load_failed load_error | Reload_waits

definition reloadFunc :: "'a load_env_scheme \<Rightarrow> string \<Rightarrow> string \<Rightarrow> (prober_kind proc list \<Rightarrow> prober_kind proc list)
    \<Rightarrow> app \<Rightarrow> reload_outcome \<times> app" where
  "reloadFunc env configPath probesPath later app =
     (case Load env configPath probesPath of
        Inl loadErr \<Rightarrow> (Load_failed loadErr, app)
      | Inr newCfg \<Rightarrow>
          (case Reload later probeFactory (c_Probes newCfg) (ap_sched app) of
             (False, sc) \<Rightarrow> (Reload_waits, app\<lparr>ap_sched := sc\<rparr>)
           | (True, sc) \<Rightarrow>
               (Reloaded newCfg,
                app\<lparr>ap_sched := sc, ap_currentCfg := Some newCfg, ap_reloads := ap_reloads app + 1\<rparr>)))"

text \<open>
  A request has an answer, or it has none: because the callback panicked, which the HTTP server of
  the standard library recovers, or because it has not returned. \<^verbatim>\<open>reloadFunc\<close> is nil until it is
  set.
\<close>

datatype 'b reply = Answer "'b response" | Aborted | Waiting

definition handleReload :: "(app \<Rightarrow> reload_outcome \<times> app) option \<Rightarrow> app \<Rightarrow> 'b reply \<times> app" where
  "handleReload reload app =
     (case reload of
        None \<Rightarrow> (Answer (writeJSON 503 (JObj [(''error'', JStr ''reload not configured'')])), app)
      | Some f \<Rightarrow>
          (case f app of
             (Reload_waits, app1) \<Rightarrow> (Waiting, app1)
           | (Load_failed Nil_deref, app1) \<Rightarrow> (Aborted, app1)
           | (Load_failed (Load_err e), app1) \<Rightarrow>
               (Answer (writeJSON 400 (JObj [(''reloaded'', JBool False),
                  (''error'', JStr ''configuration invalid; see server logs'')])), app1)
           | (Reloaded newCfg, app1) \<Rightarrow>
               (Answer (writeJSON 200 (JObj [(''reloaded'', JBool True),
                  (''probes'', JInt (int (length (c_Probes newCfg))))])), app1)))"

subsection \<open>The configuration dump\<close>

record globalDump =
  gd_Interval :: string
  gd_PacketInterval :: string
  gd_Timeout :: string
  gd_Count :: go_int
  gd_SourceIP :: string

record probeDump =
  pd_Name :: string
  pd_Type :: string
  pd_Targets :: "string list"
  pd_MaxResolvedIPs :: go_int
  pd_SourceIP :: string
  pd_Interval :: string
  pd_PacketInterval :: string
  pd_Timeout :: string
  pd_Count :: go_int
  pd_Labels :: "(string \<times> string) list"

record configDump =
  cd_Global :: globalDump
  cd_Probes :: "probeDump list"

definition dump_probe :: "ProbeConfig \<Rightarrow> probeDump" where
  "dump_probe p =
     \<lparr>pd_Name = pc_Name p, pd_Type = pc_Type p, pd_Targets = pc_Targets p,
      pd_MaxResolvedIPs = pc_MaxResolvedIPs p, pd_SourceIP = pc_SourceIP p,
      pd_Interval = Duration_String (pc_Interval p),
      pd_PacketInterval = Duration_String (pc_PacketInterval p),
      pd_Timeout = Duration_String (pc_Timeout p), pd_Count = pc_Count p,
      pd_Labels = (case pc_Labels p of None \<Rightarrow> [] | Some l \<Rightarrow> l)\<rparr>"

definition toConfigDump :: "Config \<Rightarrow> configDump" where
  "toConfigDump cfg =
     (let g = c_Global cfg
      in \<lparr>cd_Global = \<lparr>gd_Interval = Duration_String (g_Interval g),
            gd_PacketInterval = Duration_String (g_PacketInterval g),
            gd_Timeout = Duration_String (g_Timeout g), gd_Count = g_Count g, gd_SourceIP = g_SourceIP g\<rparr>,
          cd_Probes = map dump_probe (c_Probes cfg)\<rparr>)"

text \<open>The document of the dump: the tags of the structs, with \<^verbatim>\<open>omitempty\<close> where they have it.\<close>

definition probe_doc :: "probeDump \<Rightarrow> json" where
  "probe_doc p = JObj (
     [(''name'', JStr (pd_Name p)), (''type'', JStr (pd_Type p)), (''targets'', JArr (map JStr (pd_Targets p)))] @
     (if pd_MaxResolvedIPs p \<noteq> 0 then [(''max_resolved_ips'', JInt (pd_MaxResolvedIPs p))] else []) @
     [(''source_ip'', JStr (pd_SourceIP p)), (''probe_every'', JStr (pd_Interval p)),
      (''packet_interval'', JStr (pd_PacketInterval p)), (''timeout'', JStr (pd_Timeout p)),
      (''count'', JInt (pd_Count p)), (''labels'', JObj (map (\<lambda>(k, v). (k, JStr v)) (pd_Labels p)))])"

definition dump_doc :: "configDump \<Rightarrow> json" where
  "dump_doc d = (let g = cd_Global d in JObj [
     (''global'', JObj (
        [(''probe_every'', JStr (gd_Interval g)), (''packet_interval'', JStr (gd_PacketInterval g)),
         (''timeout'', JStr (gd_Timeout g)), (''count'', JInt (gd_Count g))] @
        (if gd_SourceIP g \<noteq> [] then [(''source_ip'', JStr (gd_SourceIP g))] else []))),
     (''probes'', JArr (map probe_doc (cd_Probes d)))])"

text \<open>\<open>yaml_err\<close> is the error of the YAML encoder, if any; \<open>accept\<close> the Accept header.\<close>

definition handleConfig :: "Config option \<Rightarrow> string \<Rightarrow> string option \<Rightarrow> 'b response" where
  "handleConfig currentCfg accept yaml_err =
     (case currentCfg of
        None \<Rightarrow> writeJSON 503 (JObj [(''error'', JStr ''config not yet loaded'')])
      | Some cfg \<Rightarrow>
          let dump = dump_doc (toConfigDump cfg)
          in if accept = ''application/x-yaml''
             then (case yaml_err of
                     Some err \<Rightarrow> \<lparr>rs_Status = 500, rs_Body = B_Text ''internal error''\<rparr>
                   | None \<Rightarrow> \<lparr>rs_Status = 200, rs_Body = B_YAML dump\<rparr>)
             else writeJSON 200 dump)"

subsection \<open>The server and its routes\<close>

text \<open>
  A callback that is nil is \<open>None\<close>; the current configuration is in the state of the daemon. A
  pattern with the method GET of the standard library's mux also takes HEAD; a known path with
  another method is answered with 405. Paths are compared after the mux has cleaned them.
\<close>

record 'b server =
  srv_metricsHandler :: "'b response option"
  srv_reloadFunc :: "(app \<Rightarrow> reload_outcome \<times> app) option"
  srv_healthChecker :: "(chan \<Rightarrow> float64) option"

definition server_New :: "'b server" where
  "server_New = \<lparr>srv_metricsHandler = None, srv_reloadFunc = None, srv_healthChecker = None\<rparr>"

datatype handler = H_Healthz | H_Metrics | H_Reload | H_Config

definition routes :: "(string \<times> string \<times> handler) list" where
  "routes = [(''GET'', ''/healthz'', H_Healthz), (''GET'', ''/metrics'', H_Metrics),
     (''POST'', ''/reload'', H_Reload), (''GET'', ''/config'', H_Config)]"

definition method_match :: "string \<Rightarrow> string \<Rightarrow> bool" where
  "method_match pat m \<longleftrightarrow> pat = m \<or> pat = ''GET'' \<and> m = ''HEAD''"

definition ServeHTTP :: "'b server \<Rightarrow> string \<Rightarrow> string \<Rightarrow> string \<Rightarrow> string option \<Rightarrow> app
    \<Rightarrow> 'b reply \<times> app" where
  "ServeHTTP srv method path accept yaml_err app =
     (case filter (\<lambda>(m, p, h). p = path) routes of
        [] \<Rightarrow> (Answer \<lparr>rs_Status = 404, rs_Body = B_Text ''404 page not found''\<rparr>, app)
      | (m, p, h) # _ \<Rightarrow>
          if \<not> method_match m method
          then (Answer \<lparr>rs_Status = 405, rs_Body = B_Text ''Method Not Allowed''\<rparr>, app)
          else (case h of
                  H_Healthz \<Rightarrow> (Answer (handleHealthz (map_option (\<lambda>f. f (ap_chan app)) (srv_healthChecker srv))), app)
                | H_Metrics \<Rightarrow> (Answer (handleMetrics (srv_metricsHandler srv)), app)
                | H_Reload \<Rightarrow> handleReload (srv_reloadFunc srv) app
                | H_Config \<Rightarrow> (Answer (handleConfig (ap_currentCfg app) accept yaml_err), app)))"

subsection \<open>Lemmas\<close>

lemma healthz_status:
  "rs_Status (handleHealthz (Some u) :: 'b response) = (if f_lt healthBufferThreshold u then 503 else 200)"
  by (simp add: handleHealthz_def writeJSON_def)

lemma usage_above:
  assumes "n \<le> c" and "0 < c" and "c \<le> 2 ^ 48"
  shows "rnd (9 / 10) < rnd (of_nat n / of_nat c) \<longleftrightarrow> 9 * c < 10 * n"
proof
  assume a: "9 * c < 10 * n"
  have "(of_nat (9 * c + 1) :: rat) \<le> of_nat (10 * n)" using a by (simp only: of_nat_le_iff)
  then have "(of_nat (9 * c + 1) / (10 * of_nat c) :: rat) \<le> of_nat (10 * n) / (10 * of_nat c)"
    by (rule divide_right_mono) simp
  then have "(9 / 10 + 1 / (10 * of_nat c) :: rat) \<le> of_nat n / of_nat c"
    using assms(2) by (simp add: add_divide_distrib)
  moreover have "(of_nat c :: rat) \<le> of_nat (2 ^ 48)" using assms(3) by (simp only: of_nat_le_iff)
  then have "(1 / (10 * 2 ^ 48) :: rat) \<le> 1 / (10 * of_nat c)"
    using assms(2) by (intro divide_left_mono) simp_all
  moreover have "(2 / 2 ^ 53 :: rat) < 1 / (10 * 2 ^ 48)" by simp
  ultimately have "(9 / 10 + 2 / 2 ^ 53 :: rat) < of_nat n / of_nat c" by linarith
  then show "rnd (9 / 10) < rnd (of_nat n / of_nat c)"
    using assms by (intro rnd_separates) (simp_all add: divide_le_eq)
next
  assume a: "rnd (9 / 10) < rnd (of_nat n / of_nat c)"
  show "9 * c < 10 * n"
  proof (rule ccontr)
    assume "\<not> 9 * c < 10 * n"
    then have "(of_nat (10 * n) :: rat) \<le> of_nat (9 * c)" by (simp only: of_nat_le_iff not_less)
    then have "(of_nat n / of_nat c :: rat) \<le> 9 / 10" using assms(2) by (simp add: field_simps)
    then show False using rnd_mono a by (simp add: leD)
  qed
qed

lemma probeFactory_known: "pc_Type c \<in> set knownProbeTypes \<Longrightarrow> is_ok (probeFactory c)"
  by (auto simp: probeFactory_def knownProbeTypes_def is_ok_iff)

lemma config_valid_factory: "config_valid c \<Longrightarrow> p \<in> set (c_Probes c) \<Longrightarrow> is_ok (probeFactory p)"
  by (auto simp: config_valid_def list_all_iff probe_valid_def intro: probeFactory_known)

subsection \<open>Properties\<close>

text \<open>
  C22. The buffer usage that \<^verbatim>\<open>/healthz\<close> looks at is a binary64 quotient compared with the binary64
  number nearest to nine tenths, and rounding does not matter: for every channel of up to \<open>2 ^ 48\<close>
  slots the usage lies between 0 and 1 and exceeds the threshold if and only if more than nine
  tenths of the slots are taken. While fewer are taken, \<^verbatim>\<open>/healthz\<close> answers 200.
\<close>

theorem usage_threshold_exact:
  assumes "length (ch_buf c) \<le> ch_cap c" and "0 < ch_cap c" and "ch_cap c \<le> 2 ^ 48"
  shows "f_le (Fin 0) (BufferUsage c) \<and> f_le (BufferUsage c) (Fin 1) \<and>
    (f_lt healthBufferThreshold (BufferUsage c) \<longleftrightarrow> 9 * ch_cap c < 10 * length (ch_buf c)) \<and>
    (10 * length (ch_buf c) < 9 * ch_cap c \<longrightarrow>
       rs_Status (handleHealthz (Some (BufferUsage c)) :: 'b response) = 200)"
proof -
  have "(2 :: nat) ^ 48 \<le> 2 ^ 53" by simp
  then have u: "BufferUsage c = Fin (rnd (of_nat (length (ch_buf c)) / of_nat (ch_cap c)))"
    "0 \<le> rnd (of_nat (length (ch_buf c)) / of_nat (ch_cap c))" "rnd (of_nat (length (ch_buf c)) / of_nat (ch_cap c)) \<le> 1"
    using assms BufferUsage_Fin [of c] by simp_all
  have t: "healthBufferThreshold = Fin (rnd (9 / 10))"
    unfolding healthBufferThreshold_def by (rule f64_unit) simp_all
  have lt: "f_lt healthBufferThreshold (BufferUsage c) \<longleftrightarrow> 9 * ch_cap c < 10 * length (ch_buf c)"
    by (simp only: u(1) t f_lt.simps usage_above [OF assms])
  moreover have "f_le (Fin 0) (BufferUsage c)" "f_le (BufferUsage c) (Fin 1)"
    using u(2,3) unfolding u(1) f_le_def by auto
  ultimately show ?thesis by (simp add: healthz_status)
qed

theorem usage_threshold_exact_witness:
  "f_lt healthBufferThreshold (BufferUsage \<lparr>ch_buf = replicate 10 zero_result, ch_cap = 11, ch_closed = False\<rparr>) \<and>
   \<not> f_lt healthBufferThreshold (BufferUsage \<lparr>ch_buf = replicate 9 zero_result, ch_cap = 10, ch_closed = False\<rparr>)"
  using usage_threshold_exact [of "\<lparr>ch_buf = replicate 10 zero_result, ch_cap = 11, ch_closed = False\<rparr>"]
    usage_threshold_exact [of "\<lparr>ch_buf = replicate 9 zero_result, ch_cap = 10, ch_closed = False\<rparr>"]
  by simp

text \<open>What the probe files give, whatever the rest of the configuration is.\<close>

definition probe_files :: "'a load_env_scheme \<Rightarrow> string \<Rightarrow> load_error + GlobalConfig \<times> ProbeConfig list" where
  "probe_files env probesPath =
     (case readProbeDir env probesPath of
        Inl err \<Rightarrow> Inl (Load_err err)
      | Inr sources \<Rightarrow> parseProbeSources env sources)"

lemma Load_probe_files:
  assumes "le_ReadFile env configPath = Inr opsData" and "parseOpsFile env opsData = Inr ops"
  shows "(\<exists>e. Load env configPath probesPath = Inl e \<and> probe_files env probesPath = Inl e) \<or>
    (\<exists>c. Load env configPath probesPath = Inr c \<and> probe_files env probesPath = Inr (c_Global c, c_Probes c))"
proof (cases "readProbeDir env probesPath")
  case (Inl err)
  then show ?thesis using assms(1) by (simp add: Load_def probe_files_def lift_err_def)
next
  case (Inr sources)
  then have l: "Load env configPath probesPath = parseSources env opsData sources"
    "probe_files env probesPath = parseProbeSources env sources"
    using assms(1) by (simp_all add: Load_def probe_files_def lift_err_def)
  show ?thesis
  proof (cases "parseProbeSources env sources")
    case (Inl e)
    then show ?thesis using assms(2) l by (simp add: parseSources_def lift_err_def)
  next
    case (Inr gp)
    then show ?thesis using assms(2) l by (cases gp) (simp add: parseSources_def lift_err_def)
  qed
qed

text \<open>
  C9. With an operations file that loads as it did at the start, a reload applies the probe files as
  a whole or not at all. When they are not valid, the request is answered with 400, or with nothing
  if the loader panicked, and scheduler, served configuration and counter are what they were.
  When they are, the workers of the previous set are taken out of the map and waited for. If the
  request is answered, the answer is 200, the goroutines of the previous set have exited, the map
  has one worker per probe of the files, under the probe's name, and \<^verbatim>\<open>/config\<close> serves the globals
  and probes of the files, which are valid, from then on; until then it serves the old ones.
\<close>

theorem reload_all_or_nothing:
  assumes "le_ReadFile env configPath = Inr opsData" and "parseOpsFile env opsData = Inr ops"
    and "handleReload (Some (reloadFunc env configPath probesPath later)) app = (reply, app1)"
  shows "case probe_files env probesPath of
      Inl Nil_deref \<Rightarrow> reply = Aborted \<and> app1 = app
    | Inl (Load_err _) \<Rightarrow> (\<exists>r. reply = Answer r \<and> rs_Status r = 400) \<and> app1 = app
    | Inr (g, probes) \<Rightarrow> list_all probe_valid probes \<and> distinct (map pc_Name probes) \<and>
        (if reply = Waiting
         then ap_currentCfg app1 = ap_currentCfg app \<and> ap_reloads app1 = ap_reloads app \<and>
              sc_workers (ap_sched app1) = [] \<and> \<not> all_exited (map snd (sc_workers (ap_sched app))) (ap_sched app1)
         else (\<exists>r. reply = Answer r \<and> rs_Status r = 200) \<and> ap_reloads app1 = ap_reloads app + 1 \<and>
              (\<exists>c. ap_currentCfg app1 = Some c \<and> c_Global c = g \<and> c_Probes c = probes) \<and>
              map fst (sc_workers (ap_sched app1)) = map pc_Name probes \<and>
              all_exited (map snd (sc_workers (ap_sched app))) (ap_sched app1))"
proof -
  consider (no) e where "Load env configPath probesPath = Inl e" "probe_files env probesPath = Inl e"
    | (yes) c where "Load env configPath probesPath = Inr c" "probe_files env probesPath = Inr (c_Global c, c_Probes c)"
    using Load_probe_files [OF assms(1,2)] by blast
  then show ?thesis
  proof cases
    case no
    have "reply = (case e of Nil_deref \<Rightarrow> Aborted | Load_err _ \<Rightarrow> Answer (writeJSON 400 (JObj [(''reloaded'', JBool False),
      (''error'', JStr ''configuration invalid; see server logs'')])))" "app1 = app"
      using assms(3) no(1) by (cases e; simp add: handleReload_def reloadFunc_def)+
    with no(2) show ?thesis by (cases e) (simp_all add: writeJSON_def)
  next
    case yes
    have v: "list_all probe_valid (c_Probes c)" "distinct (map pc_Name (c_Probes c))" "config_valid c"
      using Load_valid [OF yes(1)] by (simp_all add: config_valid_def)
    obtain ret sc where sc: "Reload later probeFactory (c_Probes c) (ap_sched app) = (ret, sc)" by fastforce
    show ?thesis
    proof (cases ret)
      case True
      then have sct: "Reload later probeFactory (c_Probes c) (ap_sched app) = (True, sc)" using sc by simp
      have "map fst (sc_workers sc) = map pc_Name (c_Probes c)"
        by (rule Reload_names [OF v(2) _ sct]) (use config_valid_factory [OF v(3)] in blast)
      moreover have "all_exited (map snd (sc_workers (ap_sched app))) sc" by (rule Reload_exited [OF sct])
      moreover have "app1 = app\<lparr>ap_sched := sc, ap_currentCfg := Some c, ap_reloads := ap_reloads app + 1\<rparr>"
        "reply = Answer (writeJSON 200 (JObj [(''reloaded'', JBool True), (''probes'', JInt (int (length (c_Probes c))))]))"
        using assms(3) yes(1) sct by (simp_all add: handleReload_def reloadFunc_def)
      ultimately show ?thesis using yes(2) v by (simp add: writeJSON_def)
    next
      case False
      then have "reply = Waiting" "app1 = app\<lparr>ap_sched := sc\<rparr>"
        using assms(3) yes(1) sc by (simp_all add: handleReload_def reloadFunc_def)
      then show ?thesis
        using yes(2) v sc False Reload_blocked [of later probeFactory "c_Probes c" "ap_sched app" sc] by simp
    qed
  qed
qed

lemma example_probe_files: "probe_files example_load_env ''probes.d'' = Inr (globalDefaults, [example_probe])"
  using Load_probe_files [of example_load_env "''ops.yaml''" "[]" opsDefaults "''probes.d''"] example_load
  by (simp add: example_config_def) code_simp

theorem reload_all_or_nothing_witness:
  "\<exists>c. ap_currentCfg (snd (handleReload (Some (reloadFunc example_load_env ''ops.yaml'' ''probes.d'' (\<lambda>ps. ps)))
     \<lparr>ap_sched = sched_New, ap_chan = make_chan 10, ap_currentCfg = None, ap_reloads = 0\<rparr> :: unit reply \<times> app)) = Some c \<and>
     c_Probes c = [example_probe]"
proof -
  let ?app = "\<lparr>ap_sched = sched_New, ap_chan = make_chan 10, ap_currentCfg = None, ap_reloads = 0\<rparr>"
  obtain reply app1 where h: "handleReload (Some (reloadFunc example_load_env ''ops.yaml'' ''probes.d'' (\<lambda>ps. ps))) ?app =
    (reply :: unit reply, app1)" by fastforce
  have o: "le_ReadFile example_load_env ''ops.yaml'' = Inr []" "parseOpsFile example_load_env [] = Inr opsDefaults"
    by code_simp+
  have "all_exited (map snd (sc_workers (ap_sched ?app))) x" for x :: "prober_kind sched"
    by (simp add: sched_New_def all_exited_def)
  with reload_all_or_nothing [OF o h] h show ?thesis by (auto simp: example_probe_files split: if_splits)
qed

text \<open>
  The dump fed back as a probe file: what the decoder of the loader makes of a dumped probe. The
  dump has no protocol blocks.
\<close>

definition read_probe :: "probeDump \<Rightarrow> string + rawProbeConfig" where
  "read_probe d =
     res_bind (UnmarshalYAML (pd_Interval d)) (\<lambda>interval.
     res_bind (UnmarshalYAML (pd_PacketInterval d)) (\<lambda>packetInterval.
     res_bind (UnmarshalYAML (pd_Timeout d)) (\<lambda>timeout.
     Inr \<lparr>r_Name = pd_Name d, r_Type = pd_Type d, r_Targets = pd_Targets d, r_MaxResolvedIPs = pd_MaxResolvedIPs d,
          r_SourceIP = pd_SourceIP d, r_Interval = Some interval, r_PacketInterval = Some packetInterval,
          r_Timeout = Some timeout, r_Count = Some (pd_Count d), r_Labels = Some (pd_Labels d),
          r_HTTP = None, r_TCP = None, r_UDP = None, r_DNS = None\<rparr>)))"

definition durations_in_range :: "ProbeConfig \<Rightarrow> bool" where
  "durations_in_range p \<longleftrightarrow>
     int64_range (pc_Interval p) \<and> int64_range (pc_PacketInterval p) \<and> int64_range (pc_Timeout p)"

definition dumped_raw :: "ProbeConfig \<Rightarrow> rawProbeConfig" where
  "dumped_raw p =
     \<lparr>r_Name = pc_Name p, r_Type = pc_Type p, r_Targets = pc_Targets p, r_MaxResolvedIPs = pc_MaxResolvedIPs p,
      r_SourceIP = pc_SourceIP p, r_Interval = Some (pc_Interval p), r_PacketInterval = Some (pc_PacketInterval p),
      r_Timeout = Some (pc_Timeout p), r_Count = Some (pc_Count p),
      r_Labels = Some (case pc_Labels p of None \<Rightarrow> [] | Some l \<Rightarrow> l),
      r_HTTP = None, r_TCP = None, r_UDP = None, r_DNS = None\<rparr>"

lemma read_dump_probe: "durations_in_range p \<Longrightarrow> read_probe (dump_probe p) = Inr (dumped_raw p)"
  by (simp add: durations_in_range_def read_probe_def dump_probe_def dumped_raw_def UnmarshalYAML_String)

lemma merge_dumped_raw:
  assumes "mergeAndValidateProbe env r g = Inr p" and "r_Name r \<noteq> []" and "g_SourceIP g1 = g_SourceIP g"
  shows "mergeAndValidateProbe env (dumped_raw p) g1 =
    prefix_err (''probe '' @ Quote (pc_Name p) @ '': '') (validateProtocolConfig env (dumped_raw p)
      (merged_probe (dumped_raw p) (pc_SourceIP p) (pc_Interval p) (pc_PacketInterval p) (pc_Timeout p) (pc_Count p)))"
proof -
  let ?d = "dumped_raw p"
  note v = mergeAndValidateProbe_valid [OF assms(1,2)]
  obtain i pk t c where mt: "mergeTimings r g = (i, pk, t, c)" by (metis prod_cases4)
  then have ty: "r_Type r \<noteq> []" "r_Type r \<in> set knownProbeTypes" "0 \<le> r_MaxResolvedIPs r"
    and tg: "validateTargets env r = Inr ()" and tm: "r_Type r \<noteq> ProbeTypeHTTP \<longrightarrow> timings_ok i pk t c"
    and lb: "labels_valid (r_Labels r)"
    using assms(1) by (auto simp: mergeAndValidateProbe_Inr)
  have m: "mergeTimings ?d g1 = (pc_Interval p, pc_PacketInterval p, pc_Timeout p, pc_Count p)"
    by (simp add: mergeTimings_def dumped_raw_def)
  have d: "r_Type ?d = r_Type r" "r_Name ?d = pc_Name p" "r_MaxResolvedIPs ?d = r_MaxResolvedIPs r"
    using v by (simp_all add: dumped_raw_def)
  have "validateTargets env ?d = Inr ()" using tg v by (simp add: validateTargets_def dumped_raw_def)
  moreover have "resolveSourceIP env ?d g1 = Inr (pc_SourceIP p)"
    using v(5) assms(3) by (auto simp: resolveSourceIP_def dumped_raw_def Let_def split: if_splits sum.splits)
  moreover have "validateLabels (r_Labels ?d) = Inr ()"
    using lb v(8) by (simp add: validateLabels_iff labels_valid_def dumped_raw_def split: option.splits)
  moreover have "r_Type r \<noteq> ProbeTypeHTTP \<Longrightarrow>
      validateTimings (pc_Interval p) (pc_PacketInterval p) (pc_Timeout p) (pc_Count p) = Inr ()"
    using tm v(4) mt by (simp add: validateTimings_iff)
  ultimately show ?thesis using ty unfolding mergeAndValidateProbe_def m d by (simp add: Let_def)
qed

text \<open>A probe that needs a protocol block is refused when its dump is read back.\<close>

lemma dump_loses_block:
  assumes "mergeAndValidateProbe env r g = Inr p" and "r_Name r \<noteq> []" and "pc_Type p \<noteq> ProbeTypeICMP"
  shows "mergeAndValidateProbe env (dumped_raw p) g =
    Inl (''probe '' @ Quote (pc_Name p) @ '': '' @ block_required (pc_Type p))"
proof -
  have "r_Type r \<in> set knownProbeTypes" using assms(1) by (auto simp: mergeAndValidateProbe_def Let_def split: if_splits)
  then have t: "pc_Type p \<in> {ProbeTypeDNS, ProbeTypeHTTP, ProbeTypeTCP, ProbeTypeUDP}"
    using assms(3) mergeAndValidateProbe_valid(6) [OF assms(1,2)] by (simp add: knownProbeTypes_def)
  show ?thesis
    unfolding merge_dumped_raw [OF assms(1,2) refl] using t
    by (auto simp: validateProtocolConfig_def dumped_raw_def probe_types)
qed


definition example_icmp_raw :: rawProbeConfig where
  "example_icmp_raw = example_raw\<lparr>r_Type := ''icmp'', r_Labels := None, r_TCP := None\<rparr>"

definition example_icmp_probe :: ProbeConfig where
  "example_icmp_probe = merged_probe example_icmp_raw [] 30000000000 1000000000 5000000000 2"

lemma example_icmp_accepted: "mergeAndValidateProbe example_cfg_env example_icmp_raw example_global = Inr example_icmp_probe"
  by code_simp


end
