(* ===== verification/Shutdown.thy ===== *)
theory Shutdown
  imports Daemon
begin

text \<open>
  Liveness of the orderly runs of theory \<open>Daemon\<close>: from every state of such a run the daemon can
  still come down. No goroutine waits for something that cannot happen any more: the goroutines
  that \<^verbatim>\<open>sched.Stop\<close> waits for have been cancelled and can finish, sends never block, and the
  pipeline that \<^verbatim>\<open>pipe.Wait\<close> waits for has been started and can drain the channel.
\<close>

subsection \<open>What a stop can rely on\<close>

definition stopping :: "daemon \<Rightarrow> bool" where
  "stopping s \<longleftrightarrow> (case d_reload s of R_Idle \<Rightarrow> False | R_Stopping _ _ \<Rightarrow> True) \<or>
     (case d_main s of M_Stopping _ \<Rightarrow> True | _ \<Rightarrow> False)"

definition cancelled_all :: "'p sched \<Rightarrow> bool" where
  "cancelled_all sc \<longleftrightarrow> (\<forall>i < length (sc_procs sc). p_phase (sc_procs sc ! i) \<noteq> Ph_Exited \<longrightarrow>
     p_cancelled (sc_procs sc ! i))"

definition refs_valid :: "daemon \<Rightarrow> bool" where
  "refs_valid s \<longleftrightarrow> (\<forall>i \<in> set (map snd (sc_workers (d_sched s))) \<union> set (awaited s). i < length (sc_procs (d_sched s)))"

definition live_inv :: "daemon \<Rightarrow> bool" where
  "live_inv s \<longleftrightarrow> (stopping s \<longrightarrow> cancelled_all (d_sched s)) \<and> refs_valid s \<and>
     (d_main s \<notin> {M_Init, M_ServerUp} \<longrightarrow> d_pipe s \<noteq> P_New)"

lemma set_phase_nth:
  assumes "j < length (sc_procs (d_sched s))"
  shows "p_cancelled (sc_procs (d_sched (set_phase i ph s)) ! j) = p_cancelled (sc_procs (d_sched s) ! j)"
    and "p_phase (sc_procs (d_sched (set_phase i ph s)) ! j) =
      (if i = j then ph else p_phase (sc_procs (d_sched s) ! j))"
  using assms by (cases "i = j"; simp add: set_phase_def)+

lemma length_set_phase [simp]: "length (sc_procs (d_sched (set_phase i ph s))) = length (sc_procs (d_sched s))"
  by (simp add: set_phase_def)

lemma all_done_iff: "all_done s \<longleftrightarrow> (\<forall>i < length (phases s). phases s ! i = Ph_Exited)"
  unfolding all_done_def by (metis (no_types) in_set_conv_nth insertI1 singletonD subset_iff)

lemma live_worker:
  assumes "live_inv s" and "phase_of i s = Some old" and "old \<noteq> Ph_Exited"
    and "d_main t = d_main s" and "d_reload t = d_reload s" and "d_pipe t = d_pipe s"
    and "d_sched t = d_sched (set_phase i ph s)"
  shows "live_inv t"
proof -
  have a: "awaited t = awaited s" "stopping t = stopping s" using assms(4,5) by (simp_all add: awaited_def stopping_def)
  have "i < length (sc_procs (d_sched s))" "p_phase (sc_procs (d_sched s) ! i) \<noteq> Ph_Exited"
    using assms(2,3) by (auto simp: phase_of_def split: if_splits)
  then have "cancelled_all (d_sched t)" if "cancelled_all (d_sched s)"
    using that assms(7) by (auto simp: cancelled_all_def set_phase_nth)
  moreover have "refs_valid t" using assms(1,7) a by (auto simp: live_inv_def refs_valid_def frame_simps)
  ultimately show ?thesis using assms(1,4,6) a by (auto simp: live_inv_def)
qed

context probe_sets
begin

lemma Stop_cancels:
  assumes "owned s" and "awaited s = []" and "Stop_begin (d_sched s) = (ids, sc)"
  shows "cancelled_all sc"
  using assms Stop_begin_procs [OF assms(3)]
  by (auto simp: cancelled_all_def owned_def phases_def cancel_nth)

lemma Start_refs:
  assumes "loadable cfgs" and "sc_workers sc = []"
  shows "\<forall>i \<in> set (map snd (sc_workers (Start probeFactory cfgs sc))). i < length (sc_procs (Start probeFactory cfgs sc))"
  using Start_workers [OF names [OF assms(1)], of sc probeFactory] assms(2) by simp

lemma live_step:
  assumes "step True loadable s t" and "safe_inv s" and "live_inv s"
  shows "live_inv t"
  using assms
proof (induction rule: step.induct)
  case (sched_start s cfgs)
  with Start_refs [OF sched_start(3), of "d_sched s"] show ?case
    by (auto simp: live_inv_def safe_inv_def refs_valid_def awaited_def stopping_def sched_New_def)
next
  case (signal s ids sc)
  then have "awaited s = []" by (simp add: awaited_def)
  with signal Stop_cancels [OF _ _ signal(4)] Stop_begin_procs [OF signal(4)] show ?case
    by (auto simp: live_inv_def safe_inv_def refs_valid_def awaited_def)
next
  case (reload_begin s cfgs ids sc)
  then have "awaited s = []" by (simp add: awaited_def)
  with reload_begin Stop_cancels [OF _ _ reload_begin(6)] Stop_begin_procs [OF reload_begin(6)] show ?case
    by (auto simp: live_inv_def safe_inv_def refs_valid_def awaited_def)
next
  case (reload_start s ids cfgs)
  then have c: "loadable cfgs" "sc_workers (d_sched s) = []" "d_main s = M_Running"
    by (auto simp: safe_inv_def)
  with reload_start Start_refs [OF c(1,2)] show ?case
    by (auto simp: live_inv_def refs_valid_def awaited_def stopping_def)
next
  case (new_ticker s i)
  then have "0 < pc_Interval (p_cfg (sc_procs (d_sched s) ! i))"
    by (auto simp: safe_inv_def configs_def phase_of_def split: if_splits)
  moreover have "live_inv (set_phase i Ph_Idle s)"
    by (rule live_worker [of s i Ph_Start]) (use new_ticker in \<open>simp_all add: frame_simps\<close>)
  ultimately show ?case by simp
next
  case (tick s i rs)
  show ?case by (rule live_worker [of s i Ph_Idle]) (use tick in \<open>simp_all add: frame_simps\<close>)
next
  case (send s i r rs)
  show ?case
  proof (cases "ch_closed (d_chan s)")
    case True
    then show ?thesis using send by (simp add: send_result_def live_inv_def refs_valid_def awaited_def stopping_def)
  next
    case False
    show ?thesis
      by (rule live_worker [of s i "Ph_Sending (r # rs)"])
        (use send False in \<open>auto simp: send_result_def frame_simps split: option.split\<close>)
  qed
next
  case (sent s i)
  show ?case by (rule live_worker [of s i "Ph_Sending []"]) (use sent in \<open>simp_all add: frame_simps\<close>)
next
  case (exit s i)
  show ?case by (rule live_worker [of s i Ph_Idle]) (use exit in \<open>simp_all add: frame_simps\<close>)
qed (auto simp: live_inv_def refs_valid_def awaited_def stopping_def)

lemma live_reachable: "reachable_from True loadable b s \<Longrightarrow> live_inv s"
proof (induction rule: reachable_from.induct)
  case initial
  show ?case by (simp add: live_inv_def stopping_def refs_valid_def awaited_def daemon_init_def sched_New_def)
next
  case (further s t)
  then show ?case using live_step safe_reachable by blast
qed

end

subsection \<open>Ways down\<close>

definition can_finish :: "(ProbeConfig list \<Rightarrow> bool) \<Rightarrow> daemon \<Rightarrow> bool" where
  "can_finish loadable s \<longleftrightarrow> (\<exists>t. (step True loadable)\<^sup>*\<^sup>* s t \<and> d_main t = M_Down)"

lemma can_finish_step: "step True loadable s t \<Longrightarrow> can_finish loadable t \<Longrightarrow> can_finish loadable s"
  by (auto simp: can_finish_def intro: converse_rtranclp_into_rtranclp)

lemma can_finish_steps: "(step True loadable)\<^sup>*\<^sup>* s t \<Longrightarrow> can_finish loadable t \<Longrightarrow> can_finish loadable s"
  by (auto simp: can_finish_def intro: rtranclp_trans)

text \<open>The steps that a goroutine still has to take when it gets no further ticks.\<close>

fun effort :: "phase \<Rightarrow> nat" where
  "effort Ph_Exited = 0"
| "effort Ph_Idle = 1"
| "effort Ph_Start = 2"
| "effort (Ph_Sending rs) = length rs + 2"

definition work :: "daemon \<Rightarrow> nat" where
  "work s = sum_list (map effort (phases s))"

lemma work_update:
  assumes "i < length (phases s)" and "phases t = (phases s)[i := ph]" and "effort ph < effort (phases s ! i)"
  shows "work t < work s"
  using assms elem_le_sum_list [of i "map effort (phases s)"]
  by (simp add: work_def map_update sum_list_update)

context probe_sets
begin

text \<open>A cancelled goroutine can always take a step towards its exit.\<close>

lemma worker_progress:
  assumes r: "reachable_from True loadable b s" and "stopping s" and "\<not> all_done s"
  shows "\<exists>t. step True loadable s t \<and> work t < work s \<and> d_main t = d_main s \<and> d_reload t = d_reload s"
proof -
  have inv: "safe_inv s" "flow_inv b s" "live_inv s" using safe_reachable [OF r] live_reachable [OF r] by simp_all
  then have al: "alive s" using assms(2)
    by (auto simp: alive_def safe_inv_def stopping_def split: reload_pc.splits main_pc.splits)
  have op: "\<not> ch_closed (d_chan s)" using inv assms(3) by (auto simp: safe_inv_def flow_inv_def)
  obtain i where i: "i < length (phases s)" "phases s ! i \<noteq> Ph_Exited"
    using assms(3) by (auto simp: all_done_iff)
  let ?p = "sc_procs (d_sched s) ! i"
  have ph: "phase_of i s = Some (phases s ! i)" using i(1) by (simp add: phase_of_iff)
  have "0 < pc_Interval (p_cfg ?p)" "p_cancelled ?p"
    using inv i assms(2) by (auto simp: safe_inv_def live_inv_def cancelled_all_def configs_def phases_def)
  note facts = al op this
  show ?thesis
  proof (cases "phases s ! i")
    case Ph_Start
    have "step True loadable s (set_phase i Ph_Idle s)"
      using step.new_ticker [of s i True loadable] facts ph Ph_Start by simp
    moreover have "work (set_phase i Ph_Idle s) < work s"
      by (rule work_update [OF i(1) phases_set_phase]) (simp add: Ph_Start)
    ultimately show ?thesis by (metis set_phase_frame(1,2))
  next
    case Ph_Idle
    have "step True loadable s (set_phase i Ph_Exited s)"
      using step.exit [of s i True loadable] facts ph Ph_Idle by simp
    moreover have "work (set_phase i Ph_Exited s) < work s"
      by (rule work_update [OF i(1) phases_set_phase]) (simp add: Ph_Idle)
    ultimately show ?thesis by (metis set_phase_frame(1,2))
  next
    case (Ph_Sending rs)
    show ?thesis
    proof (cases rs)
      case Nil
      have "step True loadable s (set_phase i Ph_Idle s)"
        using step.sent [of s i True loadable] facts ph Ph_Sending Nil by simp
      moreover have "work (set_phase i Ph_Idle s) < work s"
        by (rule work_update [OF i(1) phases_set_phase]) (simp add: Ph_Sending)
      ultimately show ?thesis by (metis set_phase_frame(1,2))
    next
      case (Cons x xs)
      have "step True loadable s (send_result i x xs s)"
        using step.send [of s i x xs True loadable] facts ph Ph_Sending Cons by simp
      moreover have "phases (send_result i x xs s) = (phases s)[i := Ph_Sending xs]"
        "d_main (send_result i x xs s) = d_main s" "d_reload (send_result i x xs s) = d_reload s"
        using op by (auto simp: send_result_def frame_simps phases_set_phase split: option.split)
      moreover from this(1) have "work (send_result i x xs s) < work s"
        by (rule work_update [OF i(1)]) (simp add: Ph_Sending Cons)
      ultimately show ?thesis by blast
    qed
  next
    case Ph_Exited
    with i(2) show ?thesis by simp
  qed
qed

lemma workers_finish:
  assumes "reachable_from True loadable b s" and "stopping s"
  shows "\<exists>t. (step True loadable)\<^sup>*\<^sup>* s t \<and> all_done t \<and> d_main t = d_main s \<and> d_reload t = d_reload s"
  using assms
proof (induction "work s" arbitrary: s rule: less_induct)
  case less
  show ?case
  proof (cases "all_done s")
    case False
    obtain t where t: "step True loadable s t" "work t < work s" "d_main t = d_main s" "d_reload t = d_reload s"
      using worker_progress [OF less.prems False] by blast
    have "stopping t" using less.prems(2) t(3,4) by (simp add: stopping_def)
    with less.hyps [OF t(2) reachable_from.further [OF less.prems(1) t(1)]] t show ?thesis
      by (metis converse_rtranclp_into_rtranclp)
  qed blast
qed

text \<open>When all goroutines are done, those a stop waits for have exited.\<close>

lemma awaited_done:
  assumes "reachable_from True loadable b s" and "all_done s" and "set ids \<subseteq> set (awaited s)"
  shows "all_exited ids (d_sched s)"
proof -
  have "i < length (sc_procs (d_sched s))" if "i \<in> set ids" for i
    using that live_reachable [OF assms(1)] assms(3) by (auto simp: live_inv_def refs_valid_def)
  moreover from this have "p_phase (sc_procs (d_sched s) ! i) = Ph_Exited" if "i \<in> set ids" for i
    using that assms(2) by (simp add: all_done_iff phases_def)
  ultimately show ?thesis by (simp add: all_exited_def list_all_iff)
qed

text \<open>What is left after the pipeline has returned, and before it closes the channel.\<close>

lemma finish_done:
  assumes "alive s" and "d_main s = M_Waiting" and "d_pipe s = P_Done"
  shows "can_finish loadable s"
proof -
  have "can_finish loadable (s\<lparr>d_main := M_Closing\<rparr>)"
    using step.shutdown [of "s\<lparr>d_main := M_Closing\<rparr>" True loadable] assms(1) by (auto simp: can_finish_def alive_def)
  then show ?thesis by (rule can_finish_step [OF step.waited [OF assms]])
qed

lemma finish_closing:
  assumes "alive s" and "d_main s = M_Waiting" and "d_pipe s = P_Closing"
  shows "can_finish loadable s"
  using can_finish_step [OF step.close_results [OF assms(1,3)] finish_done] assms by (simp add: alive_def)

lemma finish_draining:
  assumes "alive s" and "d_main s = M_Waiting" and "d_pipe s = P_Draining"
  shows "can_finish loadable s"
  using assms
proof (induction "length (ch_buf (d_chan s))" arbitrary: s rule: less_induct)
  case less
  show ?case
  proof (cases "chan_recv (d_chan s)")
    case None
    have "can_finish loadable (s\<lparr>d_pipe := P_Closing\<rparr>)"
      by (rule finish_closing) (use less.prems in \<open>simp_all add: alive_def\<close>)
    then show ?thesis by (rule can_finish_step [OF step.drain_end [OF less.prems(1,3) None]])
  next
    case (Some rc)
    obtain r c where rc: "chan_recv (d_chan s) = Some (r, c)" using Some by (cases rc) auto
    have "can_finish loadable (s\<lparr>d_chan := c, d_dispatched := d_dispatched s @ [r]\<rparr>)"
      using less.prems results.recv_Some [OF rc] by (intro less.hyps) (auto simp: alive_def)
    then show ?thesis using can_finish_step [OF step.drain_one [OF less.prems(1,3) rc]] by blast
  qed
qed

lemma finish_waiting:
  assumes r: "reachable_from True loadable b s" and "d_main s = M_Waiting"
  shows "can_finish loadable s"
proof -
  have al: "alive s" using safe_reachable [OF r] assms(2) by (simp add: safe_inv_def alive_def)
  have "d_pipe s \<noteq> P_New" using live_reachable [OF r] assms(2) by (simp add: live_inv_def)
  then consider "d_pipe s = P_Running" | "d_pipe s = P_Draining" | "d_pipe s = P_Closing" | "d_pipe s = P_Done"
    by (cases "d_pipe s") auto
  then show ?thesis
  proof cases
    case 1
    have "can_finish loadable (s\<lparr>d_pipe := P_Draining\<rparr>)"
      by (rule finish_draining) (use al assms(2) in \<open>simp_all add: alive_def\<close>)
    then show ?thesis
      using can_finish_step [OF step.ctx_done [OF al 1]] assms(2) by (simp add: ctx_cancelled_def)
  next
    case 2
    then show ?thesis using finish_draining al assms(2) by blast
  next
    case 3
    then show ?thesis using finish_closing al assms(2) by blast
  next
    case 4
    then show ?thesis using finish_done al assms(2) by blast
  qed
qed

lemma finish_stopping:
  assumes r: "reachable_from True loadable b s" and m: "d_main s = M_Stopping ids"
  shows "can_finish loadable s"
proof -
  have "stopping s" using m by (simp add: stopping_def)
  then obtain t where t: "(step True loadable)\<^sup>*\<^sup>* s t" "all_done t" "d_main t = M_Stopping ids"
    using workers_finish [OF r] m by auto
  have rt: "reachable_from True loadable b t" using reachable_path [OF t(1) r] .
  have "alive t" using safe_reachable [OF rt] t(3) by (simp add: safe_inv_def alive_def)
  moreover have "all_exited ids (d_sched t)" by (rule awaited_done [OF rt t(2)]) (simp add: awaited_def t(3))
  ultimately have st: "step True loadable t (t\<lparr>d_main := M_Waiting\<rparr>)" using t(3) step.stopped by blast
  then have "can_finish loadable (t\<lparr>d_main := M_Waiting\<rparr>)"
    using finish_waiting [OF reachable_from.further [OF rt st]] by simp
  then show ?thesis using can_finish_steps [OF t(1) can_finish_step [OF st]] by blast
qed

lemma finish_running:
  assumes r: "reachable_from True loadable b s" and m: "d_main s = M_Running" and "d_reload s = R_Idle"
  shows "can_finish loadable s"
proof -
  have al: "alive s" using safe_reachable [OF r] m by (simp add: safe_inv_def alive_def)
  obtain ids sc where sc: "Stop_begin (d_sched s) = (ids, sc)" by (cases "Stop_begin (d_sched s)") auto
  have st: "step True loadable s (s\<lparr>d_main := M_Stopping ids, d_sched := sc\<rparr>)"
    by (rule step.signal [OF al m assms(3) sc])
  have "can_finish loadable (s\<lparr>d_main := M_Stopping ids, d_sched := sc\<rparr>)"
    by (rule finish_stopping [OF reachable_from.further [OF r st]]) simp
  then show ?thesis by (rule can_finish_step [OF st])
qed

lemma finish_reloading:
  assumes r: "reachable_from True loadable b s" and m: "d_main s = M_Running" and rl: "d_reload s = R_Stopping ids cfgs"
  shows "can_finish loadable s"
proof -
  have "stopping s" using rl by (simp add: stopping_def)
  then obtain t where t: "(step True loadable)\<^sup>*\<^sup>* s t" "all_done t" "d_main t = M_Running" "d_reload t = R_Stopping ids cfgs"
    using workers_finish [OF r] m rl by auto
  have rt: "reachable_from True loadable b t" using reachable_path [OF t(1) r] .
  have al: "alive t" using safe_reachable [OF rt] t(3) by (simp add: safe_inv_def alive_def)
  have ex: "all_exited ids (d_sched t)" by (rule awaited_done [OF rt t(2)]) (simp add: awaited_def t(3,4))
  note st = step.reload_start [OF al t(4) ex, of True loadable]
  have "can_finish loadable (t\<lparr>d_reload := R_Idle, d_sched := Start probeFactory cfgs (d_sched t)\<rparr>)"
    by (rule finish_running [OF reachable_from.further [OF rt st]]) (simp_all add: t(3))
  then show ?thesis by (rule can_finish_steps [OF t(1) can_finish_step [OF st]])
qed

lemma finish_starting:
  assumes r: "reachable_from True loadable b s" and m: "d_main s = M_PipeUp" and "loadable cfgs"
  shows "can_finish loadable s"
proof -
  have inv: "alive s" "d_reload s = R_Idle" using safe_reachable [OF r] m by (simp_all add: safe_inv_def alive_def)
  note st = step.sched_start [where loadable = loadable, OF inv(1) m assms(3), of True]
  have "can_finish loadable (s\<lparr>d_main := M_Running, d_sched := Start probeFactory cfgs (d_sched s)\<rparr>)"
    by (rule finish_running [OF reachable_from.further [OF r st]]) (simp_all add: inv)
  then show ?thesis by (rule can_finish_step [OF st])
qed

lemma finish_from_anywhere:
  assumes r: "reachable_from True loadable b s" and l: "loadable cfgs"
  shows "can_finish loadable s"
proof -
  have np: "\<not> d_panic s" using safe_reachable [OF r] by (simp add: safe_inv_def)
  have up: "can_finish loadable t" if t: "reachable_from True loadable b t" "d_main t = M_ServerUp" for t
  proof -
    have al: "alive t" using safe_reachable [OF t(1)] t(2) by (simp add: safe_inv_def alive_def)
    note st = step.pipe_start [OF al t(2), of True loadable]
    have "can_finish loadable (t\<lparr>d_main := M_PipeUp, d_pipe := P_Running\<rparr>)"
      by (rule finish_starting [OF reachable_from.further [OF t(1) st] _ l]) simp
    then show ?thesis by (rule can_finish_step [OF st])
  qed
  show ?thesis
  proof (cases "d_main s")
    case M_Init
    have al: "alive s" using np M_Init by (simp add: alive_def)
    note st = step.server_start [OF al M_Init, of True loadable]
    have "can_finish loadable (s\<lparr>d_main := M_ServerUp\<rparr>)" by (rule up [OF reachable_from.further [OF r st]]) simp
    then show ?thesis by (rule can_finish_step [OF st])
  next
    case M_ServerUp
    then show ?thesis by (rule up [OF r])
  next
    case M_PipeUp
    then show ?thesis by (rule finish_starting [OF r _ l])
  next
    case M_Running
    then show ?thesis using finish_running [OF r] finish_reloading [OF r] by (cases "d_reload s") auto
  next
    case (M_Stopping ids)
    then show ?thesis by (rule finish_stopping [OF r])
  next
    case M_Waiting
    then show ?thesis by (rule finish_waiting [OF r])
  next
    case M_Closing
    then show ?thesis using step.shutdown [of s True loadable] np by (auto simp: can_finish_def alive_def)
  next
    case M_Down
    then show ?thesis by (auto simp: can_finish_def)
  qed
qed

end

end
