(* ===== verification/Exporter_OTLP.thy ===== *)
theory Exporter_OTLP
  imports Config_Schema
begin

text \<open>
  \<^verbatim>\<open>internal/exporter/otlp\<close>: the instruments with the recording meter and its inventory, the
  construction of the exporter with its transport and TLS options, and the measurements that a
  probe result, a dropped result, an exporter error and a reload lead to. The OpenTelemetry SDK is
  outside: creating an instrument or registering a callback may fail as the record \<open>meter\<close> says,
  and what \<^verbatim>\<open>Export\<close> hands to the SDK is the list of its calls, in order. An instrument handle is
  the description under which it was created.
\<close>

subsection \<open>Instruments\<close>

record InstrumentInfo =
  ii_Name :: string
  ii_Kind :: string
  ii_Unit :: string
  ii_Description :: string

record meter =
  mt_create :: "InstrumentInfo \<Rightarrow> string option"
  mt_callback :: "InstrumentInfo \<Rightarrow> string option"

text \<open>
  The constructors of the recording meter, by what they note down, and the common part of the four:
  on success the instrument joins the inventory.
\<close>

definition Float64Gauge :: "string \<Rightarrow> string \<Rightarrow> string \<Rightarrow> InstrumentInfo" where
  "Float64Gauge n u d = \<lparr>ii_Name = n, ii_Kind = ''Float64Gauge'', ii_Unit = u, ii_Description = d\<rparr>"

definition Int64Gauge :: "string \<Rightarrow> string \<Rightarrow> string \<Rightarrow> InstrumentInfo" where
  "Int64Gauge n u d = \<lparr>ii_Name = n, ii_Kind = ''Int64Gauge'', ii_Unit = u, ii_Description = d\<rparr>"

definition Int64Counter :: "string \<Rightarrow> string \<Rightarrow> string \<Rightarrow> InstrumentInfo" where
  "Int64Counter n u d = \<lparr>ii_Name = n, ii_Kind = ''Int64Counter'', ii_Unit = u, ii_Description = d\<rparr>"

definition Int64ObservableGauge :: "string \<Rightarrow> string \<Rightarrow> string \<Rightarrow> InstrumentInfo" where
  "Int64ObservableGauge n u d =
     \<lparr>ii_Name = n, ii_Kind = ''Int64ObservableGauge'', ii_Unit = u, ii_Description = d\<rparr>"

definition recording_create ::
  "meter \<Rightarrow> InstrumentInfo \<Rightarrow> InstrumentInfo list \<Rightarrow> string + InstrumentInfo \<times> InstrumentInfo list" where
  "recording_create m inst known =
     (case mt_create m inst of Some err \<Rightarrow> Inl err | None \<Rightarrow> Inr (inst, known @ [inst]))"

text \<open>The instruments, in the order of \<^verbatim>\<open>registerInstruments\<close>.\<close>

definition rttMin_inst :: InstrumentInfo where
  "rttMin_inst = Float64Gauge ''trimon.probe.rtt.min'' ''ms''
     ''Minimum ICMP round-trip time over the last probe run; NaN on failure/error and for HTTP probes''"

definition rttMean_inst :: InstrumentInfo where
  "rttMean_inst = Float64Gauge ''trimon.probe.rtt.mean'' ''ms''
     ''Mean ICMP round-trip time over the last probe run; NaN on failure/error and for HTTP probes''"

definition rttMax_inst :: InstrumentInfo where
  "rttMax_inst = Float64Gauge ''trimon.probe.rtt.max'' ''ms''
     ''Maximum ICMP round-trip time over the last probe run; NaN on failure/error and for HTTP probes''"

definition rttStddev_inst :: InstrumentInfo where
  "rttStddev_inst = Float64Gauge ''trimon.probe.rtt.stddev'' ''ms''
     ''Standard deviation of ICMP round-trip time over the last probe run; NaN on failure/error and for HTTP probes''"

definition packetLoss_inst :: InstrumentInfo where
  "packetLoss_inst = Float64Gauge ''trimon.probe.packet_loss'' ''ratio''
     ''Fraction of packets with no reply in the last run; 1.0 on failure, NaN on error''"

definition httpDuration_inst :: InstrumentInfo where
  "httpDuration_inst = Float64Gauge ''trimon.probe.duration'' ''ms''
     ''HTTP wall-clock duration from request start to body drain; NaN when no response received or for non-HTTP probes''"

definition portOpen_inst :: InstrumentInfo where
  "portOpen_inst = Float64Gauge ''trimon.probe.port_open'' []
     ''TCP & UDP port reachability; 1 open, 0 closed/no-reply, NaN for other probe types or error''"

definition success_inst :: InstrumentInfo where
  "success_inst = Int64Gauge ''trimon.probe.success'' []
     ''1 only when status=success (all packets replied), else 0''"

definition probeUp_inst :: InstrumentInfo where
  "probeUp_inst = Int64Gauge ''trimon.probe.up'' []
     ''1 when status=success or partial (at least one reply), else 0''"

definition pktSent_inst :: InstrumentInfo where
  "pktSent_inst = Int64Counter ''trimon.probe.packets_sent'' ''{packets}''
     ''Packets sent per probe run; not incremented on error''"

definition pktReceived_inst :: InstrumentInfo where
  "pktReceived_inst = Int64Counter ''trimon.probe.packets_received'' ''{packets}''
     ''Packets received per probe run; not incremented on error''"

definition probeRuns_inst :: InstrumentInfo where
  "probeRuns_inst = Int64Counter ''trimon.probe.runs'' ''{runs}''
     ''Total probe runs, labelled by probe.name''"

definition probeErrors_inst :: InstrumentInfo where
  "probeErrors_inst = Int64Counter ''trimon.probe.errors'' ''{errors}''
     ''Total probe errors, labelled by probe.name and error.type''"

definition resultsDropped_inst :: InstrumentInfo where
  "resultsDropped_inst = Int64Counter ''trimon.probe.results_dropped'' ''{results}''
     ''Results dropped when the pipeline buffer is full, labelled by probe.name''"

definition exporterErrors_inst :: InstrumentInfo where
  "exporterErrors_inst = Int64Counter ''trimon.exporter.errors'' ''{errors}''
     ''Exporter failures to ship a result, labelled by exporter.name''"

definition configReloads_inst :: InstrumentInfo where
  "configReloads_inst = Int64Counter ''trimon.config.reloads'' ''{reloads}''
     ''Total configuration reloads''"

definition buildInfo_inst :: InstrumentInfo where
  "buildInfo_inst = Int64ObservableGauge ''trimon.build.info'' []
     ''Build metadata as labels (version, commit, goversion); value is always 1''"

definition goroutines_inst :: InstrumentInfo where
  "goroutines_inst = Int64ObservableGauge ''trimon.scheduler.goroutines'' ''{goroutines}''
     ''Live scheduler goroutine count, observed on each scrape''"

lemmas inst_defs = rttMin_inst_def rttMean_inst_def rttMax_inst_def rttStddev_inst_def
  packetLoss_inst_def httpDuration_inst_def portOpen_inst_def success_inst_def probeUp_inst_def
  pktSent_inst_def pktReceived_inst_def probeRuns_inst_def probeErrors_inst_def
  resultsDropped_inst_def exporterErrors_inst_def configReloads_inst_def buildInfo_inst_def
  goroutines_inst_def

lemmas kind_defs = Float64Gauge_def Int64Gauge_def Int64Counter_def Int64ObservableGauge_def

text \<open>The readers that the meter provider is built with, and their transports.\<close>

record tls_Config =
  tc_MinVersion :: string
  tc_Certificates :: "string list"
  tc_RootCAs :: "string option"

datatype otlp_option = WithEndpoint string | WithRetry bool duration | WithInsecure | WithTLS tls_Config
datatype transport = OTLP_grpc "otlp_option list" | OTLP_http "otlp_option list"
datatype reader = Prometheus_bridge | Periodic_reader transport duration duration

text \<open>The exporter: one handle per instrument, the inventory, the readers, the shutdown timeout.\<close>

record Exporter =
  ox_rttMin :: InstrumentInfo
  ox_rttMean :: InstrumentInfo
  ox_rttMax :: InstrumentInfo
  ox_rttStddev :: InstrumentInfo
  ox_packetLoss :: InstrumentInfo
  ox_httpDuration :: InstrumentInfo
  ox_portOpen :: InstrumentInfo
  ox_success :: InstrumentInfo
  ox_probeUp :: InstrumentInfo
  ox_pktSent :: InstrumentInfo
  ox_pktReceived :: InstrumentInfo
  ox_probeRuns :: InstrumentInfo
  ox_probeErrors :: InstrumentInfo
  ox_resultsDropped :: InstrumentInfo
  ox_exporterErrors :: InstrumentInfo
  ox_configReloads :: InstrumentInfo
  ox_buildInfo :: InstrumentInfo
  ox_goroutines :: InstrumentInfo
  ox_instruments :: "InstrumentInfo list"
  ox_readers :: "reader list"
  ox_shutdownTimeout :: duration

text \<open>The handle of an interface field that is still nil.\<close>

definition nil_instrument :: InstrumentInfo where
  "nil_instrument = \<lparr>ii_Name = [], ii_Kind = [], ii_Unit = [], ii_Description = []\<rparr>"

definition empty_exporter :: "reader list \<Rightarrow> duration \<Rightarrow> Exporter" where
  "empty_exporter readers timeout = \<lparr>
     ox_rttMin = nil_instrument, ox_rttMean = nil_instrument, ox_rttMax = nil_instrument,
     ox_rttStddev = nil_instrument, ox_packetLoss = nil_instrument, ox_httpDuration = nil_instrument,
     ox_portOpen = nil_instrument, ox_success = nil_instrument, ox_probeUp = nil_instrument,
     ox_pktSent = nil_instrument, ox_pktReceived = nil_instrument, ox_probeRuns = nil_instrument,
     ox_probeErrors = nil_instrument, ox_resultsDropped = nil_instrument, ox_exporterErrors = nil_instrument,
     ox_configReloads = nil_instrument, ox_buildInfo = nil_instrument, ox_goroutines = nil_instrument,
     ox_instruments = [], ox_readers = readers, ox_shutdownTimeout = timeout\<rparr>"

text \<open>One assignment of \<^verbatim>\<open>registerInstruments\<close>: create the instrument and store its handle.\<close>

definition register :: "meter \<Rightarrow> InstrumentInfo \<Rightarrow> (InstrumentInfo \<Rightarrow> Exporter \<Rightarrow> Exporter)
    \<Rightarrow> Exporter \<Rightarrow> string + Exporter" where
  "register m info store e =
     (case recording_create m info (ox_instruments e) of
        Inl err \<Rightarrow> Inl err
      | Inr (inst, known) \<Rightarrow> Inr (store inst (e\<lparr>ox_instruments := known\<rparr>)))"

definition register_callback :: "meter \<Rightarrow> (Exporter \<Rightarrow> InstrumentInfo) \<Rightarrow> Exporter \<Rightarrow> string + Exporter" where
  "register_callback m inst e = (case mt_callback m (inst e) of Some err \<Rightarrow> Inl err | None \<Rightarrow> Inr e)"

fun run_steps :: "('s \<Rightarrow> 'e + 's) list \<Rightarrow> 's \<Rightarrow> 'e + 's" where
  "run_steps [] s = Inr s"
| "run_steps (f # fs) s = res_bind (f s) (run_steps fs)"

definition registerInstruments :: "meter \<Rightarrow> Exporter \<Rightarrow> string + Exporter" where
  "registerInstruments m = run_steps [
     register m rttMin_inst (\<lambda>i e. e\<lparr>ox_rttMin := i\<rparr>),
     register m rttMean_inst (\<lambda>i e. e\<lparr>ox_rttMean := i\<rparr>),
     register m rttMax_inst (\<lambda>i e. e\<lparr>ox_rttMax := i\<rparr>),
     register m rttStddev_inst (\<lambda>i e. e\<lparr>ox_rttStddev := i\<rparr>),
     register m packetLoss_inst (\<lambda>i e. e\<lparr>ox_packetLoss := i\<rparr>),
     register m httpDuration_inst (\<lambda>i e. e\<lparr>ox_httpDuration := i\<rparr>),
     register m portOpen_inst (\<lambda>i e. e\<lparr>ox_portOpen := i\<rparr>),
     register m success_inst (\<lambda>i e. e\<lparr>ox_success := i\<rparr>),
     register m probeUp_inst (\<lambda>i e. e\<lparr>ox_probeUp := i\<rparr>),
     register m pktSent_inst (\<lambda>i e. e\<lparr>ox_pktSent := i\<rparr>),
     register m pktReceived_inst (\<lambda>i e. e\<lparr>ox_pktReceived := i\<rparr>),
     register m probeRuns_inst (\<lambda>i e. e\<lparr>ox_probeRuns := i\<rparr>),
     register m probeErrors_inst (\<lambda>i e. e\<lparr>ox_probeErrors := i\<rparr>),
     register m resultsDropped_inst (\<lambda>i e. e\<lparr>ox_resultsDropped := i\<rparr>),
     register m exporterErrors_inst (\<lambda>i e. e\<lparr>ox_exporterErrors := i\<rparr>),
     register m configReloads_inst (\<lambda>i e. e\<lparr>ox_configReloads := i\<rparr>),
     register m buildInfo_inst (\<lambda>i e. e\<lparr>ox_buildInfo := i\<rparr>),
     register_callback m ox_buildInfo,
     register m goroutines_inst (\<lambda>i e. e\<lparr>ox_goroutines := i\<rparr>),
     register_callback m ox_goroutines]"

text \<open>\<^verbatim>\<open>Instruments\<close> returns a copy of the inventory.\<close>

definition Instruments :: "Exporter \<Rightarrow> InstrumentInfo list" where
  "Instruments e = ox_instruments e"

subsection \<open>Transport and TLS\<close>

record otlp_env =
  oe_LoadX509KeyPair :: "string \<Rightarrow> string \<Rightarrow> string + string"
  oe_ReadFile :: "string \<Rightarrow> string + string"
  oe_AppendCertsFromPEM :: "string \<Rightarrow> string option"
  oe_newTransport :: "transport \<Rightarrow> string option"
  oe_resource :: "string option"
  oe_prometheus :: "string option"
  oe_meter :: meter

definition buildTLSConfig :: "otlp_env \<Rightarrow> OTLPTLSConfig \<Rightarrow> string + tls_Config" where
  "buildTLSConfig env tlsCfg =
     res_bind (if tls_CertFile tlsCfg \<noteq> []
               then res_bind (prefix_err ''otlp: load cert/key: ''
                      (oe_LoadX509KeyPair env (tls_CertFile tlsCfg) (tls_KeyFile tlsCfg))) (\<lambda>cert. Inr [cert])
               else Inr []) (\<lambda>certs.
     res_bind (if tls_CAFile tlsCfg \<noteq> []
               then res_bind (prefix_err ''otlp: read CA file: '' (oe_ReadFile env (tls_CAFile tlsCfg))) (\<lambda>ca.
                      case oe_AppendCertsFromPEM env ca of
                        None \<Rightarrow> Inl (''otlp: no valid CA certs in '' @ Quote (tls_CAFile tlsCfg))
                      | Some pool \<Rightarrow> Inr (Some pool))
               else Inr None) (\<lambda>pool.
     Inr \<lparr>tc_MinVersion = ''TLS 1.2'', tc_Certificates = certs, tc_RootCAs = pool\<rparr>))"

text \<open>The options that \<^verbatim>\<open>buildGRPC\<close> and \<^verbatim>\<open>buildHTTP\<close> collect; the two differ in the transport only.\<close>

definition transport_options :: "otlp_env \<Rightarrow> OTLPExporterConfig \<Rightarrow> string + otlp_option list" where
  "transport_options env cfg =
     (let opts = [WithEndpoint (o_Endpoint cfg), WithRetry (rt_Enabled (o_Retry cfg)) (rt_MaxElapsedTime (o_Retry cfg))]
      in if o_Insecure cfg then Inr (opts @ [WithInsecure])
         else if tls_CertFile (o_TLS cfg) \<noteq> []
         then res_bind (buildTLSConfig env (o_TLS cfg)) (\<lambda>c. Inr (opts @ [WithTLS c]))
         else Inr opts)"

definition open_transport :: "otlp_env \<Rightarrow> transport \<Rightarrow> string + transport" where
  "open_transport env t = (case oe_newTransport env t of Some err \<Rightarrow> Inl err | None \<Rightarrow> Inr t)"

definition buildGRPC :: "otlp_env \<Rightarrow> OTLPExporterConfig \<Rightarrow> string + transport" where
  "buildGRPC env cfg = res_bind (transport_options env cfg) (\<lambda>opts. open_transport env (OTLP_grpc opts))"

definition buildHTTP :: "otlp_env \<Rightarrow> OTLPExporterConfig \<Rightarrow> string + transport" where
  "buildHTTP env cfg = res_bind (transport_options env cfg) (\<lambda>opts. open_transport env (OTLP_http opts))"

definition buildExporter :: "otlp_env \<Rightarrow> OTLPExporterConfig \<Rightarrow> string + transport" where
  "buildExporter env cfg =
     (if o_Protocol cfg = ''grpc'' then buildGRPC env cfg
      else if o_Protocol cfg = ''http'' then buildHTTP env cfg
      else Inl (''unsupported protocol '' @ Quote (o_Protocol cfg)))"

definition err_opt :: "string \<Rightarrow> string option \<Rightarrow> string + unit" where
  "err_opt ctx e = (case e of Some err \<Rightarrow> Inl (ctx @ err) | None \<Rightarrow> Inr ())"

definition otlp_New :: "otlp_env \<Rightarrow> OTLPExporterConfig \<Rightarrow> string + Exporter" where
  "otlp_New env cfg =
     res_bind (err_opt ''otlp: build resource: '' (oe_resource env)) (\<lambda>_.
     res_bind (err_opt ''otlp: build prometheus bridge: '' (oe_prometheus env)) (\<lambda>_.
     res_bind (if o_Enabled cfg
               then res_bind (prefix_err ''otlp: build OTLP exporter: '' (buildExporter env cfg)) (\<lambda>t.
                      Inr [Periodic_reader t (b_ExportInterval (o_Batch cfg)) (b_ExportTimeout (o_Batch cfg))])
               else Inr []) (\<lambda>readers.
     prefix_err ''otlp: register instruments: ''
       (registerInstruments (oe_meter env)
          (empty_exporter (Prometheus_bridge # readers) (o_ShutdownTimeout cfg))))))"

subsection \<open>Measurements\<close>

type_synonym attrs = "(string \<times> string) list"

datatype measurement =
  M_Add InstrumentInfo int attrs
| M_Float InstrumentInfo float64 attrs
| M_Int InstrumentInfo int attrs

definition otlp_Name :: string where
  "otlp_Name = ''otlp''"

definition RecordConfigReload :: "Exporter \<Rightarrow> measurement list" where
  "RecordConfigReload e = [M_Add (ox_configReloads e) 1 []]"

definition RecordDroppedResult :: "Exporter \<Rightarrow> string \<Rightarrow> measurement list" where
  "RecordDroppedResult e probeName = [M_Add (ox_resultsDropped e) 1 [(''probe.name'', probeName)]]"

definition RecordExporterError :: "Exporter \<Rightarrow> string \<Rightarrow> measurement list" where
  "RecordExporterError e exporterName = [M_Add (ox_exporterErrors e) 1 [(''exporter.name'', exporterName)]]"

text \<open>What the two callbacks observe on a scrape; \<open>None\<close> when no getter is set.\<close>

definition observe :: "Exporter \<Rightarrow> string \<Rightarrow> string \<Rightarrow> string \<Rightarrow> int option \<Rightarrow> measurement list" where
  "observe e version commit goversion getGoroutines =
     [M_Int (ox_buildInfo e) 1 [(''version'', version), (''commit'', commit), (''goversion'', goversion)],
      M_Int (ox_goroutines e) (case getGoroutines of None \<Rightarrow> 0 | Some n \<Rightarrow> n) []]"

definition orNaN :: "float64 option \<Rightarrow> float64" where
  "orNaN p = (case p of None \<Rightarrow> NaN | Some x \<Rightarrow> x)"

definition portOpenValue :: "bool option \<Rightarrow> float64" where
  "portOpenValue p = (case p of None \<Rightarrow> NaN | Some b \<Rightarrow> if b then Fin 1 else Fin 0)"

definition buildAttrs :: "ProbeResult \<Rightarrow> attrs" where
  "buildAttrs r =
     [(''probe.name'', pr_ProbeName r), (''probe.type'', pr_ProbeType r),
      (''probe.target'', pr_Target r), (''probe.source_ip'', pr_SourceIP r)] @
     (if pr_FQDN r \<noteq> [] then [(''probe.fqdn'', pr_FQDN r)] else []) @
     (case pr_Labels r of None \<Rightarrow> [] | Some kvs \<Rightarrow> kvs)"

definition otlp_Export :: "Exporter \<Rightarrow> ProbeResult \<Rightarrow> measurement list" where
  "otlp_Export e r =
     (let probeAttrs = buildAttrs r;
          upVal = (if IsUp (pr_Status r) then 1 else 0);
          successVal = (if IsUp (pr_Status r) \<and> IsSuccess (pr_Status r) then 1 else 0);
          m = measured r;
          (rttMin, rttMean, rttMax, rttStddev) =
            (case m_RTT m of
               None \<Rightarrow> (NaN, NaN, NaN, NaN)
             | Some t \<Rightarrow> (MinMS t, MeanMS t, MaxMS t, StddevMS t))
      in M_Add (ox_probeRuns e) 1 [(''probe.name'', pr_ProbeName r)] #
         (if \<not> IsError (pr_Status r)
          then [M_Add (ox_pktSent e) (pr_PacketsSent r) probeAttrs,
                M_Add (ox_pktReceived e) (pr_PacketsReceived r) probeAttrs]
          else [M_Add (ox_probeErrors e) 1
                  [(''probe.name'', pr_ProbeName r),
                   (''error.type'', if pr_ErrorType r = [] then ''unknown'' else pr_ErrorType r)]]) @
         [M_Float (ox_rttMin e) rttMin probeAttrs, M_Float (ox_rttMean e) rttMean probeAttrs,
          M_Float (ox_rttMax e) rttMax probeAttrs, M_Float (ox_rttStddev e) rttStddev probeAttrs,
          M_Float (ox_packetLoss e) (orNaN (m_Loss m)) probeAttrs,
          M_Int (ox_success e) successVal probeAttrs, M_Int (ox_probeUp e) upVal probeAttrs,
          M_Float (ox_httpDuration e) (orNaN (m_Duration m)) probeAttrs,
          M_Float (ox_portOpen e) (portOpenValue (m_PortOpen m)) probeAttrs])"

text \<open>
  \<^verbatim>\<open>Close\<close>: an error of the flush is only logged, the error of the shutdown is returned; the flush
  always comes first.
\<close>

definition otlp_Close :: "('s \<Rightarrow> string option \<times> 's) \<Rightarrow> ('s \<Rightarrow> string option \<times> 's) \<Rightarrow> 's
    \<Rightarrow> string list \<times> string option \<times> 's" where
  "otlp_Close ForceFlush Shutdown s =
     (let (err, s1) = ForceFlush s; (err2, s2) = Shutdown s1
      in (case err of Some e \<Rightarrow> [''otlp: force flush error: '' @ e] | None \<Rightarrow> [], err2, s2))"

subsection \<open>Lemmas on the registration\<close>

text \<open>The handles in the order of their registration.\<close>

definition handles :: "Exporter \<Rightarrow> InstrumentInfo list" where
  "handles e = [ox_rttMin e, ox_rttMean e, ox_rttMax e, ox_rttStddev e, ox_packetLoss e, ox_httpDuration e,
     ox_portOpen e, ox_success e, ox_probeUp e, ox_pktSent e, ox_pktReceived e, ox_probeRuns e, ox_probeErrors e,
     ox_resultsDropped e, ox_exporterErrors e, ox_configReloads e, ox_buildInfo e, ox_goroutines e]"

definition instrument_table :: "InstrumentInfo list" where
  "instrument_table = [rttMin_inst, rttMean_inst, rttMax_inst, rttStddev_inst, packetLoss_inst, httpDuration_inst,
     portOpen_inst, success_inst, probeUp_inst, pktSent_inst, pktReceived_inst, probeRuns_inst,
     probeErrors_inst, resultsDropped_inst, exporterErrors_inst, configReloads_inst, buildInfo_inst,
     goroutines_inst]"

definition handle_names :: "string list" where
  "handle_names = [''trimon.probe.rtt.min'', ''trimon.probe.rtt.mean'', ''trimon.probe.rtt.max'',
     ''trimon.probe.rtt.stddev'', ''trimon.probe.packet_loss'', ''trimon.probe.duration'',
     ''trimon.probe.port_open'', ''trimon.probe.success'', ''trimon.probe.up'', ''trimon.probe.packets_sent'',
     ''trimon.probe.packets_received'', ''trimon.probe.runs'', ''trimon.probe.errors'',
     ''trimon.probe.results_dropped'', ''trimon.exporter.errors'', ''trimon.config.reloads'',
     ''trimon.build.info'', ''trimon.scheduler.goroutines'']"

lemma register_Inr:
  "register m info store e = Inr e1 \<longleftrightarrow>
     mt_create m info = None \<and> e1 = store info (e\<lparr>ox_instruments := ox_instruments e @ [info]\<rparr>)"
  by (auto simp: register_def recording_create_def split: option.splits)

lemma register_callback_Inr: "register_callback m inst e = Inr e1 \<longleftrightarrow> mt_callback m (inst e) = None \<and> e1 = e"
  by (auto simp: register_callback_def split: option.splits)

lemma run_steps_Inr:
  "run_steps [] s = Inr t \<longleftrightarrow> t = s"
  "run_steps (f # fs) s = Inr t \<longleftrightarrow> (\<exists>u. f s = Inr u \<and> run_steps fs u = Inr t)"
  by auto

lemma registerInstruments_table:
  assumes "registerInstruments m e = Inr e1"
  shows "handles e1 = instrument_table" and "ox_instruments e1 = ox_instruments e @ instrument_table"
    and "ox_readers e1 = ox_readers e"
  using assms unfolding registerInstruments_def run_steps_Inr register_Inr register_callback_Inr
  by (elim exE conjE, simp add: handles_def instrument_table_def)+

lemma instrument_names: "map ii_Name instrument_table = handle_names"
  by (simp add: instrument_table_def handle_names_def inst_defs kind_defs)

lemma handle_names_distinct: "distinct handle_names"
  by code_simp

lemma instrument_table_distinct: "distinct instrument_table"
  using handle_names_distinct distinct_map instrument_names by metis

lemma otlp_New_table:
  assumes "otlp_New env cfg = Inr e"
  shows "handles e = instrument_table" and "Instruments e = instrument_table"
    and "\<exists>rs. ox_readers e = Prometheus_bridge # rs \<and> (o_Enabled cfg \<longleftrightarrow> rs \<noteq> []) \<and> length rs \<le> 1"
proof -
  obtain rs where rs: "registerInstruments (oe_meter env)
      (empty_exporter (Prometheus_bridge # rs) (o_ShutdownTimeout cfg)) = Inr e"
    and "(o_Enabled cfg \<longleftrightarrow> rs \<noteq> []) \<and> length rs \<le> 1"
    using assms by (auto simp: otlp_New_def err_opt_def split: if_splits option.splits)
  with registerInstruments_table [OF rs] show "handles e = instrument_table" "Instruments e = instrument_table"
    "\<exists>rs. ox_readers e = Prometheus_bridge # rs \<and> (o_Enabled cfg \<longleftrightarrow> rs \<noteq> []) \<and> length rs \<le> 1"
    by (simp_all add: Instruments_def empty_exporter_def)
qed

text \<open>The handles of a new exporter are pairwise different.\<close>

lemma handles_differ:
  assumes "otlp_New env cfg = Inr e"
  shows "distinct (handles e)"
  using otlp_New_table(1) [OF assms] instrument_table_distinct by simp

subsection \<open>Reading the measurements\<close>

text \<open>
  What a backend holds after a list of measurements: the sum of a counter over all attribute sets,
  and the last value of a gauge.
\<close>

fun counter_total :: "InstrumentInfo \<Rightarrow> measurement list \<Rightarrow> int" where
  "counter_total inst [] = 0"
| "counter_total inst (M_Add i n a # ms) = (if i = inst then n else 0) + counter_total inst ms"
| "counter_total inst (m # ms) = counter_total inst ms"

fun gauge_float :: "InstrumentInfo \<Rightarrow> measurement list \<Rightarrow> float64 option" where
  "gauge_float inst [] = None"
| "gauge_float inst (M_Float i x a # ms) =
     (case gauge_float inst ms of Some y \<Rightarrow> Some y | None \<Rightarrow> if i = inst then Some x else None)"
| "gauge_float inst (m # ms) = gauge_float inst ms"

fun gauge_int :: "InstrumentInfo \<Rightarrow> measurement list \<Rightarrow> int option" where
  "gauge_int inst [] = None"
| "gauge_int inst (M_Int i x a # ms) =
     (case gauge_int inst ms of Some y \<Rightarrow> Some y | None \<Rightarrow> if i = inst then Some x else None)"
| "gauge_int inst (m # ms) = gauge_int inst ms"

fun m_inst :: "measurement \<Rightarrow> InstrumentInfo" where
  "m_inst (M_Add i _ _) = i"
| "m_inst (M_Float i _ _) = i"
| "m_inst (M_Int i _ _) = i"

lemma counter_total_append: "counter_total inst (xs @ ys) = counter_total inst xs + counter_total inst ys"
  by (induction inst xs rule: counter_total.induct) auto

lemma Export_insts: "m \<in> set (otlp_Export e r) \<Longrightarrow> m_inst m \<in> set (handles e)"
  by (auto simp: otlp_Export_def handles_def Let_def split: if_splits prod.splits)

text \<open>The counters and the gauges differ among themselves; the reversed lists turn the inequalities around.\<close>

lemma counters_differ:
  assumes "distinct (handles e)"
  shows "distinct [ox_pktSent e, ox_pktReceived e, ox_probeRuns e, ox_probeErrors e]"
    and "distinct [ox_probeErrors e, ox_probeRuns e, ox_pktReceived e, ox_pktSent e]"
proof -
  show d: "distinct [ox_pktSent e, ox_pktReceived e, ox_probeRuns e, ox_probeErrors e]"
    using assms by (simp add: handles_def)
  show "distinct [ox_probeErrors e, ox_probeRuns e, ox_pktReceived e, ox_pktSent e]"
    using distinct_rev [of "[ox_pktSent e, ox_pktReceived e, ox_probeRuns e, ox_probeErrors e]"] d
    by (simp only: rev.simps append.simps)
qed

lemma gauges_differ:
  assumes "distinct (handles e)"
  shows "distinct [ox_rttMin e, ox_rttMean e, ox_rttMax e, ox_rttStddev e, ox_packetLoss e, ox_httpDuration e, ox_portOpen e]"
    and "distinct [ox_portOpen e, ox_httpDuration e, ox_packetLoss e, ox_rttStddev e, ox_rttMax e, ox_rttMean e, ox_rttMin e]"
    and "distinct [ox_success e, ox_probeUp e]" and "distinct [ox_probeUp e, ox_success e]"
proof -
  show d: "distinct [ox_rttMin e, ox_rttMean e, ox_rttMax e, ox_rttStddev e, ox_packetLoss e, ox_httpDuration e, ox_portOpen e]"
    and i: "distinct [ox_success e, ox_probeUp e]"
    using assms by (simp_all add: handles_def)
  show "distinct [ox_portOpen e, ox_httpDuration e, ox_packetLoss e, ox_rttStddev e, ox_rttMax e, ox_rttMean e, ox_rttMin e]"
    "distinct [ox_probeUp e, ox_success e]"
    using distinct_rev [of "[ox_rttMin e, ox_rttMean e, ox_rttMax e, ox_rttStddev e, ox_packetLoss e, ox_httpDuration e, ox_portOpen e]"] d
      distinct_rev [of "[ox_success e, ox_probeUp e]"] i
    by (simp_all only: rev.simps append.simps)
qed

lemma Export_counters:
  assumes "distinct (handles e)"
  shows "counter_total (ox_probeRuns e) (otlp_Export e r) = 1"
    and "counter_total (ox_probeErrors e) (otlp_Export e r) = (if IsError (pr_Status r) then 1 else 0)"
    and "counter_total (ox_pktSent e) (otlp_Export e r) = (if IsError (pr_Status r) then 0 else pr_PacketsSent r)"
    and "counter_total (ox_pktReceived e) (otlp_Export e r) =
      (if IsError (pr_Status r) then 0 else pr_PacketsReceived r)"
  using counters_differ [OF assms] by (simp_all add: otlp_Export_def Let_def split: prod.split)

text \<open>The attributes of a series: of several values for a key the last one counts.\<close>

definition attr_value :: "attrs \<Rightarrow> string \<Rightarrow> string option" where
  "attr_value kvs k = map_of (rev kvs) k"

definition reserved_keys :: "string list" where
  "reserved_keys = [''probe.name'', ''probe.type'', ''probe.target'', ''probe.source_ip'', ''probe.fqdn'']"

definition label_list :: "ProbeResult \<Rightarrow> attrs" where
  "label_list r = (case pr_Labels r of None \<Rightarrow> [] | Some kvs \<Rightarrow> kvs)"

definition base_attrs :: "ProbeResult \<Rightarrow> attrs" where
  "base_attrs r = [(''probe.name'', pr_ProbeName r), (''probe.type'', pr_ProbeType r),
     (''probe.target'', pr_Target r), (''probe.source_ip'', pr_SourceIP r)] @
     (if pr_FQDN r \<noteq> [] then [(''probe.fqdn'', pr_FQDN r)] else [])"

lemma buildAttrs_split: "buildAttrs r = base_attrs r @ label_list r"
  by (simp add: buildAttrs_def base_attrs_def label_list_def)

lemma attr_value_append: "attr_value (a @ b) k = (case attr_value b k of None \<Rightarrow> attr_value a k | Some v \<Rightarrow> Some v)"
  by (simp add: attr_value_def map_add_def split: option.split)

lemma attr_value_absent: "k \<notin> fst ` set kvs \<Longrightarrow> attr_value kvs k = None"
  unfolding attr_value_def by (subst map_of_eq_None_iff) simp

lemma base_attrs_keys: "fst ` set (base_attrs r) \<subseteq> set reserved_keys"
  by (auto simp: base_attrs_def reserved_keys_def split: if_splits)

text \<open>The reserved keys keep the values of the result as long as no label uses them.\<close>

definition labels_apart :: "ProbeResult \<Rightarrow> bool" where
  "labels_apart r \<longleftrightarrow> list_all (\<lambda>(k, v). k \<notin> set reserved_keys) (label_list r)"

lemma attr_reserved:
  assumes "labels_apart r" and "k \<in> set reserved_keys"
  shows "attr_value (buildAttrs r) k = attr_value (base_attrs r) k"
proof -
  have "attr_value (label_list r) k = None"
    using assms by (intro attr_value_absent) (auto simp: labels_apart_def list_all_iff)
  then show ?thesis by (simp add: buildAttrs_split attr_value_append)
qed

lemma attr_other: "k \<notin> set reserved_keys \<Longrightarrow> attr_value (buildAttrs r) k = attr_value (label_list r) k"
  using base_attrs_keys [of r] attr_value_absent [of k "base_attrs r"]
  by (auto simp: buildAttrs_split attr_value_append split: option.split)

lemma base_attrs_inj:
  "(\<forall>k \<in> set reserved_keys. attr_value (base_attrs r) k = attr_value (base_attrs q) k) \<longleftrightarrow>
     result_id r = result_id q \<and> pr_SourceIP r = pr_SourceIP q"
  by (simp add: reserved_keys_def attr_value_def base_attrs_def result_id_def) auto

subsection \<open>Properties\<close>

text \<open>
  C33. The inventory is complete: an exporter that was built lists exactly its instruments, in the
  order of registration, no two under one name, and every measurement that the exporter hands to
  the SDK for a result is on one of them; the Prometheus bridge is always among the readers, and a
  second reader exactly when OTLP is enabled.
\<close>

theorem inventory_complete:
  assumes "otlp_New env cfg = Inr e"
  shows "Instruments e = handles e \<and> distinct (map ii_Name (Instruments e)) \<and>
    set (map m_inst (otlp_Export e r)) \<subseteq> set (Instruments e) \<and>
    hd (ox_readers e) = Prometheus_bridge \<and> length (ox_readers e) = (if o_Enabled cfg then 2 else 1)"
proof -
  obtain rs where rs: "ox_readers e = Prometheus_bridge # rs" "o_Enabled cfg \<longleftrightarrow> rs \<noteq> []" "length rs \<le> 1"
    using otlp_New_table(3) [OF assms] by blast
  then have "length rs = (if o_Enabled cfg then 1 else 0)" by (cases rs) auto
  with rs otlp_New_table(1,2) [OF assms] handle_names_distinct Export_insts [of _ e r] show ?thesis
    by (auto simp: instrument_names)
qed

definition example_otlp_env :: otlp_env where
  "example_otlp_env = \<lparr>oe_LoadX509KeyPair = (\<lambda>c k. Inl ''no such file''), oe_ReadFile = (\<lambda>f. Inr []),
     oe_AppendCertsFromPEM = Some, oe_newTransport = (\<lambda>t. None), oe_resource = None, oe_prometheus = None,
     oe_meter = \<lparr>mt_create = (\<lambda>i. None), mt_callback = (\<lambda>i. None)\<rparr>\<rparr>"

definition example_otlp_cfg :: OTLPExporterConfig where
  "example_otlp_cfg = \<lparr>o_Enabled = True, o_Endpoint = ''localhost:4317'', o_Protocol = ''grpc'',
     o_Insecure = False, o_TLS = \<lparr>tls_CertFile = [], tls_KeyFile = [], tls_CAFile = ''ca.pem''\<rparr>,
     o_Batch = \<lparr>b_ExportInterval = 30 * Second, b_ExportTimeout = 10 * Second\<rparr>,
     o_Retry = \<lparr>rt_Enabled = True, rt_MaxElapsedTime = 300 * Second\<rparr>, o_ShutdownTimeout = 10 * Second\<rparr>"

lemma example_exporter: "\<exists>e. otlp_New example_otlp_env example_otlp_cfg = Inr e"
  by (simp add: otlp_New_def example_otlp_env_def example_otlp_cfg_def err_opt_def buildExporter_def buildGRPC_def
      transport_options_def open_transport_def registerInstruments_def register_def recording_create_def
      register_callback_def)

theorem inventory_complete_witness:
  "\<exists>e. otlp_New example_otlp_env example_otlp_cfg = Inr e \<and> length (ox_readers e) = 2"
proof -
  obtain e where "otlp_New example_otlp_env example_otlp_cfg = Inr e" using example_exporter by blast
  with inventory_complete [OF this] show ?thesis by (auto simp: example_otlp_cfg_def)
qed

text \<open>
  C16. The counters add up. Over any sequence of exported results the run counter is their number,
  the error counter the number of those with status error, the packet counters the sums over the
  others; so every run is counted once as an error or with its packets, and when the results are
  well formed, no more packets are received than sent.
\<close>

theorem Export_counters_conserve:
  assumes "otlp_New env cfg = Inr e" and "list_all result_ok rs"
  shows "let ms = concat (map (otlp_Export e) rs); measured_rs = filter (\<lambda>r. \<not> IsError (pr_Status r)) rs in
    counter_total (ox_probeRuns e) ms = int (length rs) \<and>
    counter_total (ox_probeErrors e) ms + int (length measured_rs) = int (length rs) \<and>
    counter_total (ox_pktSent e) ms = sum_list (map pr_PacketsSent measured_rs) \<and>
    counter_total (ox_pktReceived e) ms = sum_list (map pr_PacketsReceived measured_rs) \<and>
    counter_total (ox_pktReceived e) ms \<le> counter_total (ox_pktSent e) ms"
  using assms(2)
proof (induction rs)
  case (Cons r rs)
  then have "pr_PacketsReceived r \<le> pr_PacketsSent r" by (simp add: result_ok_def)
  with Cons Export_counters [OF handles_differ [OF assms(1)], of r] show ?case
    by (simp add: Let_def counter_total_append)
qed simp

theorem Export_counters_conserve_witness:
  "\<exists>e. otlp_New example_otlp_env example_otlp_cfg = Inr e \<and>
     counter_total (ox_pktSent e) (concat (map (otlp_Export e)
       [zero_result\<lparr>pr_PacketsSent := 3, pr_PacketsReceived := 2, pr_Status := StatusPartial\<rparr>,
        zero_result\<lparr>pr_PacketsSent := 7, pr_Status := StatusError\<rparr>])) = 3"
proof -
  obtain e where e: "otlp_New example_otlp_env example_otlp_cfg = Inr e" using example_exporter by blast
  have "list_all result_ok [zero_result\<lparr>pr_PacketsSent := 3, pr_PacketsReceived := 2, pr_Status := StatusPartial\<rparr>,
        zero_result\<lparr>pr_PacketsSent := 7, pr_Status := StatusError\<rparr>]"
    by (simp add: result_ok_def zero_result_def IsUp_def IsError_def)
  from Export_counters_conserve [OF e this] e show ?thesis
    by (auto simp: Let_def IsError_def)
qed



text \<open>
  C18. Series do not collide: as long as the labels of two results stay away from the keys that the
  exporter uses itself, the two are recorded under the same attribute set exactly when they are of
  the same probe, type, target, FQDN and source address and carry the same labels.
\<close>

theorem series_identity:
  assumes "labels_apart r" and "labels_apart q"
  shows "attr_value (buildAttrs r) = attr_value (buildAttrs q) \<longleftrightarrow>
    result_id r = result_id q \<and> pr_SourceIP r = pr_SourceIP q \<and> attr_value (label_list r) = attr_value (label_list q)"
proof -
  have l: "attr_value (label_list x) k = None" if "labels_apart x" "k \<in> set reserved_keys" for x k
    using that by (intro attr_value_absent) (auto simp: labels_apart_def list_all_iff)
  have "attr_value (buildAttrs r) = attr_value (buildAttrs q) \<longleftrightarrow>
    (\<forall>k \<in> set reserved_keys. attr_value (base_attrs r) k = attr_value (base_attrs q) k) \<and>
    (\<forall>k. k \<notin> set reserved_keys \<longrightarrow> attr_value (label_list r) k = attr_value (label_list q) k)"
    unfolding fun_eq_iff using attr_reserved [OF assms(1)] attr_reserved [OF assms(2)] attr_other by metis
  also have "(\<forall>k. k \<notin> set reserved_keys \<longrightarrow> attr_value (label_list r) k = attr_value (label_list q) k) \<longleftrightarrow>
    attr_value (label_list r) = attr_value (label_list q)"
    unfolding fun_eq_iff using l [OF assms(1)] l [OF assms(2)] by metis
  finally show ?thesis unfolding base_attrs_inj by blast
qed

theorem series_identity_witness:
  "attr_value (buildAttrs (zero_result\<lparr>pr_Target := ''10.0.0.1''\<rparr>)) \<noteq>
   attr_value (buildAttrs (zero_result\<lparr>pr_Target := ''10.0.0.2''\<rparr>))"
  using series_identity [of "zero_result\<lparr>pr_Target := ''10.0.0.1''\<rparr>" "zero_result\<lparr>pr_Target := ''10.0.0.2''\<rparr>"]
  by (simp add: labels_apart_def label_list_def zero_result_def result_id_def)

text \<open>
  A label may take over a reserved key, which the pattern of label keys admits: its value then
  replaces that of the result, and results for different targets share one series.
\<close>

lemma label_shadows_target:
  "attr_value (buildAttrs (r\<lparr>pr_Labels := Some [(''probe.target'', v)]\<rparr>)) ''probe.target'' = Some v"
  by (simp add: buildAttrs_split attr_value_append label_list_def) (simp add: attr_value_def)

text \<open>Without a client certificate the CA file is not read: the transport has no TLS option at all.\<close>

lemma ca_file_ignored:
  assumes "\<not> o_Insecure cfg" and "tls_CertFile (o_TLS cfg) = []"
  shows "transport_options env cfg =
    Inr [WithEndpoint (o_Endpoint cfg), WithRetry (rt_Enabled (o_Retry cfg)) (rt_MaxElapsedTime (o_Retry cfg))]"
  using assms by (simp add: transport_options_def)

end
