(* ===== verification/Go_Time.thy ===== *)
theory Go_Time
  imports Prelude
begin

text \<open>
  The layout \<^verbatim>\<open>time.RFC3339\<close> for a time in UTC: the civil date of a day number, the time of day, and
  their text. Day 0 is the first of January 1970. The calendar counts years from the first of
  March, so that the leap day is the last of its year; the days of an era of 400 years are taken
  apart into centuries, cycles of four years and years.
\<close>

subsection \<open>Civil dates\<close>

record civil =
  cv_year :: int
  cv_month :: int
  cv_day :: int

definition civil_from_days :: "int \<Rightarrow> civil" where
  "civil_from_days days =
     (let z = days + 719468;
          era = z div 146097;
          doe = z mod 146097;
          c = min 3 (doe div 36524);
          r1 = doe - 36524 * c;
          q = r1 div 1461;
          r2 = r1 mod 1461;
          y = min 3 (r2 div 365);
          doy = r2 - 365 * y;
          mp = (5 * doy + 2) div 153;
          m = (if mp < 10 then mp + 3 else mp - 9)
      in \<lparr>cv_year = 400 * era + 100 * c + 4 * q + y + (if m \<le> 2 then 1 else 0),
          cv_month = m, cv_day = doy - (153 * mp + 2) div 5 + 1\<rparr>)"

text \<open>The day number of a date, by the rule of leap years.\<close>

definition days_from_civil :: "civil \<Rightarrow> int" where
  "days_from_civil d =
     (let y = (if cv_month d \<le> 2 then cv_year d - 1 else cv_year d);
          mp = (if 2 < cv_month d then cv_month d - 3 else cv_month d + 9)
      in 365 * y + y div 4 - y div 100 + y div 400 + (153 * mp + 2) div 5 + cv_day d - 1 - 719468)"

lemma div_between: "0 < (b :: int) \<Longrightarrow> b * (a div b) \<le> a \<and> a < b * (a div b) + b"
  using mult_div_mod_eq [of b a] pos_mod_bound [of b a] pos_mod_sign [of b a] by linarith

lemma div_eqI: "0 < (b :: int) \<Longrightarrow> b * k \<le> a \<Longrightarrow> a < b * k + b \<Longrightarrow> a div b = k"
  by (rule int_div_pos_eq [of a b k "a - b * k"]) auto

lemma march_year:
  fixes era c q y :: int
  assumes "0 \<le> c" "c \<le> 3" "0 \<le> q" "q \<le> 24" "0 \<le> y" "y \<le> 3"
  defines "n \<equiv> 400 * era + 100 * c + 4 * q + y"
  shows "365 * n + n div 4 - n div 100 + n div 400 = 146097 * era + 36524 * c + 1461 * q + 365 * y"
proof -
  have "n div 4 = 100 * era + 25 * c + q" "n div 100 = 4 * era + c" "n div 400 = era"
    by (rule div_eqI; use assms in \<open>simp add: n_def\<close>)+
  then show ?thesis by (simp add: n_def)
qed

lemma month_bounds:
  fixes doy :: int
  assumes "0 \<le> doy" "doy \<le> 365"
  defines "mp \<equiv> (5 * doy + 2) div 153"
  shows "0 \<le> mp" "mp \<le> 11" "(153 * mp + 2) div 5 \<le> doy" "doy \<le> (153 * mp + 2) div 5 + 30"
proof -
  have m: "153 * mp \<le> 5 * doy + 2" "5 * doy + 2 < 153 * mp + 153"
    using div_between [of 153 "5 * doy + 2"] unfolding mp_def by simp_all
  have k: "5 * ((153 * mp + 2) div 5) \<le> 153 * mp + 2" "153 * mp + 2 < 5 * ((153 * mp + 2) div 5) + 5"
    using div_between [of 5 "153 * mp + 2"] by simp_all
  show "0 \<le> mp" "mp \<le> 11" "(153 * mp + 2) div 5 \<le> doy" "doy \<le> (153 * mp + 2) div 5 + 30"
    using m k assms(1,2) by linarith+
qed

text \<open>Every day has a date with month and day in range, and the date determines the day.\<close>

lemma civil_roundtrip:
  "days_from_civil (civil_from_days days) = days"
  "1 \<le> cv_month (civil_from_days days)" "cv_month (civil_from_days days) \<le> 12"
  "1 \<le> cv_day (civil_from_days days)" "cv_day (civil_from_days days) \<le> 31"
proof -
  define z where "z = days + 719468"
  define era where "era = z div 146097"
  define doe where "doe = z mod 146097"
  define c where "c = min 3 (doe div 36524)"
  define r1 where "r1 = doe - 36524 * c"
  define q where "q = r1 div 1461"
  define r2 where "r2 = r1 mod 1461"
  define y where "y = min 3 (r2 div 365)"
  define doy where "doy = r2 - 365 * y"
  define mp where "mp = (5 * doy + 2) div 153"
  define m where "m = (if mp < 10 then mp + 3 else mp - 9)"
  have cv: "civil_from_days days = \<lparr>cv_year = 400 * era + 100 * c + 4 * q + y + (if m \<le> 2 then 1 else 0),
      cv_month = m, cv_day = doy - (153 * mp + 2) div 5 + 1\<rparr>"
    by (simp only: civil_from_days_def Let_def z_def era_def doe_def c_def r1_def q_def r2_def y_def doy_def mp_def m_def)
  have doe: "0 \<le> doe" "doe < 146097" by (simp_all add: doe_def)
  have cut: "0 \<le> k \<and> k \<le> 3 \<and> 0 \<le> a - b * k \<and> a - b * k \<le> b + e"
    if "k = min 3 (a div b)" "0 \<le> a" "a \<le> 4 * b + e" "0 < b" "0 \<le> e" for a b k e :: int
  proof (cases "a div b \<le> 3")
    case True
    have "0 \<le> a div b" using that by (simp add: pos_imp_zdiv_nonneg_iff)
    with True that div_between [OF that(4), of a] show ?thesis by (simp add: min_absorb2)
  next
    case False
    have "b * 4 \<le> b * (a div b)" using False that by (intro mult_left_mono) auto
    then have "b * 4 \<le> a" using div_between [OF that(4), of a] by linarith
    moreover have "k = 3" using False that(1) by simp
    ultimately show ?thesis using that(3-5) by simp
  qed
  have c: "0 \<le> c" "c \<le> 3" "0 \<le> r1" "r1 \<le> 36524"
    using cut [OF c_def, of 0] doe unfolding r1_def by simp_all
  have q: "0 \<le> q" "q \<le> 24" "0 \<le> r2" "r2 \<le> 1460"
  proof -
    show "0 \<le> q" using c unfolding q_def by (simp add: pos_imp_zdiv_nonneg_iff)
    show "q \<le> 24" using c div_between [of 1461 r1] unfolding q_def by linarith
    show "0 \<le> r2" "r2 \<le> 1460" using pos_mod_bound [of 1461 r1] unfolding r2_def by simp_all
  qed
  have y: "0 \<le> y" "y \<le> 3" "0 \<le> doy" "doy \<le> 365"
    using cut [OF y_def, of 0] q unfolding doy_def by simp_all
  note mb = month_bounds [OF y(3,4), folded mp_def]
  show "1 \<le> cv_month (civil_from_days days)" "cv_month (civil_from_days days) \<le> 12"
    "1 \<le> cv_day (civil_from_days days)" "cv_day (civil_from_days days) \<le> 31"
    using mb unfolding cv m_def by auto
  have mm: "(if 2 < m then m - 3 else m + 9) = mp" using mb unfolding m_def by auto
  have yy: "(if m \<le> 2 then 400 * era + 100 * c + 4 * q + y + (if m \<le> 2 then 1 else 0) - 1
      else 400 * era + 100 * c + 4 * q + y + (if m \<le> 2 then 1 else 0)) = 400 * era + 100 * c + 4 * q + y" by simp
  have "146097 * era + doe = z" unfolding era_def doe_def by simp
  moreover have "1461 * q + r2 = r1" unfolding q_def r2_def by simp
  ultimately show "days_from_civil (civil_from_days days) = days"
    unfolding cv days_from_civil_def Let_def civil.simps mm yy march_year [OF c(1,2) q(1,2) y(1,2)]
    by (simp add: z_def r1_def doy_def)
qed

subsection \<open>The text\<close>

text \<open>Decimal digits, padded with zeros to a width; a wider number is printed in full.\<close>

definition pad :: "nat \<Rightarrow> int \<Rightarrow> string" where
  "pad w n = (let ds = nat_digits (nat \<bar>n\<bar>)
     in (if n < 0 then ''-'' else []) @ replicate (w - length ds) CHR ''0'' @ ds)"

text \<open>The argument is the number of nanoseconds since the epoch.\<close>

definition RFC3339 :: "int \<Rightarrow> string" where
  "RFC3339 ns =
     (let secs = ns div Second;
          date = civil_from_days (secs div 86400);
          tod = secs mod 86400
      in pad 4 (cv_year date) @ ''-'' @ pad 2 (cv_month date) @ ''-'' @ pad 2 (cv_day date) @ ''T'' @
         pad 2 (tod div 3600) @ '':'' @ pad 2 (tod mod 3600 div 60) @ '':'' @ pad 2 (tod mod 60) @ ''Z'')"

end
