(* ===== verification/Go_Strings.thy ===== *)
theory Go_Strings
  imports Prelude "HOL-Library.Char_ord" "HOL-Library.List_Lexorder"
begin

text \<open>
  More of the package \<^verbatim>\<open>strings\<close>: searching for a substring or a byte, splitting, trimming. An index
  that does not exist, which Go reports as a negative number, is \<open>None\<close>. The order of strings is
  that of their bytes.
\<close>

subsection \<open>Searching\<close>

fun Index :: "string \<Rightarrow> string \<Rightarrow> nat option" where
  "Index s p =
     (if HasPrefix s p then Some 0
      else case s of [] \<Rightarrow> None | c # t \<Rightarrow> map_option Suc (Index t p))"

declare Index.simps [simp del]

fun IndexByte :: "string \<Rightarrow> char \<Rightarrow> nat option" where
  "IndexByte [] b = None"
| "IndexByte (c # s) b = (if c = b then Some 0 else map_option Suc (IndexByte s b))"

definition occurs_at :: "string \<Rightarrow> nat \<Rightarrow> string \<Rightarrow> bool" where
  "occurs_at p i s \<longleftrightarrow> HasPrefix (drop i s) p"

lemma Index_Some_iff: "Index s p = Some i \<longleftrightarrow> i \<le> length s \<and> occurs_at p i s \<and> (\<forall>j < i. \<not> occurs_at p j s)"
proof (induction s arbitrary: i)
  case Nil
  show ?case by (subst Index.simps) (auto simp: occurs_at_def)
next
  case (Cons c s)
  show ?case
  proof (cases i)
    case 0
    then show ?thesis by (subst Index.simps) (auto simp: occurs_at_def)
  next
    case (Suc k)
    have "(\<forall>j < Suc k. \<not> occurs_at p j (c # s)) \<longleftrightarrow> \<not> HasPrefix (c # s) p \<and> (\<forall>j < k. \<not> occurs_at p j s)"
      unfolding All_less_Suc2 by (auto simp: occurs_at_def)
    with Suc Cons.IH [of k] show ?thesis by (subst Index.simps) (auto simp: occurs_at_def)
  qed
qed

lemma IndexByte_Some_iff: "IndexByte s b = Some i \<longleftrightarrow> i < length s \<and> s ! i = b \<and> b \<notin> set (take i s)"
proof (induction s arbitrary: i)
  case (Cons c s)
  then show ?case by (cases i) auto
qed simp

lemma IndexByte_None [simp]: "IndexByte s b = None \<longleftrightarrow> b \<notin> set s"
  by (induction s) auto

lemma IndexByte_append: "b \<notin> set s \<Longrightarrow> IndexByte (s @ b # t) b = Some (length s)"
  by (simp add: IndexByte_Some_iff)

lemma occurs_append: "occurs_at p i s \<Longrightarrow> i \<le> length s \<Longrightarrow> occurs_at p i (s @ t)"
  by (auto simp: occurs_at_def HasPrefix_iff)

text \<open>An occurrence cannot straddle a byte that the rest of the pattern does not have.\<close>

lemma occurs_left:
  assumes "occurs_at p i (a @ d # b)" and "i < length a" and "d \<notin> set (tl p)"
  shows "occurs_at p i a"
proof -
  have h: "take (length p) (drop i a @ d # b) = p" using assms(1,2) by (simp add: occurs_at_def HasPrefix_def)
  have "length p \<le> length (drop i a)"
  proof (rule ccontr)
    let ?k = "length (drop i a)"
    assume n: "\<not> length p \<le> ?k"
    then have "p ! ?k = (drop i a @ d # b) ! ?k" using h by (metis nth_take not_le_imp_less)
    then have "p ! ?k = d" by (simp only: nth_append_length)
    moreover obtain m where "?k = Suc m" using assms(2) by (cases ?k) simp_all
    moreover have "m < length (tl p)" "tl p ! m = p ! Suc m" using n calculation(2) by (simp_all add: nth_tl)
    ultimately show False using assms(3) nth_mem by metis
  qed
  with h show ?thesis by (simp add: occurs_at_def HasPrefix_def)
qed

lemma occurs_take:
  assumes "occurs_at p i s" and "i + length p \<le> n"
  shows "occurs_at p i (take n s)"
proof -
  have "take (length p) (drop i (take n s)) = take (length p) (take (n - i) (drop i s))"
    by (simp only: drop_take)
  also have "\<dots> = take (length p) (drop i s)" using assms(2) by (simp add: min_def)
  finally show ?thesis using assms(1) by (simp add: occurs_at_def HasPrefix_def)
qed

subsection \<open>Splitting and trimming\<close>

text \<open>\<^verbatim>\<open>strings.Split\<close> at a one-byte separator: always at least one piece.\<close>

fun split_byte :: "char \<Rightarrow> string \<Rightarrow> string list" where
  "split_byte b [] = [[]]"
| "split_byte b (c # s) =
     (if c = b then [] # split_byte b s
      else case split_byte b s of [] \<Rightarrow> [[c]] | w # ws \<Rightarrow> (c # w) # ws)"

definition trim :: "(char \<Rightarrow> bool) \<Rightarrow> string \<Rightarrow> string" where
  "trim f s = rev (dropWhile f (rev (dropWhile f s)))"

text \<open>
  White space: the ASCII bytes of \<^verbatim>\<open>unicode.IsSpace\<close>. The two further code points it has below
  U+0100 and those above are multi-byte sequences that the sources never trim.
\<close>

definition is_space :: "char \<Rightarrow> bool" where
  "is_space c \<longleftrightarrow> c \<in> {CHR '' '', CHR 0x09, CHR 0x0A, CHR 0x0B, CHR 0x0C, CHR 0x0D}"

definition TrimSpace :: "string \<Rightarrow> string" where
  "TrimSpace s = trim is_space s"

text \<open>\<^verbatim>\<open>strings.Fields\<close>: the maximal runs of bytes that are not white space.\<close>

function Fields :: "string \<Rightarrow> string list" where
  "Fields s =
     (case dropWhile is_space s of
        [] \<Rightarrow> []
      | c # t \<Rightarrow> (c # takeWhile (\<lambda>x. \<not> is_space x) t) # Fields (dropWhile (\<lambda>x. \<not> is_space x) t))"
  by pat_completeness auto
termination
proof (relation "measure length", simp)
  fix s :: string and c t
  assume "dropWhile is_space s = c # t"
  moreover have "length (dropWhile (\<lambda>x. \<not> is_space x) t) \<le> length t" by (rule length_dropWhile_le)
  moreover have "length (dropWhile is_space s) \<le> length s" by (rule length_dropWhile_le)
  ultimately show "(dropWhile (\<lambda>x. \<not> is_space x) t, s) \<in> measure length" by simp
qed

declare Fields.simps [simp del]

lemma trim_id:
  assumes "s = [] \<or> \<not> f (hd s) \<and> \<not> f (last s)"
  shows "trim f s = s"
proof (cases "s = []")
  case False
  have id: "dropWhile f t = t" if "t \<noteq> []" "\<not> f (hd t)" for t using that by (cases t) simp_all
  have "dropWhile f s = s" using id [of s] False assms by simp
  moreover have "dropWhile f (rev s) = rev s" using id [of "rev s"] False assms by (simp add: hd_rev)
  ultimately show ?thesis by (simp add: trim_def)
qed (simp add: trim_def)

lemma split_byte_nonempty [simp]: "split_byte b s \<noteq> []"
  by (induction s) (auto split: list.splits)

lemma split_byte_none: "b \<notin> set s \<Longrightarrow> split_byte b s = [s]"
  by (induction s) auto

lemma split_byte_append: "b \<notin> set s \<Longrightarrow> split_byte b (s @ b # t) = s # split_byte b t"
  by (induction s) (auto split: list.splits)

end
