(* ===== verification/Exporter_Stdout.thy ===== *)
theory Exporter_Stdout
  imports Types Go_JSON Go_Time Go_Strings
begin

text \<open>
  \<^verbatim>\<open>internal/exporter/stdout/stdout.go\<close>: one JSON record or one line of text per result. Writing to
  the stream is the last step of both and is left to the stream; what is modelled is the record or
  the line that is written, and the error of the encoder.
\<close>

subsection \<open>JSON\<close>

record jsonRecord =
  j_TS :: string
  j_Probe :: string
  j_Type :: string
  j_Target :: string
  j_FQDN :: string
  j_SourceIP :: string
  j_Status :: string
  j_DurationMS :: "float64 option"
  j_RTTMeanMS :: "float64 option"
  j_RTTMinMS :: "float64 option"
  j_RTTMaxMS :: "float64 option"
  j_RTTStddevMS :: "float64 option"
  j_PacketLoss :: "float64 option"
  j_ErrorMsg :: string
  j_ErrorType :: string
  j_Labels :: "(string \<times> string) list"

definition json_record :: "ProbeResult \<Rightarrow> jsonRecord" where
  "json_record r =
     (let m = measured r
      in \<lparr>j_TS = RFC3339 (pr_Timestamp r), j_Probe = pr_ProbeName r, j_Type = pr_ProbeType r,
          j_Target = pr_Target r, j_FQDN = pr_FQDN r, j_SourceIP = pr_SourceIP r,
          j_Status = status_string (pr_Status r), j_DurationMS = m_Duration m,
          j_RTTMeanMS = map_option MeanMS (m_RTT m), j_RTTMinMS = map_option MinMS (m_RTT m),
          j_RTTMaxMS = map_option MaxMS (m_RTT m), j_RTTStddevMS = map_option StddevMS (m_RTT m),
          j_PacketLoss = m_Loss m, j_ErrorMsg = pr_ErrorMsg r, j_ErrorType = pr_ErrorType r,
          j_Labels = (case pr_Labels r of None \<Rightarrow> [] | Some kvs \<Rightarrow> kvs)\<rparr>)"

text \<open>The tags of the struct; the encoder sorts the keys of a map.\<close>

definition record_doc :: "jsonRecord \<Rightarrow> json" where
  "record_doc j = JObj (
     [(''ts'', JStr (j_TS j)), (''probe'', JStr (j_Probe j)), (''type'', JStr (j_Type j)),
      (''target'', JStr (j_Target j))] @ opt_str ''fqdn'' (j_FQDN j) @
     [(''source_ip'', JStr (j_SourceIP j)), (''status'', JStr (j_Status j))] @
     opt_float ''duration_ms'' (j_DurationMS j) @ opt_float ''rtt_mean_ms'' (j_RTTMeanMS j) @
     opt_float ''rtt_min_ms'' (j_RTTMinMS j) @ opt_float ''rtt_max_ms'' (j_RTTMaxMS j) @
     opt_float ''rtt_stddev_ms'' (j_RTTStddevMS j) @ opt_float ''packet_loss'' (j_PacketLoss j) @
     opt_str ''error_msg'' (j_ErrorMsg j) @ opt_str ''error_type'' (j_ErrorType j) @
     [(''labels'', JObj (map (\<lambda>(k, v). (k, JStr v)) (sort_key fst (j_Labels j))))])"

definition stdout_writeJSON :: "ProbeResult \<Rightarrow> string + json" where
  "stdout_writeJSON r = Encode (record_doc (json_record r))"

subsection \<open>Text\<close>

text \<open>
  The verb \<^verbatim>\<open>%.<prec>f\<close>: the exact value rounded to that many decimals, to the even digit when it lies
  half-way.
\<close>

definition fmt_fixed :: "nat \<Rightarrow> float64 \<Rightarrow> string" where
  "fmt_fixed prec x =
     (case x of
        NaN \<Rightarrow> ''NaN'' | PInf \<Rightarrow> ''+Inf'' | NInf \<Rightarrow> ''-Inf''
      | Fin q \<Rightarrow>
          let n = round_even (\<bar>q\<bar> * 10 ^ prec); whole = n div 10 ^ prec; frac = n mod 10 ^ prec
          in (if q < 0 then ''-'' else []) @ nat_digits (nat whole) @
             (if prec = 0 then [] else ''.'' @ pad prec frac))"

definition stdout_writeText :: "ProbeResult \<Rightarrow> string" where
  "stdout_writeText r =
     (let m = measured r;
          errPart = (if pr_ErrorMsg r \<noteq> [] then '' error='' @ Quote (pr_ErrorMsg r) else []);
          fqdnText = (if pr_FQDN r \<noteq> [] then '' fqdn='' @ pr_FQDN r else []);
          lossText = (case m_Loss m of None \<Rightarrow> [] | Some l \<Rightarrow> '' loss='' @ fmt_fixed 0 (f_mul l (Fin 100)) @ ''%'');
          front = RFC3339 (pr_Timestamp r) @ '' probe='' @ pr_ProbeName r @ '' type='' @ pr_ProbeType r @
            '' target='' @ pr_Target r @ fqdnText @ '' src='' @ pr_SourceIP r @
            '' status='' @ status_string (pr_Status r) @ lossText
      in if pr_ProbeType r = ProbeTypeHTTP
         then front @ '' duration='' @ fmt_fixed 2 (pr_DurationMS r) @ ''ms'' @ errPart @ [CHR 0x0A]
         else front @ '' rtt_mean='' @ fmt_fixed 2 (pr_RTTMeanMS r) @ ''ms rtt_min='' @ fmt_fixed 2 (pr_RTTMinMS r) @
           ''ms rtt_max='' @ fmt_fixed 2 (pr_RTTMaxMS r) @ ''ms'' @ errPart @ [CHR 0x0A])"

subsection \<open>The exporter\<close>

datatype emitted = O_JSON json | O_Text string

definition stdout_Name :: string where
  "stdout_Name = ''stdout''"

definition stdout_Export :: "string \<Rightarrow> ProbeResult \<Rightarrow> string + emitted" where
  "stdout_Export fmt r =
     (if fmt = ''json'' then res_bind (stdout_writeJSON r) (\<lambda>v. Inr (O_JSON v))
      else Inr (O_Text (stdout_writeText r)))"

subsection \<open>Lemmas\<close>

definition measured_floats :: "ProbeResult \<Rightarrow> float64 list" where
  "measured_floats r =
     (let m = measured r
      in (case m_RTT m of None \<Rightarrow> [] | Some t \<Rightarrow> [MinMS t, MeanMS t, MaxMS t, StddevMS t]) @
         (case m_Loss m of None \<Rightarrow> [] | Some x \<Rightarrow> [x]) @ (case m_Duration m of None \<Rightarrow> [] | Some x \<Rightarrow> [x]))"

lemma encodable_opt [simp]:
  "list_all (\<lambda>(k, v). encodable v) (opt_float k x) \<longleftrightarrow> (case x of None \<Rightarrow> True | Some y \<Rightarrow> f_finite y)"
  "list_all (\<lambda>(k, v). encodable v) (opt_str k s)"
  by (simp_all add: opt_float_def opt_str_def split: option.split)

lemma encodable_labels [simp]: "list_all (\<lambda>(k, v). encodable v) (map (\<lambda>(k, v). (k, JStr v)) l)"
  by (auto simp: list_all_iff)

lemma record_encodable: "encodable (record_doc (json_record r)) \<longleftrightarrow> list_all f_finite (measured_floats r)"
  by (cases "m_RTT (measured r)"; cases "m_Loss (measured r)"; cases "m_Duration (measured r)")
    (auto simp: record_doc_def json_record_def measured_floats_def Let_def)

definition line_safe :: "string \<Rightarrow> bool" where
  "line_safe s \<longleftrightarrow> CHR 0x0A \<notin> set s"

lemma line_safe_simps [simp]:
  "line_safe []" "line_safe (c # s) \<longleftrightarrow> c \<noteq> CHR 0x0A \<and> line_safe s"
  "line_safe (s @ t) \<longleftrightarrow> line_safe s \<and> line_safe t"
  by (auto simp: line_safe_def)

lemma line_safe_replicate [simp]: "c \<noteq> CHR 0x0A \<Longrightarrow> line_safe (replicate n c)"
  by (simp add: line_safe_def)

lemma digit_not_newline: "(n :: nat) < 10 \<Longrightarrow> char_of (48 + n) \<noteq> (CHR 0x0A :: char)"
proof
  assume "n < 10" and e: "char_of (48 + n) = (CHR 0x0A :: char)"
  then have "(of_char (char_of (48 + n) :: char) :: nat) = 10" by simp
  with \<open>n < 10\<close> show False by (simp add: of_char_of)
qed

lemma nat_digits_safe [simp]: "line_safe (nat_digits n)"
proof (induction n rule: nat_digits.induct)
  case (1 n)
  then show ?case by (subst nat_digits.simps) (simp add: digit_not_newline)
qed

lemma pad_safe [simp]: "line_safe (pad w n)"
  by (simp add: pad_def Let_def)

lemma RFC3339_safe [simp]: "line_safe (RFC3339 ns)"
  by (simp add: RFC3339_def Let_def)

lemma fmt_fixed_safe [simp]: "line_safe (fmt_fixed prec x)"
  by (simp add: fmt_fixed_def Let_def split: float64.split)

lemma hex_digit_safe: "n < 16 \<Longrightarrow> hex_digit n \<noteq> CHR 0x0A"
proof
  assume n: "n < 16" and e: "hex_digit n = CHR 0x0A"
  then have "(of_char (hex_digit n) :: nat) = 10" by simp
  with n show False by (simp add: hex_digit_def of_char_of split: if_splits)
qed

lemma quote_byte_safe: "line_safe (quote_byte c)"
proof -
  have "byte_val c < 256" by (simp add: byte_val_def)
  moreover have "byte_val c \<noteq> 10 \<Longrightarrow> c \<noteq> CHR 0x0A" by (auto simp: byte_val_def)
  ultimately show ?thesis by (auto simp: quote_byte_def Let_def hex_digit_safe)
qed

lemma Quote_safe [simp]: "line_safe (Quote s)"
proof -
  have "line_safe (concat (map quote_byte s))" by (induction s) (simp_all add: quote_byte_safe)
  then show ?thesis by (simp add: Quote_def)
qed

lemma status_string_safe [simp]: "line_safe (status_string st)"
  by (cases st) simp_all

subsection \<open>Properties\<close>

text \<open>
  C34. A JSON record tells what was measured from what was not: it can be encoded exactly when every
  measured number is finite, and then a round-trip time, the loss and the duration are present
  exactly when the result has them, with their value, while labels are always an object.
\<close>

theorem stdout_json_faithful:
  "is_ok (stdout_Export ''json'' r) = list_all f_finite (measured_floats r) \<and>
   (case stdout_Export ''json'' r of
      Inr (O_JSON (JObj kvs)) \<Rightarrow>
        map_of kvs ''duration_ms'' = map_option JFloat (m_Duration (measured r)) \<and>
        map_of kvs ''packet_loss'' = map_option JFloat (m_Loss (measured r)) \<and>
        map_of kvs ''rtt_min_ms'' = map_option (JFloat \<circ> MinMS) (m_RTT (measured r)) \<and>
        map_of kvs ''rtt_mean_ms'' = map_option (JFloat \<circ> MeanMS) (m_RTT (measured r)) \<and>
        map_of kvs ''rtt_max_ms'' = map_option (JFloat \<circ> MaxMS) (m_RTT (measured r)) \<and>
        map_of kvs ''rtt_stddev_ms'' = map_option (JFloat \<circ> StddevMS) (m_RTT (measured r)) \<and>
        map_of kvs ''status'' = Some (JStr (status_string (pr_Status r))) \<and>
        map_of kvs ''labels'' = Some (JObj (map (\<lambda>(k, v). (k, JStr v))
          (sort_key fst (case pr_Labels r of None \<Rightarrow> [] | Some l \<Rightarrow> l))))
    | Inr _ \<Rightarrow> False
    | Inl _ \<Rightarrow> True)"
proof -
  have "is_ok (stdout_Export ''json'' r) = encodable (record_doc (json_record r))"
    by (simp add: stdout_Export_def stdout_writeJSON_def Encode_def)
  moreover obtain kvs where kvs: "record_doc (json_record r) = JObj kvs" by (simp add: record_doc_def)
  have get: "map_of kvs k = map_of (case record_doc (json_record r) of JObj l \<Rightarrow> l) k" for k by (simp add: kvs)
  have "map_of kvs ''duration_ms'' = map_option JFloat (m_Duration (measured r)) \<and>
        map_of kvs ''packet_loss'' = map_option JFloat (m_Loss (measured r)) \<and>
        map_of kvs ''rtt_min_ms'' = map_option (JFloat \<circ> MinMS) (m_RTT (measured r)) \<and>
        map_of kvs ''rtt_mean_ms'' = map_option (JFloat \<circ> MeanMS) (m_RTT (measured r)) \<and>
        map_of kvs ''rtt_max_ms'' = map_option (JFloat \<circ> MaxMS) (m_RTT (measured r)) \<and>
        map_of kvs ''rtt_stddev_ms'' = map_option (JFloat \<circ> StddevMS) (m_RTT (measured r)) \<and>
        map_of kvs ''status'' = Some (JStr (status_string (pr_Status r))) \<and>
        map_of kvs ''labels'' = Some (JObj (map (\<lambda>(k, v). (k, JStr v))
          (sort_key fst (case pr_Labels r of None \<Rightarrow> [] | Some l \<Rightarrow> l))))"
    unfolding get record_doc_def json.case
    by (intro conjI) (simp_all add: json_record_def Let_def opt_float_def opt_str_def split: option.split)
  ultimately show ?thesis
    using record_encodable [of r] kvs
    by (simp add: stdout_Export_def stdout_writeJSON_def Encode_def)
qed

text \<open>
  A text record is one line: as long as the name, the type, the addresses and the FQDN have no
  line break, there is exactly one, at its end, whatever the error message contains.
\<close>

theorem stdout_text_one_line:
  assumes "line_safe (pr_ProbeName r)" and "line_safe (pr_ProbeType r)" and "line_safe (pr_Target r)"
    and "line_safe (pr_FQDN r)" and "line_safe (pr_SourceIP r)"
  shows "\<exists>line. stdout_writeText r = line @ [CHR 0x0A] \<and> line_safe line"
proof (intro exI conjI)
  have "last (stdout_writeText r) = CHR 0x0A" "stdout_writeText r \<noteq> []"
    by (simp_all add: stdout_writeText_def Let_def)
  then show "stdout_writeText r = butlast (stdout_writeText r) @ [CHR 0x0A]"
    by (metis append_butlast_last_id)
  show "line_safe (butlast (stdout_writeText r))"
    using assms by (simp add: stdout_writeText_def Let_def butlast_append split: option.split)
qed

theorem stdout_text_one_line_witness:
  "\<exists>line. stdout_writeText (zero_result\<lparr>pr_ErrorMsg := [CHR 0x0A], pr_Status := StatusError\<rparr>) = line @ [CHR 0x0A] \<and>
     line_safe line"
  by (rule stdout_text_one_line) (simp_all add: zero_result_def)

end
