(* ===== verification/Probe_Targets.thy ===== *)
theory Probe_Targets
  imports Types Go_Net
begin

text \<open>
  \<^verbatim>\<open>internal/probe/targets.go\<close> and the fan-out of \<^verbatim>\<open>internal/probe/run.go\<close>: the expansion of the
  configured targets into work items, the base result of a work item, and \<^verbatim>\<open>RunWorkItems\<close>, which
  runs one goroutine per item.

  The resolver is the argument \<open>resolver\<close>; \<open>LookupHost\<close> wraps it as the Go library does. The
  goroutines of \<^verbatim>\<open>RunWorkItems\<close> finish in any order: the order is an argument, and
  \<open>RunWorkItems_order\<close> shows that it does not matter.
\<close>

subsection \<open>ExpandTargets\<close>

record WorkItem =
  wi_IP :: string
  wi_FQDN :: string

text \<open>The inner loop over the resolved addresses; \<open>seen\<close> holds the keys of the map \<^verbatim>\<open>seen\<close>.\<close>

fun expand_addrs :: "go_int \<Rightarrow> string \<Rightarrow> string list \<Rightarrow> string list \<Rightarrow> WorkItem list" where
  "expand_addrs maxIPs entry seen [] = []"
| "expand_addrs maxIPs entry seen (addr # addrs) =
     (if addr \<in> set seen then expand_addrs maxIPs entry seen addrs
      else \<lparr>wi_IP = addr, wi_FQDN = entry\<rparr> #
        (if 0 < maxIPs \<and> maxIPs \<le> int (length (addr # seen)) then []
         else expand_addrs maxIPs entry (addr # seen) addrs))"

definition expand_entry ::
  "(string \<Rightarrow> string + string list) \<Rightarrow> go_int \<Rightarrow> string \<Rightarrow> WorkItem list" where
  "expand_entry resolver maxIPs entry =
     (if ParseIP entry \<noteq> None then [\<lparr>wi_IP = entry, wi_FQDN = []\<rparr>]
      else case LookupHost resolver entry of
             Inl err \<Rightarrow> [\<lparr>wi_IP = entry, wi_FQDN = entry\<rparr>]
           | Inr addrs \<Rightarrow>
               if addrs = [] then [\<lparr>wi_IP = entry, wi_FQDN = entry\<rparr>]
               else expand_addrs maxIPs entry [] addrs)"

fun ExpandTargets ::
  "(string \<Rightarrow> string + string list) \<Rightarrow> string list \<Rightarrow> go_int \<Rightarrow> WorkItem list" where
  "ExpandTargets resolver [] maxIPs = []"
| "ExpandTargets resolver (entry # targets) maxIPs =
     expand_entry resolver maxIPs entry @ ExpandTargets resolver targets maxIPs"

text \<open>The reference: the distinct addresses in order, cut at the cap.\<close>

definition cap_list :: "go_int \<Rightarrow> 'a list \<Rightarrow> 'a list" where
  "cap_list m xs = (if 0 < m then take (nat m) xs else xs)"

lemma expand_addrs_dedup:
  assumes "0 < m \<Longrightarrow> int (length seen) < m"
  shows "expand_addrs m entry seen addrs =
    map (\<lambda>a. \<lparr>wi_IP = a, wi_FQDN = entry\<rparr>)
      (if 0 < m then take (nat m - length seen) (dedup (set seen) addrs) else dedup (set seen) addrs)"
  using assms
proof (induction addrs arbitrary: seen)
  case Nil
  then show ?case by simp
next
  case (Cons a addrs)
  show ?case
  proof (cases "a \<in> set seen")
    case True
    with Cons show ?thesis by simp
  next
    case new: False
    show ?thesis
    proof (cases "0 < m \<and> m \<le> int (length (a # seen))")
      case True
      with Cons.prems have "nat m - length seen = 1" by simp
      with True new show ?thesis by simp
    next
      case False
      then have "0 < m \<Longrightarrow> nat m - length seen = Suc (nat m - length (a # seen))"
        using Cons.prems by auto
      moreover have "expand_addrs m entry (a # seen) addrs =
        map (\<lambda>a. \<lparr>wi_IP = a, wi_FQDN = entry\<rparr>)
          (if 0 < m then take (nat m - length (a # seen)) (dedup (set (a # seen)) addrs)
           else dedup (set (a # seen)) addrs)"
        using False by (intro Cons.IH) auto
      ultimately show ?thesis using False new by auto
    qed
  qed
qed

lemma expand_addrs_eq:
  "expand_addrs m entry [] addrs =
     map (\<lambda>a. \<lparr>wi_IP = a, wi_FQDN = entry\<rparr>) (cap_list m (dedup {} addrs))"
  by (simp add: expand_addrs_dedup cap_list_def)

lemma dedup_eq_Nil: "dedup {} xs = [] \<longleftrightarrow> xs = []"
  by (cases xs) auto

lemma cap_list_eq_Nil: "cap_list m xs = [] \<longleftrightarrow> xs = []"
  by (auto simp: cap_list_def)

text \<open>The items an entry gives: at least one, and all of them name the entry.\<close>

lemma expand_entry_nonempty: "expand_entry resolver m entry \<noteq> []"
  by (auto simp: expand_entry_def expand_addrs_eq cap_list_eq_Nil dedup_eq_Nil split: sum.splits)

definition item_of_target :: "string \<Rightarrow> WorkItem \<Rightarrow> bool" where
  "item_of_target t wi \<longleftrightarrow> (wi_IP wi = t \<and> wi_FQDN wi = []) \<or> wi_FQDN wi = t"

lemma expand_entry_items: "wi \<in> set (expand_entry resolver m entry) \<Longrightarrow> item_of_target entry wi"
  by (auto simp: expand_entry_def expand_addrs_eq item_of_target_def split: sum.splits if_splits)

lemma expand_entry_cap:
  "0 < m \<Longrightarrow> length (expand_entry resolver m entry) \<le> nat m"
  by (auto simp: expand_entry_def expand_addrs_eq cap_list_def split: sum.splits)

lemma expand_entry_distinct: "distinct (map wi_IP (expand_entry resolver m entry))"
  by (auto simp: expand_entry_def expand_addrs_eq cap_list_def comp_def distinct_dedup
      split: sum.splits)

lemma set_ExpandTargets:
  "set (ExpandTargets resolver ts m) = (\<Union>t \<in> set ts. set (expand_entry resolver m t))"
  by (induction ts) auto

lemma ExpandTargets_concat: "ExpandTargets resolver ts m = concat (map (expand_entry resolver m) ts)"
  by (induction ts) auto

subsection \<open>RunWorkItems\<close>

text \<open>
  \<^verbatim>\<open>results\<close> is a slice of zero values; the goroutine of index \<open>i\<close> stores the result of its item at
  \<open>i\<close>. \<open>order\<close> is the order in which the goroutines store, and \<open>probeOne i\<close> is what the prober
  returns in the goroutine of index \<open>i\<close>.
\<close>

fun store_results ::
  "(nat \<Rightarrow> 'a \<Rightarrow> ProbeResult) \<Rightarrow> 'a list \<Rightarrow> nat list \<Rightarrow> ProbeResult list \<Rightarrow> ProbeResult list" where
  "store_results probeOne items [] results = results"
| "store_results probeOne items (i # order) results =
     store_results probeOne items order (results[i := probeOne i (items ! i)])"

definition RunWorkItems ::
  "(string \<Rightarrow> string + string list) \<Rightarrow> string list \<Rightarrow> go_int \<Rightarrow> (nat \<Rightarrow> WorkItem \<Rightarrow> ProbeResult)
    \<Rightarrow> nat list \<Rightarrow> ProbeResult list" where
  "RunWorkItems resolver targets maxIPs probeOne order =
     (let items = ExpandTargets resolver targets maxIPs in
      if items = [] then []
      else store_results probeOne items order (replicate (length items) zero_result))"

text \<open>A complete order: every goroutine of the wait group stores once.\<close>

definition complete_order :: "nat list \<Rightarrow> nat \<Rightarrow> bool" where
  "complete_order order n \<longleftrightarrow> distinct order \<and> set order = {..<n}"

lemma length_store_results [simp]: "length (store_results p items order rs) = length rs"
  by (induction order arbitrary: rs) auto

lemma store_results_nth:
  assumes "distinct order" and "i < length rs"
  shows "store_results p items order rs ! i = (if i \<in> set order then p i (items ! i) else rs ! i)"
  using assms by (induction order arbitrary: rs) (auto simp: nth_list_update)

lemma store_results_complete:
  assumes "complete_order order (length items)"
  shows "store_results p items order (replicate (length items) z) = map (\<lambda>i. p i (items ! i)) [0..<length items]"
  using assms
  by (intro nth_equalityI) (auto simp: complete_order_def store_results_nth)

lemma RunWorkItems_eq:
  assumes "complete_order order (length (ExpandTargets resolver targets m))"
  shows "RunWorkItems resolver targets m p order =
    map (\<lambda>i. p i (ExpandTargets resolver targets m ! i)) [0..<length (ExpandTargets resolver targets m)]"
  using assms by (simp add: RunWorkItems_def Let_def store_results_complete)

lemma RunWorkItems_elem:
  assumes "complete_order order (length (ExpandTargets resolver targets m))"
    and "r \<in> set (RunWorkItems resolver targets m p order)"
  shows "\<exists>i wi. wi \<in> set (ExpandTargets resolver targets m) \<and> r = p i wi"
  using assms nth_mem by (fastforce simp: RunWorkItems_eq)

subsection \<open>NewResult\<close>

text \<open>The clock reading \<open>now\<close> is an argument. The second component is the Go result \<^verbatim>\<open>ok\<close>.\<close>

definition NewResult :: "int \<Rightarrow> ProbeConfig \<Rightarrow> WorkItem \<Rightarrow> string \<Rightarrow> ProbeResult \<times> bool" where
  "NewResult now cfg wi probeType =
     (let result = zero_result\<lparr>
        pr_Timestamp := now,
        pr_ProbeName := pc_Name cfg,
        pr_Target := wi_IP wi,
        pr_FQDN := wi_FQDN wi,
        pr_SourceIP := pc_SourceIP cfg,
        pr_ProbeType := probeType,
        pr_Labels := pc_Labels cfg\<rparr>
      in if wi_FQDN wi \<noteq> [] \<and> wi_IP wi = wi_FQDN wi
         then (result\<lparr>
           pr_Status := StatusError,
           pr_ErrorType := ''resolve_error'',
           pr_ErrorMsg := ''resolve target '' @ Quote (wi_FQDN wi) @ '': lookup failed''\<rparr>, False)
         else (result, True))"

lemma NewResult_ok_fields:
  assumes "NewResult now cfg wi ty = (r, True)"
  shows "r = zero_result\<lparr>pr_Timestamp := now, pr_ProbeName := pc_Name cfg, pr_Target := wi_IP wi,
    pr_FQDN := wi_FQDN wi, pr_SourceIP := pc_SourceIP cfg, pr_ProbeType := ty,
    pr_Labels := pc_Labels cfg\<rparr>"
  using assms by (auto simp: NewResult_def Let_def split: if_splits)

lemma NewResult_error_ok: "NewResult now cfg wi ty = (r, False) \<Longrightarrow> result_ok r"
  by (auto simp: NewResult_def Let_def zero_result_def result_ok_def status_preds split: if_splits)

lemma NewResult_id:
  "NewResult now cfg wi ty = (r, ok) \<Longrightarrow> result_id r = (pc_Name cfg, wi_IP wi, wi_FQDN wi, ty)"
  by (auto simp: NewResult_def Let_def result_id_def split: if_splits)

subsection \<open>Properties\<close>

text \<open>
  C12. \<^verbatim>\<open>ExpandTargets\<close> lists, target by target in the configured order: an address literal as
  itself with no FQDN; a name that resolves as its distinct addresses in the resolver's order, at
  most \<^verbatim>\<open>maxIPs\<close> of them when that is positive; a name that does not resolve as one item whose
  address equals its FQDN.
\<close>

theorem ExpandTargets_spec:
  "ExpandTargets resolver targets maxIPs =
     concat (map (\<lambda>t.
       if ParseIP t \<noteq> None then [\<lparr>wi_IP = t, wi_FQDN = []\<rparr>]
       else case LookupHost resolver t of
              Inr (a # as) \<Rightarrow>
                map (\<lambda>x. \<lparr>wi_IP = x, wi_FQDN = t\<rparr>)
                  (let d = dedup {} (a # as) in if 0 < maxIPs then take (nat maxIPs) d else d)
            | _ \<Rightarrow> [\<lparr>wi_IP = t, wi_FQDN = t\<rparr>]) targets)"
proof -
  have "expand_entry resolver maxIPs t =
     (if ParseIP t \<noteq> None then [\<lparr>wi_IP = t, wi_FQDN = []\<rparr>]
      else case LookupHost resolver t of
             Inr (a # as) \<Rightarrow>
               map (\<lambda>x. \<lparr>wi_IP = x, wi_FQDN = t\<rparr>)
                 (let d = dedup {} (a # as) in if 0 < maxIPs then take (nat maxIPs) d else d)
           | _ \<Rightarrow> [\<lparr>wi_IP = t, wi_FQDN = t\<rparr>])" for t
    by (simp add: expand_entry_def expand_addrs_eq cap_list_def Let_def split: sum.split list.split)
  then show ?thesis unfolding ExpandTargets_concat by presburger
qed

text \<open>
  C13. The goroutines of \<^verbatim>\<open>RunWorkItems\<close> may end in any order: as long as each stores its result
  once, the slice holds the result of item \<open>i\<close> at index \<open>i\<close>, one result per work item.
\<close>

theorem RunWorkItems_order:
  assumes "complete_order order (length (ExpandTargets resolver targets maxIPs))"
  shows "RunWorkItems resolver targets maxIPs probeOne order =
    map (\<lambda>i. probeOne i (ExpandTargets resolver targets maxIPs ! i))
      [0..<length (ExpandTargets resolver targets maxIPs)]"
  using assms by (rule RunWorkItems_eq)

lemma two_literals:
  "ExpandTargets resolver [''10.0.0.1'', ''10.0.0.2''] m =
     [\<lparr>wi_IP = ''10.0.0.1'', wi_FQDN = []\<rparr>, \<lparr>wi_IP = ''10.0.0.2'', wi_FQDN = []\<rparr>]"
proof -
  have "ParseIP ''10.0.0.1'' \<noteq> None" "ParseIP ''10.0.0.2'' \<noteq> None" by code_simp+
  then show ?thesis by (simp add: expand_entry_def)
qed

theorem RunWorkItems_order_witness:
  "RunWorkItems (\<lambda>_. Inl []) [''10.0.0.1'', ''10.0.0.2''] 0
     (\<lambda>i wi. zero_result\<lparr>pr_Target := wi_IP wi\<rparr>) [1, 0] =
   [zero_result\<lparr>pr_Target := ''10.0.0.1''\<rparr>, zero_result\<lparr>pr_Target := ''10.0.0.2''\<rparr>]"
proof -
  have "complete_order [1, 0] 2" by (auto simp: complete_order_def)
  then show ?thesis
    using RunWorkItems_order [of "[1, 0]" "\<lambda>_. Inl []" "[''10.0.0.1'', ''10.0.0.2'']" 0
      "\<lambda>i wi. zero_result\<lparr>pr_Target := wi_IP wi\<rparr>"]
    by (simp add: two_literals numeral_2_eq_2 del: ExpandTargets.simps)
qed

end
