(* ===== verification/Probe_Stats.thy ===== *)
theory Probe_Stats
  imports Types
begin

text \<open>
  \<^verbatim>\<open>internal/probe/stats.go\<close>: the round-trip summary over the samples of a run, in float64
  arithmetic (each operation rounded on its own, as on amd64). The sum of the samples is a
  64-bit integer and wraps.
\<close>

subsection \<open>RTTStats\<close>

definition rtt_step :: "duration \<Rightarrow> duration \<times> duration \<times> duration \<Rightarrow> duration \<times> duration \<times> duration" where
  "rtt_step s = (\<lambda>(minRTT, maxRTT, sum).
     (if s < minRTT then s else minRTT, if maxRTT < s then s else maxRTT, wrap64 (sum + s)))"

definition msPerNano :: float64 where
  "msPerNano = f64 (1 / 1000000)"

definition variance_step :: "float64 \<Rightarrow> duration \<Rightarrow> float64 \<Rightarrow> float64" where
  "variance_step mean s variance =
     (let d = f_sub (f_of_int s) mean in f_add variance (f_mul d d))"

definition RTTStats :: "duration list \<Rightarrow> float64 \<times> float64 \<times> float64 \<times> float64" where
  "RTTStats samples =
     (case samples of
        [] \<Rightarrow> (Fin 0, Fin 0, Fin 0, Fin 0)
      | s0 # _ \<Rightarrow>
          let (minRTT, maxRTT, sum) = fold rtt_step samples (s0, s0, 0);
              n = f_of_int (int (length samples));
              mean = f_div (f_of_int sum) n;
              variance = f_div (fold (variance_step mean) samples (Fin 0)) n
          in (f_mul (f_of_int minRTT) msPerNano, f_mul mean msPerNano,
              f_mul (f_of_int maxRTT) msPerNano, f_mul (f_sqrt variance) msPerNano))"

subsection \<open>The integer part of the loop\<close>

lemma rtt_step_min_max:
  "int64_range (acc + s) \<Longrightarrow> rtt_step s (lo, hi, acc) = (min s lo, max s hi, acc + s)"
  by (auto simp: rtt_step_def)

lemma rtt_fold:
  assumes "\<forall>s \<in> set xs. 0 \<le> s" and "0 \<le> acc" and "acc + sum_list xs < 2 ^ 63"
  shows "fold rtt_step xs (lo, hi, acc) = (fold min xs lo, fold max xs hi, acc + sum_list xs)"
  using assms
proof (induction xs arbitrary: lo hi acc)
  case Nil
  then show ?case by simp
next
  case (Cons s xs)
  have "0 \<le> sum_list xs" using Cons.prems by (intro sum_list_nonneg) auto
  with Cons.prems have "int64_range (acc + s)" by (auto simp: int64_range_def)
  with Cons show ?case by (simp add: rtt_step_min_max add.assoc)
qed

lemma fold_min_Min: "fold min (x # xs) x = Min (set (x # xs))" for x :: int
  using Min.set_eq_fold [of x xs] by simp

lemma fold_max_Max: "fold max (x # xs) x = Max (set (x # xs))" for x :: int
  using Max.set_eq_fold [of x xs] by simp

subsection \<open>The summary over samples that fit\<close>

text \<open>
  Samples that fit: at least one, none negative, fewer than \<open>2 ^ 53\<close>, and a total below
  \<open>2 ^ 53\<close> nanoseconds (over a hundred days), so that the float64 of the sum is exact.
\<close>

definition samples_fit :: "duration list \<Rightarrow> bool" where
  "samples_fit xs \<longleftrightarrow> xs \<noteq> [] \<and> list_all (\<lambda>s. 0 \<le> s) xs \<and> sum_list xs \<le> 2 ^ 53 \<and> length xs \<le> 2 ^ 53"

definition mean64 :: "duration list \<Rightarrow> rat" where
  "mean64 xs = rnd (of_int (sum_list xs) / of_int (int (length xs)))"

definition variance64 :: "duration list \<Rightarrow> float64" where
  "variance64 xs =
     f_div (fold (variance_step (Fin (mean64 xs))) xs (Fin 0)) (f_of_int (int (length xs)))"

lemma member_le_sum_list_int: "x \<in> set xs \<Longrightarrow> \<forall>s \<in> set xs. 0 \<le> s \<Longrightarrow> x \<le> sum_list xs" for x :: int
proof (induction xs)
  case (Cons y ys)
  then have "0 \<le> sum_list ys" by (intro sum_list_nonneg) auto
  with Cons show ?case by auto
qed simp

lemma sum_list_min_max:
  fixes xs :: "int list"
  shows "int (length xs) * Min (set xs) \<le> sum_list xs" and "sum_list xs \<le> int (length xs) * Max (set xs)"
proof -
  have lo: "int (length ys) * a \<le> sum_list ys" if "\<forall>y \<in> set ys. a \<le> y" for a and ys :: "int list"
    using that by (induction ys) (auto simp: algebra_simps)
  have hi: "sum_list ys \<le> int (length ys) * a" if "\<forall>y \<in> set ys. y \<le> a" for a and ys :: "int list"
    using that by (induction ys) (auto simp: algebra_simps)
  show "int (length xs) * Min (set xs) \<le> sum_list xs" by (rule lo) simp
  show "sum_list xs \<le> int (length xs) * Max (set xs)" by (rule hi) simp
qed

lemma samples_fit_bounds:
  assumes "samples_fit xs"
  shows "\<forall>s \<in> set xs. 0 \<le> s \<and> s \<le> 2 ^ 53" and "0 \<le> sum_list xs" and "sum_list xs \<le> 2 ^ 53"
    and "0 < int (length xs)" and "int (length xs) \<le> 2 ^ 53"
    and "Min (set xs) \<in> set xs" and "Max (set xs) \<in> set xs"
proof -
  have nn: "\<forall>s \<in> set xs. 0 \<le> s" and ne: "xs \<noteq> []" and sm: "sum_list xs \<le> 2 ^ 53"
    using assms by (auto simp: samples_fit_def list_all_iff)
  then show "\<forall>s \<in> set xs. 0 \<le> s \<and> s \<le> 2 ^ 53"
    using member_le_sum_list_int [OF _ nn] by force
  show "0 \<le> sum_list xs" using nn by (intro sum_list_nonneg) auto
  show "sum_list xs \<le> 2 ^ 53" by (rule sm)
  show "0 < int (length xs)" using ne by simp
  have "length xs \<le> 2 ^ 53" using assms by (simp add: samples_fit_def)
  then show "int (length xs) \<le> 2 ^ 53" by (simp add: nat_le_iff)
  show "Min (set xs) \<in> set xs" "Max (set xs) \<in> set xs" using ne by (auto intro: Min_in Max_in)
qed

lemma mean64_bounds:
  assumes "samples_fit xs"
  shows "of_int (Min (set xs)) \<le> mean64 xs" and "mean64 xs \<le> of_int (Max (set xs))"
proof -
  note b = samples_fit_bounds [OF assms]
  let ?n = "of_int (int (length xs)) :: rat"
  have n: "0 < ?n" using b(4) by simp
  have "(of_int (int (length xs) * Min (set xs)) :: rat) \<le> of_int (sum_list xs)"
    "(of_int (sum_list xs) :: rat) \<le> of_int (int (length xs) * Max (set xs))"
    by (simp_all only: of_int_le_iff sum_list_min_max)
  then have "of_int (Min (set xs)) \<le> of_int (sum_list xs) / ?n"
    "of_int (sum_list xs) / ?n \<le> of_int (Max (set xs))"
    using n by (simp_all add: pos_le_divide_eq pos_divide_le_eq mult.commute)
  then have "rnd (of_int (Min (set xs))) \<le> mean64 xs" "mean64 xs \<le> rnd (of_int (Max (set xs)))"
    unfolding mean64_def by (simp_all only: rnd_mono)
  moreover have "\<bar>Min (set xs)\<bar> \<le> 2 ^ 53" "\<bar>Max (set xs)\<bar> \<le> 2 ^ 53" using b by auto
  ultimately show "of_int (Min (set xs)) \<le> mean64 xs" "mean64 xs \<le> of_int (Max (set xs))"
    by (simp_all add: r64.exact_int)
qed

lemma two53_1000: "(2 :: rat) ^ 53 \<le> 2 ^ 1000" "(2 :: rat) ^ 160 \<le> 2 ^ 1000"
  by (rule power_increasing; simp)+

lemma RTTStats_fit:
  assumes "samples_fit xs"
  shows "RTTStats xs =
    (f_mul (Fin (of_int (Min (set xs)))) msPerNano, f_mul (Fin (mean64 xs)) msPerNano,
     f_mul (Fin (of_int (Max (set xs)))) msPerNano, f_mul (f_sqrt (variance64 xs)) msPerNano)"
proof -
  note b = samples_fit_bounds [OF assms]
  obtain x ys where xs: "xs = x # ys" using b(4) by (cases xs) auto
  have "\<forall>s \<in> set xs. 0 \<le> s" "0 + sum_list xs < 2 ^ 63" using b by auto
  then have f: "fold rtt_step xs (x, x, 0) = (Min (set xs), Max (set xs), sum_list xs)"
    using rtt_fold [of xs 0 x x] fold_min_Min [of x ys] fold_max_Max [of x ys] by (simp add: xs)
  have ex: "f_of_int (sum_list xs) = Fin (of_int (sum_list xs))"
    "f_of_int (int (length xs)) = Fin (of_int (int (length xs)))"
    "f_of_int (Min (set xs)) = Fin (of_int (Min (set xs)))"
    "f_of_int (Max (set xs)) = Fin (of_int (Max (set xs)))"
    using b by (auto intro!: f_of_int_exact simp del: of_int_of_nat_eq)
  have q: "\<bar>of_int (sum_list xs) / of_int (int (length xs)) :: rat\<bar> \<le> 2 ^ 1000"
  proof -
    have "(of_int (sum_list xs) :: rat) \<le> of_int (2 ^ 53)" using b(3) by (simp only: of_int_le_iff)
    moreover have "of_int (sum_list xs) / of_int (int (length xs)) \<le> (of_int (sum_list xs) / 1 :: rat)"
      using b(2,4) by (intro divide_left_mono) (auto simp: Suc_le_eq)
    ultimately have "of_int (sum_list xs) / of_int (int (length xs)) \<le> (2 ^ 1000 :: rat)"
      using two53_1000(1) by (simp del: power_numeral_even of_int_of_nat_eq)
    then show ?thesis using b(2) by (simp del: power_numeral_even)
  qed
  have mean: "f_div (Fin (of_int (sum_list xs))) (Fin (of_int (int (length xs)))) = Fin (mean64 xs)"
    using b(4) q by (simp add: mean64_def f64_Fin del: power_numeral_even)
  have "RTTStats xs =
    (let (minRTT, maxRTT, sum) = fold rtt_step xs (x, x, 0); n = f_of_int (int (length xs));
         mean = f_div (f_of_int sum) n; variance = f_div (fold (variance_step mean) xs (Fin 0)) n
     in (f_mul (f_of_int minRTT) msPerNano, f_mul mean msPerNano,
         f_mul (f_of_int maxRTT) msPerNano, f_mul (f_sqrt variance) msPerNano))"
    by (simp only: RTTStats_def xs list.case)
  then show ?thesis
    by (simp only: f Let_def prod.case ex mean variance64_def)
qed

subsection \<open>The variance is finite and not negative\<close>

lemma variance_step_bound:
  assumes m: "0 \<le> m" "m \<le> 2 ^ 53" and s: "0 \<le> s" "s \<le> 2 ^ 53"
    and v: "0 \<le> v" "v \<le> of_int j * 2 powi 106" and j: "0 \<le> j" "j < 2 ^ 53"
  shows "\<exists>w. variance_step (Fin m) s (Fin v) = Fin w \<and> 0 \<le> w \<and> w \<le> of_int (j + 1) * 2 powi 106"
proof -
  have sr: "(of_int s :: rat) \<le> of_int (2 ^ 53)" using s(2) by (simp only: of_int_le_iff)
  have fs: "f_of_int s = Fin (of_int s)" using s by (intro f_of_int_exact) simp
  have B: "rnd (2 ^ 53) = 2 ^ 53" using r64.exact_int [of "2 ^ 53"] by simp
  define d where "d = rnd (of_int s - m)"
  have "\<bar>of_int s - m\<bar> \<le> 2 ^ 53" using sr s(1) m by (auto simp: abs_le_iff)
  then have sub: "f_sub (Fin (of_int s)) (Fin m) = Fin d"
    using two53_1000(1) by (simp add: f_sub_def f64_Fin d_def del: power_numeral_even)
  have "\<bar>d\<bar> \<le> 2 ^ 53"
    using rnd_mono [of "of_int s - m" "2 ^ 53"] rnd_mono [of "- (of_int s - m)" "2 ^ 53"]
      rnd_odd [of "of_int s - m"] B \<open>\<bar>of_int s - m\<bar> \<le> 2 ^ 53\<close>
    by (simp add: d_def abs_le_iff)
  then have dd: "0 \<le> d * d" "d * d \<le> 2 powi 106"
    using mult_mono [of "\<bar>d\<bar>" "2 ^ 53" "\<bar>d\<bar>" "2 ^ 53"] by (simp_all add: power_int_def)
  define q where "q = rnd (d * d)"
  have q: "0 \<le> q" "q \<le> 2 powi 106"
    using r64.nonneg [OF dd(1)] rnd_mono [OF dd(2)] rnd_exact [of 1 106]
    by (simp_all add: q_def power_int_def)
  have mul: "f_mul (Fin d) (Fin d) = Fin q"
    using dd two53_1000(2) by (simp add: q_def f64_Fin power_int_def)
  have up: "v + q \<le> of_int (j + 1) * 2 powi 106" using v(2) q(2) by (simp add: algebra_simps)
  have ex: "rnd (of_int (j + 1) * 2 powi 106) = of_int (j + 1) * 2 powi 106"
    using j by (intro rnd_exact) auto
  have "(of_int (j + 1) :: rat) \<le> of_int (2 ^ 53)" using j by (subst of_int_le_iff) simp
  then have "of_int (j + 1) * 2 powi 106 \<le> (2 ^ 160 :: rat)"
    by (simp add: power_int_def)
  then have add: "f_add (Fin v) (Fin q) = Fin (rnd (v + q))"
    using v(1) q(1) up two53_1000(2) by (simp add: f64_Fin del: power_numeral_even)
  have "rnd (v + q) \<le> of_int (j + 1) * 2 powi 106" using rnd_mono [OF up] ex by simp
  moreover have "0 \<le> rnd (v + q)" using v(1) q(1) by (intro r64.nonneg) simp
  ultimately show ?thesis
    unfolding variance_step_def Let_def fs sub mul add by blast
qed

lemma variance_fold_bound:
  assumes "0 \<le> m" "m \<le> 2 ^ 53" and "\<forall>s \<in> set xs. 0 \<le> s \<and> s \<le> 2 ^ 53"
    and "0 \<le> v" "v \<le> of_int j * 2 powi 106" and "0 \<le> j" "j + int (length xs) \<le> 2 ^ 53"
  shows "\<exists>w. fold (variance_step (Fin m)) xs (Fin v) = Fin w \<and> 0 \<le> w \<and>
    w \<le> of_int (j + int (length xs)) * 2 powi 106"
  using assms
proof (induction xs arbitrary: v j)
  case Nil
  then show ?case by simp
next
  case (Cons s xs)
  from Cons.prems obtain w where w: "variance_step (Fin m) s (Fin v) = Fin w" "0 \<le> w"
    "w \<le> of_int (j + 1) * 2 powi 106"
    using variance_step_bound [of m s v j] by auto
  have "\<exists>w'. fold (variance_step (Fin m)) xs (Fin w) = Fin w' \<and> 0 \<le> w' \<and>
    w' \<le> of_int (j + 1 + int (length xs)) * 2 powi 106"
    using Cons.prems w by (intro Cons.IH) auto
  then show ?case by (simp add: w algebra_simps)
qed

lemma variance64_bound:
  assumes "samples_fit xs"
  shows "\<exists>w. variance64 xs = Fin w \<and> 0 \<le> w \<and> w \<le> 2 ^ 159"
proof -
  note b = samples_fit_bounds [OF assms]
  let ?n = "of_int (int (length xs)) :: rat"
  have ends: "0 \<le> Min (set xs)" "Max (set xs) \<le> 2 ^ 53" using b by auto
  then have "(0 :: rat) \<le> of_int (Min (set xs))" "(of_int (Max (set xs)) :: rat) \<le> of_int (2 ^ 53)"
    by (simp, simp only: of_int_le_iff)
  then have m: "0 \<le> mean64 xs" "mean64 xs \<le> 2 ^ 53"
    using mean64_bounds [OF assms] by simp_all
  obtain w where w: "fold (variance_step (Fin (mean64 xs))) xs (Fin 0) = Fin w" "0 \<le> w"
    "w \<le> of_int (0 + int (length xs)) * 2 powi 106"
    using variance_fold_bound [OF m b(1), of 0 0] b(5) by auto
  have n: "f_of_int (int (length xs)) = Fin ?n" "1 \<le> ?n"
    using b(4,5) by (auto intro!: f_of_int_exact simp del: of_int_of_nat_eq simp: Suc_le_eq)
  have "?n \<le> of_int (2 ^ 53)" using b(5) by (simp only: of_int_le_iff)
  then have "of_int (0 + int (length xs)) * 2 powi 106 \<le> (2 ^ 159 :: rat)"
    by (simp add: power_int_def)
  with w have w2: "w \<le> 2 ^ 159" by linarith
  have "w / ?n \<le> w / 1" using w(2) n(2) by (intro divide_left_mono) auto
  with w2 have q: "0 \<le> w / ?n" "w / ?n \<le> 2 ^ 159" using w(2) n(2) by simp_all
  have "rnd (2 ^ 159) = 2 ^ 159" using rnd_exact [of 1 159] by (simp add: power_int_def)
  with q have "0 \<le> rnd (w / ?n)" "rnd (w / ?n) \<le> 2 ^ 159"
    using r64.nonneg [OF q(1)] rnd_mono [OF q(2)] by simp_all
  moreover have "variance64 xs = Fin (rnd (w / ?n))"
    using q n b(4) two53_1000(2) unfolding variance64_def w n by (simp add: f64_Fin)
  ultimately show ?thesis by blast
qed

lemma f_sqrt_bound:
  assumes "0 \<le> w" and "w \<le> 2 ^ 160"
  shows "\<exists>r. f_sqrt (Fin w) = Fin r \<and> 0 \<le> r \<and> r \<le> 2 ^ 81"
proof (cases "w = 0")
  case False
  with assms have w: "0 < w" by simp
  define h where "h = (2 powi (expo w div 2 - 53) :: rat)"
  obtain r where r: "0 \<le> r" "f_sqrt (Fin w) = Fin r" "(r - h) * (r - h) \<le> w"
    using f_sqrt_near [OF w] by (auto simp: h_def)
  have "2 powi (expo w) < (2 powi 161 :: rat)"
    using expo_bounds(1) [OF w] assms(2) by (simp add: power_int_def)
  then have "expo w < 161" by (simp only: powi_less_iff)
  then have "h \<le> 2 powi 80" by (simp only: h_def powi_le_iff)
  moreover have "(r - h) ^ 2 \<le> (2 ^ 80) ^ 2"
    using r(3) assms(2) by (simp add: power2_eq_square)
  then have "r - h \<le> 2 ^ 80" by (rule power2_le_imp_le) simp
  ultimately show ?thesis using r by (simp add: power_int_def)
qed simp

lemma msPerNano_Fin: "\<exists>c. msPerNano = Fin c \<and> 0 \<le> c \<and> c \<le> 1"
proof -
  have "msPerNano = Fin (rnd (1 / 1000000))" by (simp add: msPerNano_def f64_Fin)
  moreover have "rnd (1 / 1000000) \<le> 1" using rnd_mono [of "1 / 1000000" 1] by simp
  moreover have "0 \<le> rnd (1 / 1000000)" by (rule r64.nonneg) simp
  ultimately show ?thesis by blast
qed

lemma f_mul_ms:
  assumes "msPerNano = Fin c" "0 \<le> c" "c \<le> 1" and "0 \<le> x" "x \<le> 2 ^ 81"
  shows "f_mul (Fin x) msPerNano = Fin (rnd (x * c))"
proof -
  have "x * c \<le> x * 1" using assms by (intro mult_left_mono) auto
  then have "\<bar>x * c\<bar> \<le> 2 ^ 1000" using assms two53_1000(2) by simp
  then show ?thesis unfolding assms(1) f_mul.simps by (rule f64_Fin)
qed

text \<open>
  The summary of samples that fit: the four values are finite, the mean lies between the minimum
  and the maximum, and the deviation is not negative.
\<close>

lemma RTTStats_ordered:
  assumes "samples_fit xs"
  shows "\<exists>c mn me mx sd. msPerNano = Fin c \<and> RTTStats xs = (Fin mn, Fin me, Fin mx, Fin sd) \<and>
    mn = rnd (of_int (Min (set xs)) * c) \<and> mx = rnd (of_int (Max (set xs)) * c) \<and>
    0 \<le> mn \<and> mn \<le> me \<and> me \<le> mx \<and> 0 \<le> sd"
proof -
  note b = samples_fit_bounds [OF assms] and m = mean64_bounds [OF assms]
  obtain c where c: "msPerNano = Fin c" "0 \<le> c" "c \<le> 1" using msPerNano_Fin by blast
  obtain w where w: "variance64 xs = Fin w" "0 \<le> w" "w \<le> 2 ^ 159"
    using variance64_bound [OF assms] by blast
  then obtain r where r: "f_sqrt (Fin w) = Fin r" "0 \<le> r" "r \<le> 2 ^ 81"
    using f_sqrt_bound [of w] by auto
  let ?lo = "of_int (Min (set xs)) :: rat" and ?hi = "of_int (Max (set xs)) :: rat"
  have "Max (set xs) \<le> 2 ^ 53" "0 \<le> Min (set xs)" using b by auto
  then have e: "0 \<le> ?lo" "?hi \<le> of_int (2 ^ 53)" by (simp, simp only: of_int_le_iff)
  have "0 \<le> rnd (?lo * c)" "rnd (?lo * c) \<le> rnd (mean64 xs * c)" "rnd (mean64 xs * c) \<le> rnd (?hi * c)"
    "0 \<le> rnd (r * c)"
    using m e c r by (auto intro!: r64.nonneg rnd_mono mult_right_mono)
  moreover have "RTTStats xs = (Fin (rnd (?lo * c)), Fin (rnd (mean64 xs * c)), Fin (rnd (?hi * c)),
    Fin (rnd (r * c)))"
    using m e r unfolding RTTStats_fit [OF assms] w(1) r(1) by (simp add: f_mul_ms [OF c])
  ultimately show ?thesis using c(1) by blast
qed

lemma RTTStats_constant:
  assumes "samples_fit (replicate n s)"
  shows "\<exists>x. RTTStats (replicate n s) = (x, x, x, Fin 0)"
proof -
  have n: "0 < n" using assms by (auto simp: samples_fit_def)
  then have set: "set (replicate n s) = {s}" by simp
  note b = samples_fit_bounds [OF assms]
  have s: "0 \<le> s" "s \<le> 2 ^ 53" using b(1) set by auto
  have mean: "mean64 (replicate n s) = of_int s"
    using mean64_bounds [OF assms] by (simp add: set)
  have fs: "f_of_int s = Fin (of_int s)" using s by (intro f_of_int_exact) simp
  have z: "f64 0 = Fin 0" by (simp add: f64_Fin)
  have step: "variance_step (Fin (of_int s)) s (Fin 0) = Fin 0"
    by (simp add: variance_step_def Let_def fs f_sub_def z)
  have "fold (variance_step (Fin (of_int s))) (replicate n s) (Fin 0) = Fin 0"
    by (induction n) (simp_all add: step)
  moreover have "f_of_int (int n) = Fin (of_int (int n))"
    using b(5) by (intro f_of_int_exact) simp
  ultimately have var: "variance64 (replicate n s) = Fin 0"
    using n by (simp add: variance64_def mean z)
  obtain c where c: "msPerNano = Fin c" using msPerNano_Fin by blast
  show ?thesis
    unfolding RTTStats_fit [OF assms] by (simp add: set mean var c z)
qed

subsection \<open>Properties\<close>

text \<open>
  C11. For samples that are not negative and whose sum a float64 holds exactly, the four statistics
  are finite, the minimum and maximum are the rounded extremes, the mean lies between them in
  spite of rounding, and the standard deviation is not negative.
\<close>

theorem RTTStats_min_mean_max:
  assumes "samples_fit samples"
  shows "\<exists>c mn me mx sd. msPerNano = Fin c \<and> RTTStats samples = (Fin mn, Fin me, Fin mx, Fin sd) \<and>
    mn = rnd (of_int (Min (set samples)) * c) \<and> mx = rnd (of_int (Max (set samples)) * c) \<and>
    0 \<le> mn \<and> mn \<le> me \<and> me \<le> mx \<and> 0 \<le> sd"
  using assms by (rule RTTStats_ordered)

theorem RTTStats_min_mean_max_witness:
  "\<exists>c mn me mx sd. msPerNano = Fin c \<and>
    RTTStats [1500000, 2500000, 900000] = (Fin mn, Fin me, Fin mx, Fin sd) \<and>
    mn = rnd (900000 * c) \<and> mx = rnd (2500000 * c) \<and> 0 \<le> mn \<and> mn \<le> me \<and> me \<le> mx \<and> 0 \<le> sd"
  using RTTStats_min_mean_max [of "[1500000, 2500000, 900000]"] by (simp add: samples_fit_def)

text \<open>
  Equal samples have no spread: the minimum, the mean and the maximum are the same number and
  the standard deviation is exactly zero, whatever the number of samples.
\<close>

theorem RTTStats_no_spread:
  assumes "samples_fit (replicate n s)"
  shows "\<exists>x. RTTStats (replicate n s) = (x, x, x, Fin 0)"
  using assms by (rule RTTStats_constant)

theorem RTTStats_no_spread_witness: "\<exists>x. RTTStats [333333, 333333, 333333] = (x, x, x, Fin 0)"
  using RTTStats_no_spread [of 3 333333] by (simp add: samples_fit_def numeral_3_eq_3)

end
