(* ===== verification/Probe_Run.thy ===== *)
theory Probe_Run
  imports Probe_Targets Probe_Stats
begin

text \<open>
  \<^verbatim>\<open>internal/probe/run.go\<close>: the status of a loss ratio and \<^verbatim>\<open>RunLoop\<close>, the loop of attempts that
  the TCP, UDP and DNS probers share.

  An attempt closure may write variables it captured: it takes their value and returns the new
  one. \<open>ctx_done i\<close> says whether the context is done when the wait before attempt \<open>i\<close> ends (the
  wait itself takes no part in the result). \<open>attempts_made\<close> is the list of the attempts the loop
  makes; the theorem \<open>RunLoop_refines\<close> compares the loop with a reference that has no loop.
\<close>

subsection \<open>Status of a loss ratio\<close>

definition StatusFromLoss :: "float64 \<Rightarrow> Status" where
  "StatusFromLoss lossRatio =
     (if f_eq lossRatio (Fin 0) then StatusSuccess
      else if f_le (Fin 1) lossRatio then StatusFailure
      else StatusPartial)"

definition loss_ratio :: "go_int \<Rightarrow> go_int \<Rightarrow> float64" where
  "loss_ratio received sent = f_sub (Fin 1) (f_div (f_of_int received) (f_of_int sent))"

text \<open>
  Rounding never turns a partial loss into none or total: up to \<open>2 ^ 53\<close> packets the ratio is 0
  exactly when everything was received and 1 exactly when nothing was.
\<close>

lemma loss_ratio_cases:
  assumes "0 \<le> r" and "r \<le> s" and "0 < s" and "s \<le> 2 ^ 53"
  shows "\<exists>x. loss_ratio r s = Fin x \<and> 0 \<le> x \<and> x \<le> 1 \<and> (x = 0 \<longleftrightarrow> r = s) \<and> (x = 1 \<longleftrightarrow> r = 0)"
proof -
  have ex: "f_of_int r = Fin (of_int r)" "f_of_int s = Fin (of_int s)"
    using assms by (auto intro!: f_of_int_exact)
  let ?q = "of_int r / of_int s :: rat"
  have q: "0 \<le> ?q" "?q \<le> 1" using assms by (simp_all add: divide_le_eq)
  have div: "f_div (f_of_int r) (f_of_int s) = Fin (rnd ?q)"
    using assms(3) f64_unit [OF q] by (simp add: ex)
  have rq: "0 \<le> rnd ?q" "rnd ?q \<le> 1"
    using r64.nonneg [OF q(1)] rnd_mono [OF q(2)] by simp_all
  then have loss: "loss_ratio r s = Fin (rnd (1 - rnd ?q))"
    unfolding loss_ratio_def div f_sub_def by (simp add: f64_Fin)
  consider "r = 0" | "r = s" | "0 < r" "r < s" using assms by linarith
  then show ?thesis
  proof cases
    case 1
    with loss assms show ?thesis by auto
  next
    case 2
    with loss assms show ?thesis by auto
  next
    case 3
    have "0 < rnd (1 - rnd ?q)" "rnd (1 - rnd ?q) < 1"
      using r64.complement [OF 3 assms(4)] by simp_all
    with loss 3 show ?thesis by auto
  qed
qed

lemma StatusFromLoss_Fin:
  assumes "0 \<le> x" and "x \<le> 1"
  shows "StatusFromLoss (Fin x) =
    (if x = 0 then StatusSuccess else if x = 1 then StatusFailure else StatusPartial)"
  using assms by (simp add: StatusFromLoss_def)

lemma StatusFromLoss_not_error: "StatusFromLoss x \<noteq> StatusError" "StatusFromLoss x \<noteq> StatusUnset"
  by (simp_all add: StatusFromLoss_def)

lemma StatusFromLoss_ratio:
  assumes "0 \<le> r" and "r \<le> s" and "0 < s" and "s \<le> 2 ^ 53"
  shows "StatusFromLoss (loss_ratio r s) =
    (if r = s then StatusSuccess else if r = 0 then StatusFailure else StatusPartial)"
  using loss_ratio_cases [OF assms] by (auto simp: StatusFromLoss_Fin)

subsection \<open>RunLoop\<close>

record Attempt =
  a_RTT :: duration
  a_Received :: bool
  a_Err :: "string option"

text \<open>
  The loop from index \<open>i\<close> with \<open>n\<close> rounds left, over the result, the samples, \<^verbatim>\<open>lastErr\<close> and the
  captured variables.
\<close>

fun attempt_loop :: "(nat \<Rightarrow> bool) \<Rightarrow> (nat \<Rightarrow> 's \<Rightarrow> Attempt \<times> 's) \<Rightarrow> nat \<Rightarrow> nat
    \<Rightarrow> ProbeResult \<Rightarrow> duration list \<Rightarrow> string option \<Rightarrow> 's
    \<Rightarrow> ProbeResult \<times> duration list \<times> string option \<times> 's" where
  "attempt_loop ctx_done attempt i 0 result samples lastErr s = (result, samples, lastErr, s)"
| "attempt_loop ctx_done attempt i (Suc n) result samples lastErr s =
     (if 0 < i \<and> ctx_done i then (result, samples, lastErr, s)
      else let (a, s1) = attempt i s;
               result1 = result\<lparr>pr_PacketsSent := pr_PacketsSent result + 1\<rparr>
           in case a_Err a of
                Some e \<Rightarrow> (result1, samples, Some e, s1)
              | None \<Rightarrow>
                  if \<not> a_Received a
                  then attempt_loop ctx_done attempt (Suc i) n result1 samples lastErr s1
                  else attempt_loop ctx_done attempt (Suc i) n
                         (result1\<lparr>pr_PacketsReceived := pr_PacketsReceived result1 + 1\<rparr>)
                         (samples @ [a_RTT a]) lastErr s1)"

text \<open>What follows the loop: the two error cases, then the loss, the status and the statistics.\<close>

definition finish_loop :: "ProbeResult \<Rightarrow> duration list \<Rightarrow> string option \<Rightarrow> bool \<times> ProbeResult" where
  "finish_loop result samples lastErr =
     (if lastErr \<noteq> None \<and> pr_PacketsReceived result = 0
      then (False, result\<lparr>pr_Status := StatusError, pr_ErrorType := ''probe_error'',
                          pr_ErrorMsg := the lastErr\<rparr>)
      else if pr_PacketsSent result = 0
      then (False, result\<lparr>pr_Status := StatusError, pr_ErrorType := ''cancelled'',
                          pr_ErrorMsg := ''no attempts made before context cancellation''\<rparr>)
      else
        let loss = loss_ratio (pr_PacketsReceived result) (pr_PacketsSent result);
            result1 = result\<lparr>pr_PacketLossRatio := loss, pr_Status := StatusFromLoss loss\<rparr>
        in if 0 < pr_PacketsReceived result1
           then let (mn, me, mx, sd) = RTTStats samples
                in (True, result1\<lparr>pr_RTTMinMS := mn, pr_RTTMeanMS := me, pr_RTTMaxMS := mx,
                                  pr_RTTStddevMS := sd\<rparr>)
           else (True, result1))"

definition RunLoop :: "(nat \<Rightarrow> bool) \<Rightarrow> (nat \<Rightarrow> 's \<Rightarrow> Attempt \<times> 's) \<Rightarrow> go_int \<Rightarrow> ProbeResult \<Rightarrow> 's
    \<Rightarrow> bool \<times> ProbeResult \<times> 's" where
  "RunLoop ctx_done attempt count result s =
     (let (result1, samples, lastErr, s1) =
            attempt_loop ctx_done attempt 0 (nat count) result [] None s;
          (ok, result2) = finish_loop result1 samples lastErr
      in (ok, result2, s1))"

subsection \<open>The attempts that are made\<close>

fun attempts_made :: "(nat \<Rightarrow> bool) \<Rightarrow> (nat \<Rightarrow> 's \<Rightarrow> Attempt \<times> 's) \<Rightarrow> nat \<Rightarrow> nat \<Rightarrow> 's
    \<Rightarrow> Attempt list \<times> 's" where
  "attempts_made ctx_done attempt i 0 s = ([], s)"
| "attempts_made ctx_done attempt i (Suc n) s =
     (if 0 < i \<and> ctx_done i then ([], s)
      else let (a, s1) = attempt i s
           in if a_Err a \<noteq> None then ([a], s1)
              else let (as, s2) = attempts_made ctx_done attempt (Suc i) n s1 in (a # as, s2))"

definition answered :: "Attempt list \<Rightarrow> Attempt list" where
  "answered as = filter (\<lambda>a. a_Err a = None \<and> a_Received a) as"

definition final_error :: "Attempt list \<Rightarrow> string option" where
  "final_error as = (if as = [] then None else a_Err (last as))"

definition count_attempts :: "Attempt list \<Rightarrow> ProbeResult \<Rightarrow> ProbeResult" where
  "count_attempts as r = r\<lparr>
     pr_PacketsSent := pr_PacketsSent r + int (length as),
     pr_PacketsReceived := pr_PacketsReceived r + int (length (answered as))\<rparr>"

lemma length_answered: "length (answered as) \<le> length as"
  by (simp add: answered_def)

lemma attempt_loop_spec:
  "attempt_loop c att i n r xs None s =
     (let (as, s1) = attempts_made c att i n s
      in (count_attempts as r, xs @ map a_RTT (answered as), final_error as, s1))"
proof (induction n arbitrary: i r xs s)
  case 0
  show ?case by (simp add: count_attempts_def answered_def final_error_def)
next
  case (Suc n)
  obtain a s1 where a: "att i s = (a, s1)" by fastforce
  obtain as s2 where as: "attempts_made c att (Suc i) n s1 = (as, s2)" by fastforce
  show ?case
    using Suc.IH a as
    by (auto simp: count_attempts_def answered_def final_error_def Let_def split: option.splits)
qed

lemma attempts_made_length: "attempts_made c att i n s = (as, s1) \<Longrightarrow> length as \<le> n"
  by (induction n arbitrary: i s as) (auto simp: Let_def split: if_splits prod.splits)

lemma attempts_made_first: "attempts_made c att 0 (Suc n) s = (as, s1) \<Longrightarrow> as \<noteq> []"
  by (auto simp: Let_def split: if_splits prod.splits)

text \<open>The specification of \<^verbatim>\<open>RunLoop\<close>: the result is a function of the attempts that were made.\<close>

lemma RunLoop_spec:
  "RunLoop c att count r s =
     (let (as, s1) = attempts_made c att 0 (nat count) s;
          (ok, r1) = finish_loop (count_attempts as r) (map a_RTT (answered as)) (final_error as)
      in (ok, r1, s1))"
  by (simp add: RunLoop_def attempt_loop_spec Let_def split: prod.splits)

subsection \<open>The outcome of a run\<close>

text \<open>A fresh result, as \<^verbatim>\<open>NewResult\<close> returns it.\<close>

definition fresh :: "ProbeResult \<Rightarrow> bool" where
  "fresh r \<longleftrightarrow> pr_PacketsSent r = 0 \<and> pr_PacketsReceived r = 0 \<and> pr_PortOpen r = None"

lemma NewResult_fresh: "NewResult now cfg wi ty = (r, True) \<Longrightarrow> fresh r"
  by (auto dest!: NewResult_ok_fields simp: fresh_def zero_result_def)

lemma finish_loop_frame:
  assumes "finish_loop r xs e = (ok, r1)"
  shows "pr_PacketsSent r1 = pr_PacketsSent r" "pr_PacketsReceived r1 = pr_PacketsReceived r"
    "pr_PortOpen r1 = pr_PortOpen r" "pr_Target r1 = pr_Target r" "pr_ProbeType r1 = pr_ProbeType r"
    "pr_FQDN r1 = pr_FQDN r" "pr_ProbeName r1 = pr_ProbeName r"
  using assms by (auto simp: finish_loop_def Let_def split: if_splits prod.splits)

lemma finish_loop_ok:
  assumes "finish_loop r xs e = (ok, r1)" and "0 < pr_PacketsSent r"
  shows "ok \<longleftrightarrow> (e = None \<or> pr_PacketsReceived r \<noteq> 0)"
    and "ok \<Longrightarrow> pr_PacketLossRatio r1 = loss_ratio (pr_PacketsReceived r) (pr_PacketsSent r) \<and>
               pr_Status r1 = StatusFromLoss (pr_PacketLossRatio r1)"
    and "\<not> ok \<Longrightarrow> pr_Status r1 = StatusError \<and> pr_ErrorType r1 = ''probe_error''"
  using assms by (auto simp: finish_loop_def Let_def split: if_splits prod.splits)

lemma finish_loop_rtt:
  assumes "finish_loop r xs e = (True, r1)" and "0 < pr_PacketsReceived r"
  shows "(pr_RTTMinMS r1, pr_RTTMeanMS r1, pr_RTTMaxMS r1, pr_RTTStddevMS r1) = RTTStats xs"
  using assms by (auto simp: finish_loop_def Let_def split: if_splits prod.splits)

lemma RunLoop_id:
  assumes "RunLoop c att count r s = (ok, r1, s1)"
  shows "result_id r1 = result_id r"
proof -
  obtain as s2 where as: "attempts_made c att 0 (nat count) s = (as, s2)" by fastforce
  obtain r2 where f: "finish_loop (count_attempts as r) (map a_RTT (answered as)) (final_error as) = (ok, r2)"
    and "r1 = r2" using assms by (auto simp: RunLoop_spec as Let_def split: prod.splits)
  with finish_loop_frame [OF f] show ?thesis by (simp add: result_id_def count_attempts_def)
qed

text \<open>
  The counters of a run over a fresh result, for a positive count: at least one attempt is made,
  at most \<open>count\<close>.
\<close>

lemma RunLoop_counters:
  assumes run: "RunLoop c att count r s = (ok, r1, s1)" and "fresh r" and "0 < count"
  shows "1 \<le> pr_PacketsSent r1" and "pr_PacketsSent r1 \<le> count"
    and "0 \<le> pr_PacketsReceived r1" and "pr_PacketsReceived r1 \<le> pr_PacketsSent r1"
    and "pr_PortOpen r1 = None"
proof -
  obtain n where n: "nat count = Suc n" using assms(3) by (cases "nat count") auto
  obtain as s2 where as: "attempts_made c att 0 (nat count) s = (as, s2)" by fastforce
  have "as \<noteq> []" using as n attempts_made_first by metis
  moreover have "int (length as) \<le> count" using attempts_made_length [OF as] assms(3) by simp
  moreover obtain r2 where f: "finish_loop (count_attempts as r) (map a_RTT (answered as)) (final_error as) = (ok, r2)"
    and "r1 = r2" using run by (auto simp: RunLoop_spec as Let_def split: prod.splits)
  moreover note finish_loop_frame [OF f] length_answered [of as]
  ultimately show "1 \<le> pr_PacketsSent r1" "pr_PacketsSent r1 \<le> count"
    "0 \<le> pr_PacketsReceived r1" "pr_PacketsReceived r1 \<le> pr_PacketsSent r1" "pr_PortOpen r1 = None"
    using assms(2) by (auto simp: fresh_def count_attempts_def Suc_le_eq)
qed

text \<open>The status of a run, for a count a float64 can hold.\<close>

lemma RunLoop_status:
  assumes run: "RunLoop c att count r s = (ok, r1, s1)" and "fresh r" and "0 < count" "count \<le> 2 ^ 53"
  shows "pr_Status r1 =
    (if \<not> ok then StatusError
     else if pr_PacketsReceived r1 = pr_PacketsSent r1 then StatusSuccess
     else if pr_PacketsReceived r1 = 0 then StatusFailure else StatusPartial)"
    and "ok \<Longrightarrow> pr_PacketLossRatio r1 = loss_ratio (pr_PacketsReceived r1) (pr_PacketsSent r1)"
    and "\<not> ok \<Longrightarrow> pr_PacketsReceived r1 = 0 \<and> pr_ErrorType r1 = ''probe_error''"
proof -
  note cnt = RunLoop_counters [OF run assms(2,3)]
  obtain as s2 where as: "attempts_made c att 0 (nat count) s = (as, s2)" by fastforce
  let ?r = "count_attempts as r"
  obtain r2 where f: "finish_loop ?r (map a_RTT (answered as)) (final_error as) = (ok, r2)"
    and r: "r1 = r2" using run by (auto simp: RunLoop_spec as Let_def split: prod.splits)
  note fr = finish_loop_frame [OF f]
  have s: "0 < pr_PacketsSent ?r" using cnt(1) fr(1) r by simp
  note ok = finish_loop_ok [OF f s]
  show "ok \<Longrightarrow> pr_PacketLossRatio r1 = loss_ratio (pr_PacketsReceived r1) (pr_PacketsSent r1)"
    using ok(2) fr r by simp
  show "pr_Status r1 = (if \<not> ok then StatusError
     else if pr_PacketsReceived r1 = pr_PacketsSent r1 then StatusSuccess
     else if pr_PacketsReceived r1 = 0 then StatusFailure else StatusPartial)"
    using ok(2,3) fr r cnt assms(4)
      StatusFromLoss_ratio [of "pr_PacketsReceived r1" "pr_PacketsSent r1"] by auto
  show "\<not> ok \<Longrightarrow> pr_PacketsReceived r1 = 0 \<and> pr_ErrorType r1 = ''probe_error''"
    using ok(1,3) fr r by auto
qed

text \<open>A closure that never returns an error makes every run of a positive count a measurement.\<close>

lemma attempts_no_error:
  assumes "\<And>i s. a_Err (fst (att i s)) = None"
  shows "attempts_made c att i n s = (as, s1) \<Longrightarrow> a \<in> set as \<Longrightarrow> a_Err a = None"
proof (induction n arbitrary: i s as)
  case (Suc n)
  with assms [of i s] show ?case by (auto simp: Let_def split: if_splits prod.splits)
qed simp

lemma RunLoop_measures:
  assumes run: "RunLoop c att count r s = (ok, r1, s1)" and "fresh r" and "0 < count"
    and no_err: "\<And>i s. a_Err (fst (att i s)) = None"
  shows "ok"
proof -
  obtain n where n: "nat count = Suc n" using assms(3) by (cases "nat count") auto
  obtain as s2 where as: "attempts_made c att 0 (nat count) s = (as, s2)" by fastforce
  have ne: "as \<noteq> []" using as n attempts_made_first by metis
  then have "final_error as = None"
    using attempts_no_error [OF no_err as, of "last as"] by (simp add: final_error_def)
  with run assms(2) ne show ?thesis
    by (auto simp: RunLoop_spec as Let_def finish_loop_def fresh_def count_attempts_def
        split: prod.splits if_splits)
qed

subsection \<open>Properties\<close>

text \<open>
  C3. Up to \<open>2 ^ 53\<close> packets, the loss ratio that the code computes in floating point lies between
  0 and 1, and the status derived from it is exact: success when every packet was answered,
  failure when none was, partial otherwise. Rounding never crosses a boundary.
\<close>

theorem StatusFromLoss_exact:
  assumes "0 \<le> received" and "received \<le> sent" and "0 < sent" and "sent \<le> 2 ^ 53"
  shows "\<exists>x. loss_ratio received sent = Fin x \<and> 0 \<le> x \<and> x \<le> 1 \<and>
    StatusFromLoss (loss_ratio received sent) =
      (if received = sent then StatusSuccess else if received = 0 then StatusFailure else StatusPartial)"
  using loss_ratio_cases [OF assms] StatusFromLoss_ratio [OF assms] by auto

theorem StatusFromLoss_exact_witness:
  "\<exists>x. loss_ratio 9007199254740991 9007199254740992 = Fin x \<and> 0 \<le> x \<and> x \<le> 1 \<and>
    StatusFromLoss (loss_ratio 9007199254740991 9007199254740992) = StatusPartial"
  using StatusFromLoss_exact [of 9007199254740991 9007199254740992] by simp

text \<open>
  The reference for \<^verbatim>\<open>RunLoop\<close>. The attempts of a run are given by their outcomes alone, without the
  loop: \<open>state_at\<close> is the value of the captured variables before attempt \<open>i\<close>, \<open>outcome\<close> what attempt
  \<open>i\<close> returns. The report of a list of attempts is derived from the numbers of attempts and replies.
\<close>

primrec state_at :: "(nat \<Rightarrow> 's \<Rightarrow> Attempt \<times> 's) \<Rightarrow> 's \<Rightarrow> nat \<Rightarrow> 's" where
  "state_at attempt s 0 = s"
| "state_at attempt s (Suc i) = snd (attempt i (state_at attempt s i))"

definition outcome :: "(nat \<Rightarrow> 's \<Rightarrow> Attempt \<times> 's) \<Rightarrow> 's \<Rightarrow> nat \<Rightarrow> Attempt" where
  "outcome attempt s i = fst (attempt i (state_at attempt s i))"

definition run_report :: "Attempt list \<Rightarrow> ProbeResult \<Rightarrow> bool \<times> ProbeResult" where
  "run_report as r =
     (let replies = [a \<leftarrow> as. a_Err a = None \<and> a_Received a];
          sent = int (length as); received = int (length replies);
          r1 = r\<lparr>pr_PacketsSent := sent, pr_PacketsReceived := received\<rparr>;
          (mn, me, mx, sd) = RTTStats (map a_RTT replies)
      in if replies = [] \<and> a_Err (last as) \<noteq> None
         then (False, r1\<lparr>pr_Status := StatusError, pr_ErrorType := ''probe_error'',
                         pr_ErrorMsg := the (a_Err (last as))\<rparr>)
         else if replies = [] then (True, r1\<lparr>pr_PacketLossRatio := Fin 1, pr_Status := StatusFailure\<rparr>)
         else (True, r1\<lparr>pr_PacketLossRatio := loss_ratio received sent,
                        pr_Status := (if received = sent then StatusSuccess else StatusPartial),
                        pr_RTTMinMS := mn, pr_RTTMeanMS := me, pr_RTTMaxMS := mx, pr_RTTStddevMS := sd\<rparr>))"

text \<open>The attempts that the loop makes are the outcomes up to the first reason to stop.\<close>

lemma attempts_made_outcomes:
  assumes "attempts_made c att i m (state_at att s i) = (as, s1)"
  shows "\<exists>n \<le> m. as = map (outcome att s) [i..<i + n] \<and> s1 = state_at att s (i + n) \<and>
    (\<forall>j. i \<le> j \<and> j < i + n \<and> 0 < j \<longrightarrow> \<not> c j) \<and>
    (\<forall>j. i \<le> j \<and> Suc j < i + n \<longrightarrow> a_Err (outcome att s j) = None) \<and>
    (n = m \<or> 0 < i + n \<and> c (i + n) \<or> 0 < n \<and> a_Err (outcome att s (i + n - 1)) \<noteq> None)"
  using assms
proof (induction m arbitrary: i as)
  case 0
  then show ?case by auto
next
  case (Suc m)
  let ?a = "outcome att s i"
  have a: "att i (state_at att s i) = (?a, state_at att s (Suc i))" by (simp add: outcome_def)
  show ?case
  proof (cases "0 < i \<and> c i")
    case True
    with Suc.prems show ?thesis by (intro exI [of _ 0]) auto
  next
    case go: False
    show ?thesis
    proof (cases "a_Err ?a = None")
      case False
      then have "as = [?a]" "s1 = state_at att s (Suc i)"
        using Suc.prems go a by (simp_all add: Let_def del: state_at.simps)
      with go False show ?thesis by (intro exI [of _ 1]) (auto simp del: state_at.simps simp: less_Suc_eq)
    next
      case True
      obtain bs where bs: "attempts_made c att (Suc i) m (state_at att s (Suc i)) = (bs, s1)" "as = ?a # bs"
        using Suc.prems go a True by (auto simp: Let_def simp del: state_at.simps split: prod.splits)
      from Suc.IH [OF bs(1)] obtain n where n: "n \<le> m" "bs = map (outcome att s) [Suc i..<Suc i + n]"
        "s1 = state_at att s (Suc i + n)" "\<forall>j. Suc i \<le> j \<and> j < Suc i + n \<and> 0 < j \<longrightarrow> \<not> c j"
        "\<forall>j. Suc i \<le> j \<and> Suc j < Suc i + n \<longrightarrow> a_Err (outcome att s j) = None"
        "n = m \<or> c (Suc i + n) \<or> 0 < n \<and> a_Err (outcome att s (i + n)) \<noteq> None" by auto
      have "as = map (outcome att s) [i..<i + Suc n]" using bs(2) n(2) upt_conv_Cons [of i "i + Suc n"] by (simp del: upt_Suc)
      moreover have "\<forall>j. i \<le> j \<and> j < i + Suc n \<and> 0 < j \<longrightarrow> \<not> c j"
        using n(4) go by (metis add_Suc_shift le_neq_implies_less Suc_leI)
      moreover have "\<forall>j. i \<le> j \<and> Suc j < i + Suc n \<longrightarrow> a_Err (outcome att s j) = None"
        using n(5) True by (metis add_Suc_shift le_neq_implies_less Suc_leI)
      ultimately show ?thesis using n(1,3,6) by (intro exI [of _ "Suc n"]) auto
    qed
  qed
qed

lemma finish_loop_report:
  assumes "fresh r" and "as \<noteq> []" and "int (length as) \<le> 2 ^ 53"
  shows "finish_loop (count_attempts as r) (map a_RTT (answered as)) (final_error as) = run_report as r"
proof -
  let ?k = "int (length (answered as))" and ?n = "int (length as)"
  have k: "0 \<le> ?k" "?k \<le> ?n" "0 < ?n" using length_answered [of as] assms(2) by auto
  obtain x where x: "loss_ratio ?k ?n = Fin x" "x = 1 \<longleftrightarrow> ?k = 0"
    using loss_ratio_cases [OF k assms(3)] by blast
  have rep: "[a \<leftarrow> as. a_Err a = None \<and> a_Received a] = answered as" by (simp add: answered_def)
  show ?thesis
  proof (cases "answered as = []")
    case True
    with x have l: "loss_ratio 0 ?n = Fin 1" "StatusFromLoss (Fin 1) = StatusFailure" by (simp_all add: StatusFromLoss_def)
    show ?thesis
      using assms(1,2) True l unfolding run_report_def rep
      by (simp add: finish_loop_def count_attempts_def fresh_def final_error_def split: prod.split)
  next
    case False
    with k have st: "StatusFromLoss (loss_ratio ?k ?n) = (if ?k = ?n then StatusSuccess else StatusPartial)"
      using StatusFromLoss_ratio [OF k assms(3)] by simp
    show ?thesis
      using assms(1,2) False st unfolding run_report_def rep
      by (simp add: finish_loop_def count_attempts_def fresh_def final_error_def Let_def split: prod.split)
  qed
qed

text \<open>
  C2. A run that starts with a live context makes attempts until the count is reached, the context is
  done or an attempt fails, and makes none after that. What it reports follows from the numbers of
  attempts and usable replies alone: an error when the run ended with a failed attempt before any
  reply; otherwise loss and status of these numbers, exact although computed in floating point,
  and the statistics of the replies' round-trip times. The fields of the result that identify the
  target are kept.
\<close>

theorem RunLoop_refines:
  assumes "\<not> ctx_done 0" and "fresh result" and "0 < count" and "count \<le> 2 ^ 53"
  shows "\<exists>n. 0 < n \<and> int n \<le> count \<and> (\<forall>i < n. \<not> ctx_done i) \<and>
    (\<forall>i. Suc i < n \<longrightarrow> a_Err (outcome attempt s i) = None) \<and>
    (int n = count \<or> ctx_done n \<or> a_Err (outcome attempt s (n - 1)) \<noteq> None) \<and>
    RunLoop ctx_done attempt count result s =
      (let (ok, r) = run_report (map (outcome attempt s) [0..<n]) result in (ok, r, state_at attempt s n))"
proof -
  obtain as s1 where as: "attempts_made ctx_done attempt 0 (nat count) s = (as, s1)" by fastforce
  obtain m where m: "nat count = Suc m" using assms(3) by (cases "nat count") auto
  have ne: "as \<noteq> []" using as m attempts_made_first by metis
  have len: "int (length as) \<le> count" using attempts_made_length [OF as] assms(3) by simp
  obtain n where n: "as = map (outcome attempt s) [0..<n]" "s1 = state_at attempt s n"
    "\<forall>j. j < n \<and> 0 < j \<longrightarrow> \<not> ctx_done j" "\<forall>j. Suc j < n \<longrightarrow> a_Err (outcome attempt s j) = None"
    "n = nat count \<or> ctx_done n \<or> a_Err (outcome attempt s (n - 1)) \<noteq> None"
    using attempts_made_outcomes [of ctx_done attempt 0 "nat count" s] as by auto
  have "\<forall>i < n. \<not> ctx_done i" using n(3) assms(1) by (metis gr0I)
  moreover have "RunLoop ctx_done attempt count result s =
      (let (ok, r) = run_report as result in (ok, r, s1))"
    using finish_loop_report [OF assms(2) ne] len assms(4) by (simp add: RunLoop_spec as)
  ultimately show ?thesis using n ne len assms(3) by (intro exI [of _ n]) auto
qed

theorem RunLoop_refines_witness:
  "RunLoop (\<lambda>i. i = 2) (\<lambda>i u. (\<lparr>a_RTT = 5, a_Received = (i = 1), a_Err = None\<rparr>, u)) 3 zero_result () =
     (let (ok, r) = run_report [\<lparr>a_RTT = 5, a_Received = False, a_Err = None\<rparr>, \<lparr>a_RTT = 5, a_Received = True, a_Err = None\<rparr>]
        zero_result in (ok, r, ()))"
proof -
  let ?att = "\<lambda>i u. (\<lparr>a_RTT = 5, a_Received = (i = 1), a_Err = None\<rparr>, u) :: Attempt \<times> unit"
  have "fresh zero_result" by (simp add: fresh_def zero_result_def)
  then obtain n where n: "\<forall>i < n. i \<noteq> 2" "int n = 3 \<or> n = 2 \<or> a_Err (outcome ?att () (n - 1)) \<noteq> None"
    and run: "RunLoop (\<lambda>i. i = 2) ?att 3 zero_result () =
      (let (ok, r) = run_report (map (outcome ?att ()) [0..<n]) zero_result in (ok, r, state_at ?att () n))"
    using RunLoop_refines [of "\<lambda>i. i = 2" zero_result 3 ?att "()"] by auto
  have o: "outcome ?att () i = \<lparr>a_RTT = 5, a_Received = (i = 1), a_Err = None\<rparr>" for i by (simp add: outcome_def)
  with n have "n = 2" by (auto simp: numeral_3_eq_3)
  moreover have "map (outcome ?att ()) [0..<2] = [\<lparr>a_RTT = 5, a_Received = False, a_Err = None\<rparr>, \<lparr>a_RTT = 5, a_Received = True, a_Err = None\<rparr>]"
    by (simp add: outcome_def numeral_2_eq_2)
  ultimately show ?thesis using run by simp
qed

end
