(* ===== verification/Prober.thy ===== *)
theory Prober
  imports Probe_Run
begin

text \<open>
  \<^verbatim>\<open>internal/probe/prober.go\<close>: the interface \<^verbatim>\<open>Prober\<close>. The locale \<open>prober\<close> states what the
  scheduler, the pipeline and the exporters rely on; \<open>host_prober\<close> is the contract of a
  \<^verbatim>\<open>probeOne\<close> method, from which \<open>RunWorkItems\<close> makes a prober (ICMP, TCP, UDP and HTTP); and
  \<open>port_attempt\<close> is the contract of the attempt closures of TCP and UDP, which record an open port
  in a captured variable.
\<close>

subsection \<open>The interface\<close>

locale prober =
  fixes run :: "'env \<Rightarrow> ProbeConfig \<Rightarrow> ProbeResult list"
    and cfg_ok :: "ProbeConfig \<Rightarrow> bool"
    and env_ok :: "'env \<Rightarrow> ProbeConfig \<Rightarrow> bool"
    and ptype :: string
  assumes results_ok: "cfg_ok cfg \<Longrightarrow> env_ok env cfg \<Longrightarrow> r \<in> set (run env cfg) \<Longrightarrow> result_ok r"
    and results_type: "cfg_ok cfg \<Longrightarrow> env_ok env cfg \<Longrightarrow> r \<in> set (run env cfg) \<Longrightarrow> pr_ProbeType r = ptype"
    and results_name: "cfg_ok cfg \<Longrightarrow> env_ok env cfg \<Longrightarrow> r \<in> set (run env cfg) \<Longrightarrow>
      pr_ProbeName r = pc_Name cfg"
    and results_nonempty: "cfg_ok cfg \<Longrightarrow> env_ok env cfg \<Longrightarrow> pc_Targets cfg \<noteq> [] \<Longrightarrow> run env cfg \<noteq> []"
begin

text \<open>An open port is reported only together with an up target.\<close>

lemma open_is_up:
  "cfg_ok cfg \<Longrightarrow> env_ok env cfg \<Longrightarrow> r \<in> set (run env cfg) \<Longrightarrow> pr_PortOpen r = Some True \<Longrightarrow>
   IsUp (pr_Status r)"
  using results_ok by (auto simp: result_ok_def)

text \<open>A target that is up carries round-trip times, unless the prober is the HTTP one.\<close>

lemma up_has_rtt:
  "cfg_ok cfg \<Longrightarrow> env_ok env cfg \<Longrightarrow> r \<in> set (run env cfg) \<Longrightarrow> ptype \<noteq> ProbeTypeHTTP \<Longrightarrow>
   IsUp (pr_Status r) \<Longrightarrow> m_RTT (measured r) \<noteq> None"
  using results_ok results_type by (force simp: result_ok_def measured_def)

end

subsection \<open>Probers that fan out over hosts\<close>

text \<open>
  The environment of a run: the resolver, the environment of each goroutine, and the order in
  which the goroutines finish. It is sound when every goroutine finishes once and the environment
  of each keeps what the prober relies on.
\<close>

type_synonym 'e host_env = "(string \<Rightarrow> string + string list) \<times> (nat \<Rightarrow> 'e) \<times> nat list"

definition run_hosts ::
  "('e \<Rightarrow> ProbeConfig \<Rightarrow> WorkItem \<Rightarrow> ProbeResult) \<Rightarrow> 'e host_env \<Rightarrow> ProbeConfig \<Rightarrow> ProbeResult list" where
  "run_hosts probe_one = (\<lambda>(resolver, env, order) cfg.
     RunWorkItems resolver (pc_Targets cfg) (pc_MaxResolvedIPs cfg) (\<lambda>i. probe_one (env i) cfg) order)"

definition host_env_ok :: "('e \<Rightarrow> bool) \<Rightarrow> 'e host_env \<Rightarrow> ProbeConfig \<Rightarrow> bool" where
  "host_env_ok item_ok = (\<lambda>(resolver, env, order) cfg.
     (\<forall>i. item_ok (env i)) \<and>
     complete_order order (length (ExpandTargets resolver (pc_Targets cfg) (pc_MaxResolvedIPs cfg))))"

lemma run_hosts_elem:
  assumes "host_env_ok item_ok env cfg" and "r \<in> set (run_hosts p env cfg)"
  shows "\<exists>e wi. item_ok e \<and> r = p e cfg wi"
proof -
  obtain resolver es order where env: "env = (resolver, es, order)" by (cases env) auto
  show ?thesis
    using RunWorkItems_elem [of order resolver "pc_Targets cfg" "pc_MaxResolvedIPs cfg" r] assms
    by (fastforce simp: env host_env_ok_def run_hosts_def)
qed

lemma run_hosts_nonempty:
  assumes "host_env_ok item_ok env cfg" and "pc_Targets cfg \<noteq> []"
  shows "run_hosts p env cfg \<noteq> []"
proof -
  obtain resolver es order where env: "env = (resolver, es, order)" by (cases env) auto
  obtain t ts where "pc_Targets cfg = t # ts" using assms(2) by (cases "pc_Targets cfg") auto
  then have "ExpandTargets resolver (pc_Targets cfg) (pc_MaxResolvedIPs cfg) \<noteq> []"
    by (simp add: expand_entry_nonempty)
  with assms(1) show ?thesis
    by (simp add: env host_env_ok_def run_hosts_def RunWorkItems_eq)
qed

locale host_prober =
  fixes probe_one :: "'e \<Rightarrow> ProbeConfig \<Rightarrow> WorkItem \<Rightarrow> ProbeResult"
    and item_ok :: "'e \<Rightarrow> bool"
    and cfg_ok :: "ProbeConfig \<Rightarrow> bool"
    and ptype :: string
  assumes one_ok: "cfg_ok cfg \<Longrightarrow> item_ok e \<Longrightarrow> result_ok (probe_one e cfg wi)"
    and one_id: "result_id (probe_one e cfg wi) = (pc_Name cfg, wi_IP wi, wi_FQDN wi, ptype)"
begin

lemma one_type: "pr_ProbeType (probe_one e cfg wi) = ptype"
  and one_name: "pr_ProbeName (probe_one e cfg wi) = pc_Name cfg"
  and one_target: "pr_Target (probe_one e cfg wi) = wi_IP wi" "pr_FQDN (probe_one e cfg wi) = wi_FQDN wi"
  using one_id [of e cfg wi] by (simp_all add: result_id_def)

text \<open>Every configured target is answered for: some result carries it as address or as FQDN.\<close>

lemma target_covered:
  assumes "host_env_ok item_ok env cfg" and "t \<in> set (pc_Targets cfg)"
  shows "\<exists>r \<in> set (run_hosts probe_one env cfg). (pr_Target r = t \<and> pr_FQDN r = []) \<or> pr_FQDN r = t"
proof -
  obtain resolver es order where env: "env = (resolver, es, order)" by (cases env) auto
  let ?items = "ExpandTargets resolver (pc_Targets cfg) (pc_MaxResolvedIPs cfg)"
  obtain wi where wi: "wi \<in> set (expand_entry resolver (pc_MaxResolvedIPs cfg) t)"
    using expand_entry_nonempty list.set_sel(1) by blast
  then have "wi \<in> set ?items" using assms(2) by (auto simp: set_ExpandTargets)
  then obtain i where "i < length ?items" "?items ! i = wi" by (auto simp: in_set_conv_nth)
  then have "probe_one (es i) cfg wi \<in> set (run_hosts probe_one env cfg)"
    using assms(1) by (auto simp: env host_env_ok_def run_hosts_def RunWorkItems_eq)
  moreover have "item_of_target t wi" using wi by (rule expand_entry_items)
  ultimately show ?thesis
    using one_target by (auto simp: item_of_target_def intro!: bexI)
qed

end

sublocale host_prober \<subseteq> prober "run_hosts probe_one" cfg_ok "host_env_ok item_ok" ptype
  by unfold_locales
    (auto dest!: run_hosts_elem simp: one_ok one_type one_name run_hosts_nonempty)

subsection \<open>Attempt closures that record an open port\<close>

lemma port_result_id:
  assumes "NewResult now cfg wi ty = (r, ok)" and "RunLoop c att count r s = (live, r1, got)"
  shows "result_id (if live then r1\<lparr>pr_PortOpen := v\<rparr> else r1) = (pc_Name cfg, wi_IP wi, wi_FQDN wi, ty)"
proof -
  have "result_id (r1\<lparr>pr_PortOpen := v\<rparr>) = result_id r1" by (simp add: result_id_def)
  with NewResult_id [OF assms(1)] RunLoop_id [OF assms(2)] show ?thesis by simp
qed

locale port_attempt =
  fixes attempt :: "nat \<Rightarrow> bool \<Rightarrow> Attempt \<times> bool"
  assumes keeps: "attempt i True = (a, b) \<Longrightarrow> b"
    and opens: "attempt i False = (a, True) \<Longrightarrow> a_Received a \<and> a_Err a = None"
begin

lemma open_was_answered:
  "attempts_made c attempt i n False = (as, True) \<Longrightarrow> answered as \<noteq> []"
proof (induction n arbitrary: i as)
  case 0
  then show ?case by simp
next
  case (Suc n)
  obtain a b where a: "attempt i False = (a, b)" by fastforce
  show ?case
  proof (cases b)
    case True
    with Suc.prems a opens [of i a] show ?thesis
      by (auto simp: Let_def answered_def split: if_splits prod.splits)
  next
    case False
    with Suc a show ?thesis
      by (auto simp: Let_def answered_def split: if_splits prod.splits)
  qed
qed

lemma RunLoop_open:
  assumes run: "RunLoop c attempt count r False = (ok, r1, True)" and "fresh r"
  shows "0 < pr_PacketsReceived r1"
proof -
  obtain as s where as: "attempts_made c attempt 0 (nat count) False = (as, s)" by fastforce
  obtain r2 where f: "finish_loop (count_attempts as r) (map a_RTT (answered as)) (final_error as) = (ok, r2)"
    and "r1 = r2" "s = True" using run by (auto simp: RunLoop_spec as Let_def split: prod.splits)
  with open_was_answered [of c 0 "nat count" as] as finish_loop_frame [OF f] assms(2) show ?thesis
    by (simp add: fresh_def count_attempts_def)
qed

text \<open>
  The result of a run, with the port state set when the run measured: it is well formed, and the
  port is open only when the target is up.
\<close>

lemma port_result_ok:
  assumes run: "RunLoop c attempt count r False = (live, r1, got)"
    and "fresh r" and "0 < count" "count \<le> 2 ^ 53"
  shows "result_ok (if live then r1\<lparr>pr_PortOpen := Some got\<rparr> else r1)"
proof -
  note cnt = RunLoop_counters [OF run assms(2,3)] and st = RunLoop_status [OF run assms(2-4)]
  have "got \<Longrightarrow> 0 < pr_PacketsReceived r1" using RunLoop_open run assms(2) by (cases got) auto
  with cnt st show ?thesis
    by (auto simp: result_ok_def status_preds)
qed

text \<open>The port state is left open exactly when the run did not measure.\<close>

lemma port_result_state:
  assumes run: "RunLoop c attempt count r False = (live, r1, got)"
    and "fresh r" and "0 < count" "count \<le> 2 ^ 53"
  shows "pr_PortOpen (if live then r1\<lparr>pr_PortOpen := Some got\<rparr> else r1) = None \<longleftrightarrow>
    IsError (pr_Status (if live then r1\<lparr>pr_PortOpen := Some got\<rparr> else r1))"
  using RunLoop_counters(5) [OF run assms(2,3)] RunLoop_status(1) [OF run assms(2-4)]
  by (auto simp: status_preds)

end

subsection \<open>A configuration\<close>

text \<open>A configuration with two address literals as targets, for the instances below.\<close>

definition example_cfg :: ProbeConfig where
  "example_cfg = \<lparr>pc_Name = ''edge'', pc_Type = ProbeTypeTCP,
     pc_Targets = [''10.0.0.1'', ''10.0.0.2''], pc_MaxResolvedIPs = 0, pc_SourceIP = [],
     pc_Interval = 30000000000, pc_PacketInterval = 1000000000, pc_Timeout = 5000000000,
     pc_Count = 3, pc_Labels = None,
     pc_HTTP = Some \<lparr>http_Scheme = ''https'', http_Port = 0, http_Path = ''/'', http_Method = ''GET'',
       http_ExpectedStatus = 0, http_FollowRedirects = False, http_TLSExpiryWarningDays = 14\<rparr>,
     pc_TCP = Some \<lparr>tcp_Port = 443, tcp_Mode = ''syn''\<rparr>,
     pc_UDP = Some \<lparr>udp_Port = 53, udp_Payload = ''ping'', udp_ExpectedResponse = ''pong''\<rparr>,
     pc_DNS = Some \<lparr>dns_RecordType = ''A'', dns_Resolver = ''10.0.0.53:53'', dns_ExpectedAnswer = []\<rparr>\<rparr>"

lemma example_env_ok:
  "(\<And>i. item_ok (es i)) \<Longrightarrow> host_env_ok item_ok (resolver, es, [1, 0]) example_cfg"
proof -
  have "complete_order [1, 0] 2" by (auto simp: complete_order_def)
  then show "(\<And>i. item_ok (es i)) \<Longrightarrow> host_env_ok item_ok (resolver, es, [1, 0]) example_cfg"
    by (simp add: host_env_ok_def example_cfg_def two_literals numeral_2_eq_2 del: ExpandTargets.simps)
qed

end
