(* ===== verification/Prober_ICMP.thy ===== *)
theory Prober_ICMP
  imports Prober
begin

text \<open>
  \<^verbatim>\<open>internal/probe/icmp\<close>: \<^verbatim>\<open>probeOne\<close> and \<^verbatim>\<open>applyStats\<close>. The pinger is a library outside the
  repository and an argument here: the error of its constructor, the error of its run under a
  configuration, and the statistics it gives. What its documentation says of the statistics is the
  hypothesis \<open>stats_documented\<close>: the counters, and the loss as a percentage of the packets sent.
\<close>

record Statistics =
  st_PacketsSent :: go_int
  st_PacketsRecv :: go_int
  st_PacketLoss :: float64
  st_MinRtt :: duration
  st_AvgRtt :: duration
  st_MaxRtt :: duration
  st_StdDevRtt :: duration

text \<open>\<^verbatim>\<open>Duration.Seconds\<close> of the standard library.\<close>

definition Seconds :: "duration \<Rightarrow> float64" where
  "Seconds d =
     f_add (f_of_int (go_quo d Second)) (f_div (f_of_int (go_rem d Second)) (f_of_int Second))"

definition applyStats :: "ProbeResult \<Rightarrow> Statistics \<Rightarrow> ProbeResult" where
  "applyStats result stats =
     (let loss = f_div (st_PacketLoss stats) (Fin 100);
          result1 = result\<lparr>pr_PacketsSent := st_PacketsSent stats,
                           pr_PacketsReceived := st_PacketsRecv stats,
                           pr_PacketLossRatio := loss,
                           pr_Status := StatusFromLoss loss\<rparr>
      in if 0 < st_PacketsRecv stats
         then result1\<lparr>pr_RTTMinMS := f_mul (Seconds (st_MinRtt stats)) (Fin 1000),
                      pr_RTTMeanMS := f_mul (Seconds (st_AvgRtt stats)) (Fin 1000),
                      pr_RTTMaxMS := f_mul (Seconds (st_MaxRtt stats)) (Fin 1000),
                      pr_RTTStddevMS := f_mul (Seconds (st_StdDevRtt stats)) (Fin 1000)\<rparr>
         else result1)"

datatype ctx_err = Ctx_live | Ctx_Canceled | Ctx_DeadlineExceeded

text \<open>
  The environment: the clock, the pinger, the state of the context when the run has ended and when
  the statistics are read.
\<close>

record pinger_cfg =
  pg_Count :: go_int
  pg_Interval :: duration
  pg_Timeout :: duration
  pg_Source :: string
  pg_Privileged :: bool

record icmp_env =
  ie_now :: int
  ie_NewPinger :: "string \<Rightarrow> string option"
  ie_Run :: "pinger_cfg \<Rightarrow> string option"
  ie_Statistics :: "pinger_cfg \<Rightarrow> Statistics"
  ie_ctx_after_run :: ctx_err
  ie_ctx_at_stats :: ctx_err

definition icmp_pinger :: "ProbeConfig \<Rightarrow> pinger_cfg" where
  "icmp_pinger cfg = \<lparr>pg_Count = pc_Count cfg, pg_Interval = pc_PacketInterval cfg,
     pg_Timeout = pc_Timeout cfg, pg_Source = pc_SourceIP cfg, pg_Privileged = True\<rparr>"

definition icmp_probeOne :: "icmp_env \<Rightarrow> ProbeConfig \<Rightarrow> WorkItem \<Rightarrow> ProbeResult" where
  "icmp_probeOne env cfg wi =
     (let (result, ok) = NewResult (ie_now env) cfg wi ProbeTypeICMP
      in if \<not> ok then result
         else case ie_NewPinger env (wi_IP wi) of
           Some err \<Rightarrow>
             result\<lparr>pr_Status := StatusError, pr_ErrorType := ''init_error'',
                    pr_ErrorMsg := ''init pinger for '' @ Quote (wi_IP wi) @ '': '' @ err\<rparr>
         | None \<Rightarrow>
             let pinger = icmp_pinger cfg; runErr = ie_Run env pinger
             in if runErr \<noteq> None \<and> ie_ctx_after_run env = Ctx_live
                then result\<lparr>pr_Status := StatusError, pr_ErrorType := ''run_error'',
                            pr_ErrorMsg := ''pinger run: '' @ the runErr\<rparr>
                else let stats = ie_Statistics env pinger
                     in if st_PacketsSent stats = 0
                        then let r = result\<lparr>pr_Status := StatusError, pr_ErrorMsg := ''no packets sent''\<rparr>
                             in if ie_ctx_at_stats env = Ctx_DeadlineExceeded
                                then r\<lparr>pr_ErrorType := ''timeout''\<rparr> else r
                        else applyStats result stats)"

definition icmp_Run :: "icmp_env host_env \<Rightarrow> ProbeConfig \<Rightarrow> ProbeResult list" where
  "icmp_Run = run_hosts icmp_probeOne"

subsection \<open>The status under the documented statistics\<close>

definition stats_documented :: "Statistics \<Rightarrow> bool" where
  "stats_documented st \<longleftrightarrow>
     0 \<le> st_PacketsRecv st \<and> st_PacketsRecv st \<le> st_PacketsSent st \<and> st_PacketsSent st \<le> 2 ^ 53 \<and>
     (0 < st_PacketsSent st \<longrightarrow> st_PacketLoss st =
       f_mul (f_div (f_of_int (st_PacketsSent st - st_PacketsRecv st)) (f_of_int (st_PacketsSent st))) (Fin 100))"

lemma percent_cases:
  assumes "0 \<le> a" and "a \<le> s" and "0 < s" and "s \<le> 2 ^ 53"
  shows "\<exists>x. f_div (f_mul (f_div (f_of_int a) (f_of_int s)) (Fin 100)) (Fin 100) = Fin x \<and>
    0 \<le> x \<and> x \<le> 1 \<and> (x = 0 \<longleftrightarrow> a = 0) \<and> (x = 1 \<longleftrightarrow> a = s)"
proof -
  let ?q = "of_int a / of_int s :: rat"
  have ex: "f_of_int a = Fin (of_int a)" "f_of_int s = Fin (of_int s)"
    using assms by (auto intro!: f_of_int_exact)
  have q: "0 \<le> ?q" "?q \<le> 1" using assms by (simp_all add: divide_le_eq)
  have rq: "0 \<le> rnd ?q" "rnd ?q \<le> 1"
    using r64.nonneg [OF q(1)] rnd_mono [OF q(2)] by simp_all
  have hundred: "rnd 100 = 100" using r64.exact_int [of 100] by simp
  have p: "0 \<le> rnd (rnd ?q * 100)" "rnd (rnd ?q * 100) \<le> 100"
    using rq r64.nonneg [of "rnd ?q * 100"] rnd_mono [of "rnd ?q * 100" 100] hundred by simp_all
  have big: "(100 :: rat) \<le> 2 ^ 1000" using power_increasing [of 7 1000 "2 :: rat"] by simp
  have "f64 (rnd ?q * 100) = Fin (rnd (rnd ?q * 100))"
    using rq big by (intro f64_Fin) (simp add: abs_le_iff)
  then have val: "f_div (f_mul (f_div (f_of_int a) (f_of_int s)) (Fin 100)) (Fin 100) =
    Fin (rnd (rnd (rnd ?q * 100) / 100))"
    using assms(3) f64_unit [OF q] f64_unit [of "rnd (rnd ?q * 100) / 100"] p by (simp add: ex)
  consider "a = 0" | "a = s" | "0 < a" "a < s" using assms by linarith
  then show ?thesis
  proof cases
    case 3
    then show ?thesis using val percent_open_unit(3,4) [OF 3 assms(4)] by auto
  qed (use val assms hundred in auto)
qed

lemma applyStats_status:
  assumes "stats_documented st" and "st_PacketsSent st \<noteq> 0"
  shows "pr_Status (applyStats r st) =
    (if st_PacketsRecv st = st_PacketsSent st then StatusSuccess
     else if st_PacketsRecv st = 0 then StatusFailure else StatusPartial)"
proof -
  let ?s = "st_PacketsSent st" and ?a = "st_PacketsSent st - st_PacketsRecv st"
  have b: "0 \<le> ?a" "?a \<le> ?s" "0 < ?s" "?s \<le> 2 ^ 53" using assms by (auto simp: stats_documented_def)
  obtain x where x: "f_div (st_PacketLoss st) (Fin 100) = Fin x" "0 \<le> x" "x \<le> 1"
    "x = 0 \<longleftrightarrow> ?a = 0" "x = 1 \<longleftrightarrow> ?a = ?s"
    using percent_cases [OF b] assms(1) b(3) by (auto simp: stats_documented_def)
  have "pr_Status (applyStats r st) = StatusFromLoss (Fin x)"
    by (simp add: applyStats_def Let_def x(1))
  then show ?thesis using x by (auto simp: StatusFromLoss_Fin)
qed

lemma applyStats_frame:
  "pr_PacketsSent (applyStats r st) = st_PacketsSent st"
  "pr_PacketsReceived (applyStats r st) = st_PacketsRecv st"
  "pr_PortOpen (applyStats r st) = pr_PortOpen r"
  "result_id (applyStats r st) = result_id r"
  by (simp_all add: applyStats_def Let_def result_id_def)

subsection \<open>The prober\<close>

definition icmp_env_documented :: "icmp_env \<Rightarrow> bool" where
  "icmp_env_documented env \<longleftrightarrow> (\<forall>pg. stats_documented (ie_Statistics env pg))"

lemma icmp_probeOne_id:
  "result_id (icmp_probeOne env cfg wi) = (pc_Name cfg, wi_IP wi, wi_FQDN wi, ProbeTypeICMP)"
proof -
  obtain r ok where n: "NewResult (ie_now env) cfg wi ProbeTypeICMP = (r, ok)" by fastforce
  show ?thesis
    using NewResult_id [OF n] n
    by (simp add: icmp_probeOne_def Let_def applyStats_frame(4) frame_simps split: option.split)
qed

lemma icmp_probeOne_ok:
  assumes "icmp_env_documented env"
  shows "result_ok (icmp_probeOne env cfg wi)"
proof -
  obtain r ok where n: "NewResult (ie_now env) cfg wi ProbeTypeICMP = (r, ok)" by fastforce
  have doc: "stats_documented (ie_Statistics env pg)" for pg using assms by (simp add: icmp_env_documented_def)
  show ?thesis
  proof (cases ok)
    case False
    with n NewResult_error_ok show ?thesis by (fastforce simp: icmp_probeOne_def)
  next
    case True
    with n have f: "fresh r" by (auto dest: NewResult_fresh)
    have "result_ok (applyStats r st)" if "stats_documented st" "st_PacketsSent st \<noteq> 0" for st
      using f applyStats_status [OF that, of r] that
      by (auto simp: result_ok_def applyStats_frame fresh_def status_preds stats_documented_def)
    with True n f doc show ?thesis
      by (auto simp: icmp_probeOne_def Let_def result_ok_def fresh_def status_preds split: option.split)
  qed
qed

interpretation icmp: host_prober icmp_probeOne icmp_env_documented "\<lambda>_. True" ProbeTypeICMP
  by unfold_locales (rule icmp_probeOne_ok icmp_probeOne_id, assumption?)+

subsection \<open>Properties of the prober\<close>

text \<open>
  C28. When the pinger's statistics are what its documentation says (the loss is the percentage of
  packets without a reply, computed in floating point), the status that \<^verbatim>\<open>applyStats\<close> derives
  from the percentage divided by 100 is exact: success when every packet was answered, failure
  when none was, partial otherwise.
\<close>

theorem applyStats_exact:
  assumes "stats_documented stats" and "st_PacketsSent stats \<noteq> 0"
  shows "pr_Status (applyStats result stats) =
    (if st_PacketsRecv stats = st_PacketsSent stats then StatusSuccess
     else if st_PacketsRecv stats = 0 then StatusFailure else StatusPartial)"
  using assms by (rule applyStats_status)

definition example_stats :: "go_int \<Rightarrow> go_int \<Rightarrow> Statistics" where
  "example_stats sent recv = \<lparr>st_PacketsSent = sent, st_PacketsRecv = recv,
     st_PacketLoss = f_mul (f_div (f_of_int (sent - recv)) (f_of_int sent)) (Fin 100),
     st_MinRtt = 1000000, st_AvgRtt = 2000000, st_MaxRtt = 3000000, st_StdDevRtt = 500000\<rparr>"

theorem applyStats_exact_witness:
  "pr_Status (applyStats zero_result (example_stats 3 2)) = StatusPartial \<and>
   pr_Status (applyStats zero_result (example_stats 3 3)) = StatusSuccess"
  using applyStats_exact [of "example_stats 3 2" zero_result]
    applyStats_exact [of "example_stats 3 3" zero_result]
  by (simp add: stats_documented_def example_stats_def)

end
