(* ===== verification/Tcp_Syn.thy ===== *)
theory Tcp_Syn
  imports Go_Net
begin

text \<open>
  The pure part of \<^verbatim>\<open>internal/probe/tcp/syn.go\<close>: the SYN segment and its checksum, the parser of a
  reply, the removal of an IPv4 header and the classification of a reply. Bytes, ports and
  sequence numbers are words of 8, 16 and 32 bits.
\<close>

unbundle bit_operations_syntax

type_synonym u16 = "16 word"
type_synonym u32 = "32 word"

subsection \<open>Big-endian bytes\<close>

definition put_u16 :: "u16 \<Rightarrow> byte list" where
  "put_u16 w = [ucast (drop_bit 8 w), ucast w]"

definition put_u32 :: "u32 \<Rightarrow> byte list" where
  "put_u32 w = [ucast (drop_bit 24 w), ucast (drop_bit 16 w), ucast (drop_bit 8 w), ucast w]"

definition get_u16 :: "byte \<Rightarrow> byte \<Rightarrow> u16" where
  "get_u16 a b = ucast b OR push_bit 8 (ucast a)"

definition get_u32 :: "byte \<Rightarrow> byte \<Rightarrow> byte \<Rightarrow> byte \<Rightarrow> u32" where
  "get_u32 a b c d =
     ucast d OR push_bit 8 (ucast c) OR push_bit 16 (ucast b) OR push_bit 24 (ucast a)"

lemma get_put_u16 [simp]: "get_u16 (ucast (drop_bit 8 w)) (ucast w) = w" for w :: u16
  unfolding get_u16_def
  by (rule bit_word_eqI) (auto simp: bit_simps)

lemma get_put_u32 [simp]:
  "get_u32 (ucast (drop_bit 24 w)) (ucast (drop_bit 16 w)) (ucast (drop_bit 8 w)) (ucast w) = w"
  for w :: u32
  unfolding get_u32_def
proof (rule bit_word_eqI)
  fix n
  assume "n < LENGTH(32)"
  then show "bit (ucast (ucast w :: byte) OR push_bit 8 (ucast (ucast (drop_bit 8 w) :: byte)) OR
    push_bit 16 (ucast (ucast (drop_bit 16 w) :: byte)) OR
    push_bit 24 (ucast (ucast (drop_bit 24 w) :: byte)) :: u32) n = bit w n"
    by (cases "n < 16"; cases "n < 24") (auto simp: bit_simps)
qed

lemma unat_byte: "unat a < 256" for a :: byte
  using unsigned_less [where ?'a = nat, of a] by simp

lemma unat_u16: "unat a < 65536" for a :: u16
  using unsigned_less [where ?'a = nat, of a] by simp

lemma unat_u32: "unat a < 4294967296" for a :: u32
  using unsigned_less [where ?'a = nat, of a] by simp

lemma length_put [simp]: "length (put_u16 w) = 2" "length (put_u32 v) = 4"
  by (simp_all add: put_u16_def put_u32_def)

lemma unat_widen:
  "unat (ucast a :: u16) = unat a" "unat (ucast a :: u32) = unat a" "unat (ucast b :: u32) = unat b"
  for a :: byte and b :: u16
  using unat_byte [of a] unat_u16 [of b] by (simp_all add: unsigned_ucast_eq take_bit_eq_mod)

lemma unat_get_u16: "unat (get_u16 a b) = unat a * 256 + unat b"
proof -
  have "get_u16 a b = push_bit 8 (ucast a) + ucast b"
    unfolding get_u16_def
    by (subst disjunctive_add) (auto simp: bit_simps or.commute dest: bit_imp_le_length)
  moreover have "unat (push_bit 8 (ucast a :: u16)) = unat a * 256"
    using unat_byte [of a] by (simp add: push_bit_eq_mult unat_word_ariths unat_widen)
  moreover have "unat a * 256 + unat b < 2 ^ 16"
    using unat_byte [of a] unat_byte [of b] by simp
  ultimately show ?thesis
    by (simp add: unat_word_ariths unat_widen)
qed

subsection \<open>The checksum\<close>

fun add_bytes :: "byte list \<Rightarrow> u32 \<Rightarrow> u32" where
  "add_bytes (a # b # r) s = add_bytes r (s + ucast (get_u16 a b))"
| "add_bytes [a] s = s + push_bit 8 (ucast a)"
| "add_bytes [] s = s"

lemma unat_low: "unat (s AND 0xFFFF) = unat s mod 65536" for s :: u32
proof -
  have "s AND 0xFFFF = take_bit 16 s" by (simp add: take_bit_eq_mask mask_eq_exp_minus_1)
  then show ?thesis by (simp add: take_bit_eq_mod unat_mod)
qed

lemma unat_high: "unat (drop_bit 16 s) = unat s div 65536" for s :: u32
  by (simp add: drop_bit_eq_div unat_div)

lemma unat_fold_step: "unat ((s AND 0xFFFF) + drop_bit 16 s) = unat s mod 65536 + unat s div 65536" for s :: u32
proof -
  have "unat s mod 65536 + unat s div 65536 < 2 ^ 32"
    using unat_u32 [of s] div_mult_mod_eq [of "unat s" 65536] by (simp del: div_mult_mod_eq)
  then show ?thesis by (simp add: unat_word_ariths unat_low unat_high)
qed

function fold_sum :: "u32 \<Rightarrow> u32" where
  "fold_sum s =
     (if drop_bit 16 s \<noteq> 0 then fold_sum ((s AND 0xFFFF) + drop_bit 16 s) else s)"
  by pat_completeness auto
termination
proof (relation "measure unat")
  fix s :: u32
  assume "drop_bit 16 s \<noteq> 0"
  then have "unat s div 65536 \<noteq> 0" by (metis unat_high unat_eq_zero)
  then show "((s AND 0xFFFF) + drop_bit 16 s, s) \<in> measure unat"
    using div_mult_mod_eq [of "unat s" 65536] unfolding in_measure unat_fold_step by linarith
qed simp

declare fold_sum.simps [simp del]

definition pseudo_header :: "ip \<Rightarrow> ip \<Rightarrow> byte list \<Rightarrow> byte list" where
  "pseudo_header srcIP dstIP seg =
     (case To4 srcIP of Some q \<Rightarrow> q | None \<Rightarrow> replicate 4 0) @
     (case To4 dstIP of Some q \<Rightarrow> q | None \<Rightarrow> replicate 4 0) @
     [0, 6] @ put_u16 (of_nat (length seg))"

definition tcpChecksum :: "ip \<Rightarrow> ip \<Rightarrow> byte list \<Rightarrow> u16" where
  "tcpChecksum srcIP dstIP seg =
     NOT (ucast (fold_sum (add_bytes seg (add_bytes (pseudo_header srcIP dstIP seg) 0))))"

subsection \<open>Segments\<close>

definition flagSYN :: byte where "flagSYN = 2"
definition flagRST :: byte where "flagRST = 4"
definition flagACK :: byte where "flagACK = 16"
definition tcpHeaderLen :: nat where "tcpHeaderLen = 20"

record synSegment =
  srcPort :: u16
  dstPort :: u16
  seq :: u32
  ack :: u32
  flags :: byte

text \<open>\<^verbatim>\<open>buildSYN\<close>: the header with a zero checksum, then the checksum stored at bytes 16 and 17.\<close>

definition syn_header :: "u16 \<Rightarrow> u16 \<Rightarrow> u32 \<Rightarrow> byte list" where
  "syn_header sp dp sq =
     put_u16 sp @ put_u16 dp @ put_u32 sq @ [0, 0, 0, 0] @
     [of_nat (tcpHeaderLen div 4) * 16, flagSYN] @ put_u16 0xFFFF @ [0, 0] @ [0, 0]"

definition buildSYN :: "ip \<Rightarrow> ip \<Rightarrow> u16 \<Rightarrow> u16 \<Rightarrow> u32 \<Rightarrow> string + byte list" where
  "buildSYN srcIP dstIP sp dp sq =
     (case (To4 srcIP, To4 dstIP) of
        (Some s4, Some d4) \<Rightarrow>
          let hdr = syn_header sp dp sq
          in Inr (take 16 hdr @ put_u16 (tcpChecksum s4 d4 hdr) @ drop 18 hdr)
      | _ \<Rightarrow> Inl (''syn: IPv4 source and destination required (src='' @ IP_String srcIP @
                   '' dst='' @ IP_String dstIP @ '')''))"

definition parseTCPSegment :: "byte list \<Rightarrow> string + synSegment" where
  "parseTCPSegment b =
     (if length b < tcpHeaderLen then Inl (''syn: short TCP segment ('' @ Itoa (int (length b)) @ '' bytes)'')
      else Inr \<lparr>srcPort = get_u16 (b ! 0) (b ! 1), dstPort = get_u16 (b ! 2) (b ! 3),
                seq = get_u32 (b ! 4) (b ! 5) (b ! 6) (b ! 7),
                ack = get_u32 (b ! 8) (b ! 9) (b ! 10) (b ! 11), flags = b ! 13\<rparr>)"

definition stripIPv4Header :: "byte list \<Rightarrow> byte list" where
  "stripIPv4Header b =
     (if 20 \<le> length b \<and> drop_bit 4 (b ! 0) = 4
      then let ihl = unat (b ! 0 AND 0x0F) * 4
           in if 20 \<le> ihl \<and> ihl \<le> length b then drop ihl b else b
      else b)"

datatype portState = stateUnreachable | stateClosed | stateOpen

definition classifyReply :: "synSegment \<Rightarrow> u16 \<Rightarrow> u16 \<Rightarrow> u32 \<Rightarrow> portState \<times> bool" where
  "classifyReply seg sp dp expectAck =
     (if srcPort seg \<noteq> dp \<or> dstPort seg \<noteq> sp then (stateUnreachable, False)
      else if flags seg AND flagSYN \<noteq> 0 \<and> flags seg AND flagACK \<noteq> 0 \<and> ack seg = expectAck
      then (stateOpen, True)
      else if flags seg AND flagRST \<noteq> 0 then (stateClosed, True)
      else (stateUnreachable, False))"

subsection \<open>The checksum makes the segment verify\<close>

text \<open>The sum of the 16-bit words as a number, an odd last byte padded on the right.\<close>

fun word_sum :: "byte list \<Rightarrow> nat" where
  "word_sum (a # b # r) = unat a * 256 + unat b + word_sum r"
| "word_sum [a] = unat a * 256"
| "word_sum [] = 0"

lemma word_sum_bound: "word_sum xs \<le> length xs * 65535"
proof (induction xs rule: word_sum.induct)
  case (1 a b r)
  then show ?case using unat_byte [of a] unat_byte [of b] by simp
next
  case (2 a)
  then show ?case using unat_byte [of a] by simp
qed simp

lemma unat_add_small: "unat s + n < 4294967296 \<Longrightarrow> unat w = n \<Longrightarrow> unat (s + w) = unat s + n"
  for s w :: u32
  by (simp add: unat_word_ariths)

lemma add_bytes_word_sum:
  "unat s + length xs * 65535 < 4294967296 \<Longrightarrow> unat (add_bytes xs s) = unat s + word_sum xs"
proof (induction xs s rule: add_bytes.induct)
  case (1 a b r s)
  have w: "unat (ucast (get_u16 a b) :: u32) = unat a * 256 + unat b"
    by (simp add: unat_widen unat_get_u16)
  have "unat a * 256 + unat b \<le> 65535" using unat_byte [of a] unat_byte [of b] by simp
  with 1 unat_add_small [OF _ w, of s] show ?case by simp
next
  case (2 a s)
  have w: "unat (push_bit 8 (ucast a :: u32)) = unat a * 256"
    using unat_byte [of a] by (simp add: push_bit_eq_mult unat_word_ariths unat_widen)
  with 2 unat_byte [of a] unat_add_small [OF _ w, of s] show ?case by simp
qed simp

lemma fold_sum_small: "unat (fold_sum s) \<le> 65535"
proof (induction s rule: fold_sum.induct)
  case (1 s)
  show ?case
  proof (cases "drop_bit 16 s = 0")
    case True
    then have "unat s div 65536 = 0" by (metis unat_high unat_0)
    with True show ?thesis by (simp add: fold_sum.simps [of s] div_eq_0_iff)
  next
    case False
    with 1 show ?thesis by (simp add: fold_sum.simps [of s])
  qed
qed

lemma fold_sum_mod: "unat (fold_sum s) mod 65535 = unat s mod 65535"
proof (induction s rule: fold_sum.induct)
  case (1 s)
  have "unat s = unat s div 65536 * 65535 + (unat s mod 65536 + unat s div 65536)"
    using div_mult_mod_eq [of "unat s" 65536] by linarith
  then have "unat ((s AND 0xFFFF) + drop_bit 16 s) mod 65535 = unat s mod 65535"
    unfolding unat_fold_step by (metis mod_mult_self3)
  with 1 show ?case by (cases "drop_bit 16 s = 0") (simp_all add: fold_sum.simps [of s])
qed

lemma fold_sum_zero: "unat (fold_sum s) = 0 \<Longrightarrow> unat s = 0"
proof (induction s rule: fold_sum.induct)
  case (1 s)
  show ?case
  proof (cases "drop_bit 16 s = 0")
    case True
    with 1 show ?thesis by (simp add: fold_sum.simps [of s])
  next
    case False
    with 1 have "unat ((s AND 0xFFFF) + drop_bit 16 s) = 0" by (simp add: fold_sum.simps [of s])
    then have "unat s mod 65536 + unat s div 65536 = 0" by (simp only: unat_fold_step)
    with div_mult_mod_eq [of "unat s" 65536] show ?thesis by linarith
  qed
qed

text \<open>Adding the complement of the folded sum gives all ones.\<close>

lemma fold_sum_complement:
  fixes s t :: u32
  assumes "unat t = unat s + (65535 - unat (fold_sum s))"
  shows "unat (fold_sum t) = 65535"
proof -
  have f: "unat (fold_sum s) \<le> 65535" by (rule fold_sum_small)
  have "(unat t + unat (fold_sum s)) mod 65535 = (unat s + 65535) mod 65535"
    using assms f by simp
  also have "\<dots> = unat (fold_sum s) mod 65535" by (simp add: fold_sum_mod)
  finally have "unat t mod 65535 = 0"
    using mod_eq_dvd_iff_nat [of "unat (fold_sum s)" "unat t + unat (fold_sum s)" 65535] by simp
  then have "unat (fold_sum t) mod 65535 = 0" by (simp add: fold_sum_mod)
  moreover have "unat (fold_sum t) \<noteq> 0"
  proof
    assume "unat (fold_sum t) = 0"
    then have "unat t = 0" by (rule fold_sum_zero)
    with assms f have "unat s = 0" "unat (fold_sum s) = 65535" by linarith+
    moreover from this have "s = 0" by (simp add: unat_eq_zero)
    ultimately show False by (simp add: fold_sum.simps [of 0])
  qed
  ultimately show ?thesis using fold_sum_small [of t] by (auto simp: mod_eq_0_iff_dvd dvd_def)
qed

lemma sum_mod_all_ones:
  fixes u v :: nat
  assumes "(u + v) mod 65536 = 65535" and "u < 65536" and "v < 65536"
  shows "v = 65535 - u"
proof -
  have "u + v = (u + v) div 65536 * 65536 + 65535"
    using div_mult_mod_eq [of "u + v" 65536] assms(1) by linarith
  moreover from this assms(2,3) have "(u + v) div 65536 = 0" by linarith
  ultimately show ?thesis by linarith
qed

lemma unat_not_u16: "unat (NOT w) = 65535 - unat w" for w :: u16
proof (rule sum_mod_all_ones)
  have "unat (w + NOT w) = (unat w + unat (NOT w)) mod 65536"
    using unat_word_ariths(1) [of w "NOT w"] by (simp only: len_num1 len_bit0 len_bit1) simp
  moreover have "w + NOT w = - 1" by (simp add: not_eq_complement)
  moreover have "unat (- 1 :: u16) = 65535" by (simp add: unsigned_minus_1_eq_mask mask_eq_exp_minus_1)
  ultimately show "(unat w + unat (NOT w)) mod 65536 = 65535" by (simp only:)
qed (rule unat_u16)+

lemma pseudo_header_length: "length (pseudo_header a b seg) = 12"
  by (auto simp: pseudo_header_def To4_length split: option.splits)

lemma unat_tcpChecksum:
  assumes "length seg \<le> 1000"
  shows "unat (tcpChecksum a b seg) =
    65535 - unat (fold_sum (add_bytes seg (add_bytes (pseudo_header a b seg) 0)))"
  using fold_sum_small [of "add_bytes seg (add_bytes (pseudo_header a b seg) 0)"]
  by (simp add: tcpChecksum_def unat_not_u16 unsigned_ucast_eq take_bit_eq_mod)

lemma To4_To4: "To4 a = Some q \<Longrightarrow> To4 q = Some q"
  by (simp add: To4_def [of q] To4_length)

lemma syn_header_cells:
  "syn_header sp dp sq = put_u16 sp @ put_u16 dp @ put_u32 sq @
     [0, 0, 0, 0, 0x50, 2, 0xFF, 0xFF, 0, 0, 0, 0]"
  by (simp add: syn_header_def tcpHeaderLen_def flagSYN_def put_u16_def [of "0xFFFF"])

text \<open>
  A receiver that sums the segment with its checksum gets zero: the checksum function applied to
  the built segment.
\<close>

lemma buildSYN_checksum:
  assumes "buildSYN src dst sp dp sq = Inr pkt" and "To4 src = Some s4" and "To4 dst = Some d4"
  shows "tcpChecksum s4 d4 pkt = 0"
proof -
  let ?hdr = "syn_header sp dp sq"
  define c where "c = tcpChecksum s4 d4 ?hdr"
  have pkt: "pkt = take 16 ?hdr @ put_u16 c @ drop 18 ?hdr"
    using assms by (simp add: buildSYN_def c_def Let_def)
  have len: "length ?hdr = 20" "length pkt = 20" by (simp_all add: pkt syn_header_cells)
  have ps: "pseudo_header s4 d4 pkt = pseudo_header s4 d4 ?hdr"
    by (simp add: pseudo_header_def len)
  define P where "P = add_bytes (pseudo_header s4 d4 ?hdr) 0"
  have P: "unat P \<le> 12 * 65535"
    using add_bytes_word_sum [of 0 "pseudo_header s4 d4 ?hdr"]
      word_sum_bound [of "pseudo_header s4 d4 ?hdr"] pseudo_header_length [of s4 d4 ?hdr]
    by (simp add: P_def)
  have sums: "unat (add_bytes ?hdr P) = unat P + word_sum ?hdr" "unat (add_bytes pkt P) = unat P + word_sum pkt"
    using P len by (simp_all add: add_bytes_word_sum)
  have "word_sum pkt = word_sum ?hdr + unat c"
  proof -
    have "unat (ucast (drop_bit 8 c) :: byte) * 256 + unat (ucast c :: byte) = unat c"
      by (simp only: unat_get_u16 [symmetric] get_put_u16)
    then show ?thesis
      by (simp add: pkt syn_header_cells put_u16_def put_u32_def)
  qed
  then have "unat (add_bytes pkt P) = unat (add_bytes ?hdr P) + (65535 - unat (fold_sum (add_bytes ?hdr P)))"
    using sums unat_tcpChecksum [of ?hdr s4 d4] len by (simp add: c_def P_def)
  then have "unat (fold_sum (add_bytes pkt P)) = 65535" by (rule fold_sum_complement)
  then have "unat (tcpChecksum s4 d4 pkt) = 0"
    using unat_tcpChecksum [of pkt s4 d4] len by (simp add: ps P_def)
  then show ?thesis by (simp add: unat_eq_zero)
qed

subsection \<open>Parsing and classification\<close>

lemma parse_buildSYN:
  assumes "buildSYN src dst sp dp sq = Inr pkt"
  shows "parseTCPSegment pkt = Inr \<lparr>srcPort = sp, dstPort = dp, seq = sq, ack = 0, flags = flagSYN\<rparr>"
proof -
  obtain c where "pkt = take 16 (syn_header sp dp sq) @ put_u16 c @ drop 18 (syn_header sp dp sq)"
    using assms by (auto simp: buildSYN_def Let_def split: option.splits)
  then show ?thesis
    by (simp add: parseTCPSegment_def tcpHeaderLen_def syn_header_cells put_u16_def put_u32_def
        flagSYN_def get_u32_def [of 0 0 0 0])
qed

lemma classifyReply_iff:
  "classifyReply seg sp dp ex = (stateOpen, True) \<longleftrightarrow>
     srcPort seg = dp \<and> dstPort seg = sp \<and> flags seg AND flagSYN \<noteq> 0 \<and> flags seg AND flagACK \<noteq> 0 \<and> ack seg = ex"
  by (auto simp: classifyReply_def)

lemma classifyReply_ignored:
  "classifyReply seg sp dp ex = (st, False) \<Longrightarrow> st = stateUnreachable"
  by (auto simp: classifyReply_def split: if_splits)

lemma classifyReply_accepted:
  "classifyReply seg sp dp ex = (st, True) \<Longrightarrow> st \<noteq> stateUnreachable"
  by (auto simp: classifyReply_def split: if_splits)

text \<open>
  The header test looks at the first nibble only. A segment that arrives without its IP header
  and comes from a port between \<open>0x4500\<close> and \<open>0x45FF\<close> looks like one that has the header: its
  first twenty bytes are dropped, and nothing that can be parsed remains of a minimal segment.
\<close>

lemma strip_bare_segment:
  assumes "length b = 20" and "b ! 0 = 0x45"
  shows "stripIPv4Header b = []"
  using assms by (simp add: stripIPv4Header_def Let_def drop_bit_eq_div)

subsection \<open>Properties\<close>

text \<open>
  C14. For two IPv4 addresses \<^verbatim>\<open>buildSYN\<close> gives a segment of twenty bytes whose checksum verifies at
  the receiver (the ones-complement sum over pseudo-header and segment complements to zero) and
  which parses back to the ports, the sequence number and the SYN flag it was built from.
\<close>

theorem buildSYN_verifies:
  assumes "To4 src = Some s4" and "To4 dst = Some d4"
  shows "\<exists>pkt. buildSYN src dst sp dp sq = Inr pkt \<and> length pkt = 20 \<and> tcpChecksum s4 d4 pkt = 0 \<and>
    parseTCPSegment pkt = Inr \<lparr>srcPort = sp, dstPort = dp, seq = sq, ack = 0, flags = flagSYN\<rparr>"
proof -
  obtain pkt where b: "buildSYN src dst sp dp sq = Inr pkt" "length pkt = 20"
    using assms by (auto simp: buildSYN_def Let_def syn_header_cells)
  with buildSYN_checksum [OF b(1) assms] parse_buildSYN [OF b(1)] show ?thesis by blast
qed

theorem buildSYN_verifies_witness:
  "\<exists>pkt. buildSYN [10, 0, 0, 1] [192, 0, 2, 7] 40000 443 0xDEADBEEF = Inr pkt \<and> length pkt = 20 \<and>
    tcpChecksum [10, 0, 0, 1] [192, 0, 2, 7] pkt = 0 \<and>
    parseTCPSegment pkt =
      Inr \<lparr>srcPort = 40000, dstPort = 443, seq = 0xDEADBEEF, ack = 0, flags = flagSYN\<rparr>"
  using buildSYN_verifies [of "[10, 0, 0, 1]" "[10, 0, 0, 1]" "[192, 0, 2, 7]" "[192, 0, 2, 7]"
      40000 443 "0xDEADBEEF"]
  by (simp add: To4_def)

end
