(* ===== verification/Prober_TCP.thy ===== *)
theory Prober_TCP
  imports Prober Tcp_Syn
begin

text \<open>
  \<^verbatim>\<open>internal/probe/tcp\<close>: the two attempt functions (a full handshake through the kernel, and a raw
  half-open SYN), the closure that turns an attempt into an \<^verbatim>\<open>Attempt\<close> and records an open port,
  and \<^verbatim>\<open>probeOne\<close>. The sockets are arguments: what a dial returns, and for the raw socket the
  packets in the order they arrive, with their arrival times.
\<close>

subsection \<open>Connect mode\<close>

definition reachable :: "portState \<Rightarrow> bool" where
  "reachable s \<longleftrightarrow> s \<noteq> stateUnreachable"

text \<open>
  What \<^verbatim>\<open>DialContext\<close> returns, with the time it took. The arguments of a dialer are the timeout,
  the local address (absent, or an address whose IP may be nil) and the remote address.
\<close>

datatype dial_outcome = Dial_OK | Dial_Refused | Dial_Failed string

type_synonym dialer = "duration \<Rightarrow> ip option option \<Rightarrow> string \<Rightarrow> dial_outcome \<times> duration"

definition local_addr :: "string \<Rightarrow> ip option option" where
  "local_addr sourceIP = (if sourceIP \<noteq> [] then Some (ParseIP sourceIP) else None)"

definition connectAttempt ::
  "dialer \<Rightarrow> string \<Rightarrow> string \<Rightarrow> go_int \<Rightarrow> duration \<Rightarrow> string + duration \<times> portState" where
  "connectAttempt dial sourceIP ip port timeout =
     (let addr = JoinHostPort ip (Itoa port)
      in case dial timeout (local_addr sourceIP) addr of
           (Dial_OK, rtt) \<Rightarrow> Inr (rtt, stateOpen)
         | (Dial_Refused, rtt) \<Rightarrow> Inr (rtt, stateClosed)
         | (Dial_Failed err, rtt) \<Rightarrow> Inr (0, stateUnreachable))"

lemma connectAttempt_never_errs: "is_ok (connectAttempt dial src ip port timeout)"
  by (simp add: connectAttempt_def Let_def split: prod.split dial_outcome.split)

subsection \<open>SYN mode\<close>

text \<open>
  The environment of one SYN attempt: the local address the kernel picks for a UDP dial, the
  error of opening the raw socket, the two random numbers, the clock when the deadline is
  computed and when the packet is sent, the deadline of the context, the errors of setting the
  deadline and of sending, and the packets that arrive, with arrival time, sender and bytes.
\<close>

datatype udp_local = UDPAddr ip | OtherAddr string

record syn_env =
  se_route :: "string \<Rightarrow> string + udp_local"
  se_listen :: "string \<Rightarrow> string option"
  se_rand_port :: nat
  se_rand_seq :: u32
  se_now :: int
  se_ctx_deadline :: "int option"
  se_deadline_err :: "string option"
  se_start :: int
  se_write :: "byte list \<Rightarrow> ip \<Rightarrow> string option"
  se_packets :: "(int \<times> ip \<times> byte list) list"

definition syn_resolveSourceIP :: "(string \<Rightarrow> string + udp_local) \<Rightarrow> string \<Rightarrow> ip \<Rightarrow> string + ip" where
  "syn_resolveSourceIP route sourceIP dstIP =
     (if sourceIP \<noteq> [] then
        case Option.bind (ParseIP sourceIP) To4 of
          None \<Rightarrow> Inl (''syn: source_ip '' @ Quote sourceIP @ '' is not IPv4'')
        | Some ip \<Rightarrow> Inr ip
      else case route (JoinHostPort (IP_String dstIP) ''80'') of
        Inl err \<Rightarrow> Inl (''syn: determine source IP for '' @ IP_String dstIP @ '': '' @ err)
      | Inr (OtherAddr ty) \<Rightarrow>
          Inl (''syn: unexpected local address type '' @ ty @ '' for route to '' @ IP_String dstIP)
      | Inr (UDPAddr a) \<Rightarrow>
          (case To4 a of
             None \<Rightarrow> Inl (''syn: no IPv4 source route to '' @ IP_String dstIP)
           | Some ip \<Rightarrow> Inr ip))"

text \<open>
  The receive loop. A read returns the next packet, cut to the 1500 bytes of the buffer, unless
  the deadline comes first; a read error ends the loop with an unreachable target.
\<close>

fun syn_receive :: "int \<Rightarrow> int \<Rightarrow> ip \<Rightarrow> u16 \<Rightarrow> u16 \<Rightarrow> u32 \<Rightarrow> (int \<times> ip \<times> byte list) list
    \<Rightarrow> duration \<times> portState" where
  "syn_receive deadline start dstIP sp dp expectAck [] = (0, stateUnreachable)"
| "syn_receive deadline start dstIP sp dp expectAck ((t, raddr, b) # packets) =
     (if deadline \<le> t then (0, stateUnreachable)
      else if IP_String raddr \<noteq> IP_String dstIP
      then syn_receive deadline start dstIP sp dp expectAck packets
      else case parseTCPSegment (stripIPv4Header (take 1500 b)) of
             Inl err \<Rightarrow> syn_receive deadline start dstIP sp dp expectAck packets
           | Inr seg \<Rightarrow>
               (case classifyReply seg sp dp expectAck of
                  (state, True) \<Rightarrow> (t - start, state)
                | (state, False) \<Rightarrow> syn_receive deadline start dstIP sp dp expectAck packets))"

definition syn_srcPort :: "syn_env \<Rightarrow> u16" where
  "syn_srcPort env = of_nat (1024 + se_rand_port env mod (65535 - 1024))"

definition syn_deadline :: "syn_env \<Rightarrow> duration \<Rightarrow> int" where
  "syn_deadline env timeout =
     (case se_ctx_deadline env of
        Some d \<Rightarrow> if d < se_now env + timeout then d else se_now env + timeout
      | None \<Rightarrow> se_now env + timeout)"

definition synAttempt ::
  "syn_env \<Rightarrow> string \<Rightarrow> string \<Rightarrow> go_int \<Rightarrow> duration \<Rightarrow> string + duration \<times> portState" where
  "synAttempt env sourceIP ip port timeout =
     (case Option.bind (ParseIP ip) To4 of
        None \<Rightarrow> Inl (''syn: target '' @ Quote ip @ '' is not IPv4 (SYN mode is IPv4-only)'')
      | Some dstIP \<Rightarrow>
      case syn_resolveSourceIP (se_route env) sourceIP dstIP of
        Inl err \<Rightarrow> Inl err
      | Inr srcIP \<Rightarrow>
      case se_listen env (IP_String srcIP) of
        Some err \<Rightarrow> Inl (''syn: open raw socket (needs CAP_NET_RAW): '' @ err)
      | None \<Rightarrow>
      case buildSYN srcIP dstIP (syn_srcPort env) (of_int port) (se_rand_seq env) of
        Inl err \<Rightarrow> Inl err
      | Inr syn \<Rightarrow>
      case se_deadline_err env of
        Some err \<Rightarrow> Inl (''syn: set deadline: '' @ err)
      | None \<Rightarrow>
      case se_write env syn dstIP of
        Some err \<Rightarrow> Inl (''syn: send: '' @ err)
      | None \<Rightarrow>
          Inr (syn_receive (syn_deadline env timeout) (se_start env) dstIP (syn_srcPort env)
                 (of_int port) (se_rand_seq env + 1) (se_packets env)))"

text \<open>A reply that answers the SYN: before the deadline, from the target, with the right ports.\<close>

definition syn_reply_of ::
  "int \<Rightarrow> ip \<Rightarrow> u16 \<Rightarrow> u16 \<Rightarrow> u32 \<Rightarrow> int \<times> ip \<times> byte list \<Rightarrow> synSegment \<Rightarrow> bool" where
  "syn_reply_of deadline dstIP sp dp expectAck = (\<lambda>(t, raddr, b) seg.
     t < deadline \<and> IP_String raddr = IP_String dstIP \<and>
     parseTCPSegment (stripIPv4Header (take 1500 b)) = Inr seg \<and>
     srcPort seg = dp \<and> dstPort seg = sp)"

lemma syn_receive_open:
  "syn_receive dl st dst sp dp ex ps = (rtt, stateOpen) \<Longrightarrow>
   \<exists>p \<in> set ps. \<exists>seg. syn_reply_of dl dst sp dp ex p seg \<and> rtt = fst p - st \<and>
     flags seg AND flagSYN \<noteq> 0 \<and> flags seg AND flagACK \<noteq> 0 \<and> ack seg = ex"
  by (induction dl st dst sp dp ex ps rule: syn_receive.induct)
    (auto simp: syn_reply_of_def classifyReply_def split: if_splits sum.splits)

lemma syn_receive_closed:
  "syn_receive dl st dst sp dp ex ps = (rtt, stateClosed) \<Longrightarrow>
   \<exists>p \<in> set ps. \<exists>seg. syn_reply_of dl dst sp dp ex p seg \<and> rtt = fst p - st \<and>
     flags seg AND flagRST \<noteq> 0"
  by (induction dl st dst sp dp ex ps rule: syn_receive.induct)
    (auto simp: syn_reply_of_def classifyReply_def split: if_splits sum.splits)

text \<open>Unrelated packets do not decide anything: they can be removed.\<close>

definition syn_relevant :: "ip \<Rightarrow> u16 \<Rightarrow> u16 \<Rightarrow> u32 \<Rightarrow> int \<times> ip \<times> byte list \<Rightarrow> bool" where
  "syn_relevant dstIP sp dp ex = (\<lambda>(t, raddr, b).
     IP_String raddr = IP_String dstIP \<and>
     (case parseTCPSegment (stripIPv4Header (take 1500 b)) of
        Inl _ \<Rightarrow> False | Inr seg \<Rightarrow> snd (classifyReply seg sp dp ex)))"

lemma syn_receive_relevant:
  assumes "sorted (map fst ps)"
  shows "syn_receive dl st dst sp dp ex ps =
    (case filter (syn_relevant dst sp dp ex) ps of
       [] \<Rightarrow> (0, stateUnreachable)
     | p # _ \<Rightarrow> syn_receive dl st dst sp dp ex [p])"
  using assms
proof (induction ps)
  case Nil
  then show ?case by simp
next
  case (Cons p ps)
  obtain t a b where p: "p = (t, a, b)" by (cases p) auto
  have late: "\<forall>q \<in> set ps. t \<le> fst q" using Cons.prems by (simp add: p)
  show ?case
  proof (cases "dl \<le> t")
    case True
    have "syn_receive dl st dst sp dp ex [q] = (0, stateUnreachable)" if "q \<in> set (p # ps)" for q
      using True late that by (cases q) (auto simp: p)
    moreover have "set (filter (syn_relevant dst sp dp ex) (p # ps)) \<subseteq> set (p # ps)" by auto
    moreover have "syn_receive dl st dst sp dp ex (p # ps) = (0, stateUnreachable)"
      using True by (simp add: p)
    ultimately show ?thesis
      by (cases "filter (syn_relevant dst sp dp ex) (p # ps)") (simp_all del: filter.simps)
  next
    case False
    with Cons show ?thesis
      by (auto simp: p syn_relevant_def split: sum.splits list.splits prod.splits bool.splits)
  qed
qed

lemma syn_srcPort_range: "1024 \<le> unat (syn_srcPort env)" "unat (syn_srcPort env) < 65535"
proof -
  let ?n = "1024 + se_rand_port env mod (65535 - 1024)"
  have "?n < 65535" using mod_less_divisor [of "65535 - 1024" "se_rand_port env"] by linarith
  then have "unat (syn_srcPort env) = ?n" by (simp add: syn_srcPort_def unsigned_of_nat take_bit_eq_mod del: of_nat_add)
  then show "1024 \<le> unat (syn_srcPort env)" "unat (syn_srcPort env) < 65535" using \<open>?n < 65535\<close> by simp_all
qed

subsection \<open>The prober\<close>

text \<open>
  The environment of a run against one address: the clock, the state of the context before each
  attempt, and for each attempt the dialer and the raw socket.
\<close>

record tcp_env =
  te_now :: int
  te_ctx_done :: "nat \<Rightarrow> bool"
  te_dial :: "nat \<Rightarrow> dialer"
  te_syn :: "nat \<Rightarrow> syn_env"

text \<open>A configuration without a TCP block has no meaning here (the code would dereference nil).\<close>

definition attemptFn :: "tcp_env \<Rightarrow> ProbeConfig \<Rightarrow> nat \<Rightarrow> string \<Rightarrow> string + duration \<times> portState" where
  "attemptFn env cfg i ip =
     (let port = tcp_Port (the (pc_TCP cfg));
          src = pc_SourceIP cfg;
          timeout = pc_Timeout cfg
      in if tcp_Mode (the (pc_TCP cfg)) = TCPModeSYN
         then synAttempt (te_syn env i) src ip port timeout
         else connectAttempt (te_dial env i) src ip port timeout)"

text \<open>The closure passed to \<^verbatim>\<open>RunLoop\<close>; the captured variable is \<^verbatim>\<open>synAckGot\<close>.\<close>

definition tcp_closure ::
  "(nat \<Rightarrow> string + duration \<times> portState) \<Rightarrow> nat \<Rightarrow> bool \<Rightarrow> Attempt \<times> bool" where
  "tcp_closure attempt i synAckGot =
     (case attempt i of
        Inl err \<Rightarrow> (\<lparr>a_RTT = 0, a_Received = False, a_Err = Some err\<rparr>, synAckGot)
      | Inr (rtt, state) \<Rightarrow>
          if \<not> reachable state then (\<lparr>a_RTT = 0, a_Received = False, a_Err = None\<rparr>, synAckGot)
          else (\<lparr>a_RTT = rtt, a_Received = True, a_Err = None\<rparr>,
                if state = stateOpen then True else synAckGot))"

definition tcp_probeOne :: "tcp_env \<Rightarrow> ProbeConfig \<Rightarrow> WorkItem \<Rightarrow> ProbeResult" where
  "tcp_probeOne env cfg wi =
     (let (result, ok) = NewResult (te_now env) cfg wi ProbeTypeTCP
      in if \<not> ok then result
         else let (live, result1, synAckGot) =
                RunLoop (te_ctx_done env) (tcp_closure (\<lambda>i. attemptFn env cfg i (wi_IP wi)))
                  (pc_Count cfg) result False
              in if live then result1\<lparr>pr_PortOpen := Some synAckGot\<rparr> else result1)"

definition tcp_Run :: "tcp_env host_env \<Rightarrow> ProbeConfig \<Rightarrow> ProbeResult list" where
  "tcp_Run = run_hosts tcp_probeOne"

definition tcp_cfg_ok :: "ProbeConfig \<Rightarrow> bool" where
  "tcp_cfg_ok cfg \<longleftrightarrow> pc_TCP cfg \<noteq> None \<and> 0 < pc_Count cfg \<and> pc_Count cfg \<le> 2 ^ 53"

interpretation tcp_attempts: port_attempt "tcp_closure attempt" for attempt
  by unfold_locales (auto simp: tcp_closure_def reachable_def split: sum.splits if_splits)

lemma tcp_probeOne_id:
  "result_id (tcp_probeOne env cfg wi) = (pc_Name cfg, wi_IP wi, wi_FQDN wi, ProbeTypeTCP)"
  by (auto simp: tcp_probeOne_def Let_def NewResult_id dest: port_result_id split: prod.split)

lemma tcp_probeOne_ok: "tcp_cfg_ok cfg \<Longrightarrow> result_ok (tcp_probeOne env cfg wi)"
  using tcp_attempts.port_result_ok NewResult_error_ok NewResult_fresh
  by (fastforce simp: tcp_probeOne_def tcp_cfg_ok_def Let_def split: prod.splits)

interpretation tcp: host_prober tcp_probeOne "\<lambda>_. True" tcp_cfg_ok ProbeTypeTCP
  by unfold_locales (rule tcp_probeOne_ok tcp_probeOne_id, assumption?)+

lemma tcp_probeOne_port:
  assumes "tcp_cfg_ok cfg"
  shows "pr_PortOpen (tcp_probeOne env cfg wi) = None \<longleftrightarrow> IsError (pr_Status (tcp_probeOne env cfg wi))"
proof -
  obtain r ok where n: "NewResult (te_now env) cfg wi ProbeTypeTCP = (r, ok)" by fastforce
  show ?thesis
  proof (cases ok)
    case False
    with n show ?thesis
      by (auto simp: tcp_probeOne_def NewResult_def zero_result_def status_preds Let_def split: if_splits)
  next
    case True
    with n have "fresh r" by (auto dest: NewResult_fresh)
    with True n assms tcp_attempts.port_result_state show ?thesis
      by (fastforce simp: tcp_probeOne_def tcp_cfg_ok_def Let_def split: prod.splits)
  qed
qed

subsection \<open>Properties of the prober\<close>

text \<open>
  An attempt against \<^verbatim>\<open>10.0.0.1:443\<close> from port 1024 with sequence number 41: a stray packet from
  another host arrives, then the SYN/ACK.
\<close>

definition example_syn_env :: syn_env where
  "example_syn_env = \<lparr>se_route = (\<lambda>_. Inr (UDPAddr [10, 0, 0, 9])), se_listen = (\<lambda>_. None),
     se_rand_port = 0, se_rand_seq = 41, se_now = 100, se_ctx_deadline = None, se_deadline_err = None,
     se_start = 100, se_write = (\<lambda>_ _. None),
     se_packets =
       [(120, [10, 0, 0, 7], replicate 20 0),
        (150, [10, 0, 0, 1], [1, 0xBB, 4, 0, 0, 0, 0, 0, 0, 0, 0, 42, 0x50, 0x12, 0, 0, 0, 0, 0, 0])]\<rparr>"

lemma example_syn_attempt: "synAttempt example_syn_env [] ''10.0.0.1'' 443 5000 = Inr (50, stateOpen)"
proof -
  have "Option.bind (ParseIP ''10.0.0.1'') To4 = Some [10, 0, 0, 1]" by code_simp
  moreover have "syn_resolveSourceIP (se_route example_syn_env) [] [10, 0, 0, 1] = Inr [10, 0, 0, 9]"
    by (simp add: syn_resolveSourceIP_def example_syn_env_def To4_def)
  moreover have "syn_receive (syn_deadline example_syn_env 5000) (se_start example_syn_env) [10, 0, 0, 1]
    (syn_srcPort example_syn_env) 443 (se_rand_seq example_syn_env + 1) (se_packets example_syn_env) =
    (50, stateOpen)"
  proof -
    let ?b = "[1, 0xBB, 4, 0, 0, 0, 0, 0, 0, 0, 0, 42, 0x50, 0x12, 0, 0, 0, 0, 0, 0] :: byte list"
    have "IP_String [10, 0, 0, 7] \<noteq> IP_String [10, 0, 0, 1]" by code_simp
    moreover have "stripIPv4Header ?b = ?b" by (simp add: stripIPv4Header_def)
    moreover have "classifyReply \<lparr>srcPort = get_u16 1 0xBB, dstPort = get_u16 4 0, seq = get_u32 0 0 0 0,
        ack = get_u32 0 0 0 42, flags = 0x12\<rparr> 1024 443 42 = (stateOpen, True)" by code_simp
    ultimately show ?thesis
      by (simp add: example_syn_env_def syn_deadline_def syn_srcPort_def parseTCPSegment_def tcpHeaderLen_def)
  qed
  moreover obtain pkt where "buildSYN [10, 0, 0, 9] [10, 0, 0, 1] (syn_srcPort example_syn_env) 443
    (se_rand_seq example_syn_env) = Inr pkt" by (simp add: buildSYN_def To4_def Let_def)
  ultimately show ?thesis
    by (simp add: synAttempt_def) (simp add: example_syn_env_def)
qed

text \<open>
  C15. A SYN attempt reports a port open or closed only on evidence: a packet that arrived before
  the deadline from the target address, from the probed port to the port the SYN was sent from;
  for an open port it has SYN and ACK set and acknowledges our sequence number, for a closed port
  it has RST set. The round-trip time is the time from sending to that packet.
\<close>

theorem synAttempt_sound:
  assumes "synAttempt env src ip port timeout = Inr (rtt, state)" and "reachable state"
  shows "\<exists>a dst t raddr b seg. ParseIP ip = Some a \<and> To4 a = Some dst \<and> (t, raddr, b) \<in> set (se_packets env) \<and>
    t < syn_deadline env timeout \<and> IP_String raddr = IP_String dst \<and> rtt = t - se_start env \<and>
    parseTCPSegment (stripIPv4Header (take 1500 b)) = Inr seg \<and>
    srcPort seg = of_int port \<and> dstPort seg = syn_srcPort env \<and>
    (if state = stateOpen
     then flags seg AND flagSYN \<noteq> 0 \<and> flags seg AND flagACK \<noteq> 0 \<and> ack seg = se_rand_seq env + 1
     else flags seg AND flagRST \<noteq> 0)"
proof -
  obtain a dst where dst: "ParseIP ip = Some a" "To4 a = Some dst"
    and r: "syn_receive (syn_deadline env timeout) (se_start env) dst (syn_srcPort env) (of_int port)
      (se_rand_seq env + 1) (se_packets env) = (rtt, state)"
    using assms(1) by (auto simp: synAttempt_def Option.bind_eq_Some_conv split: option.splits sum.splits)
  show ?thesis
  proof (cases "state = stateOpen")
    case True
    with syn_receive_open r dst show ?thesis by (fastforce simp: syn_reply_of_def)
  next
    case False
    with assms(2) have "state = stateClosed" by (cases state) (simp_all add: reachable_def)
    with syn_receive_closed r dst show ?thesis by (fastforce simp: syn_reply_of_def)
  qed
qed

theorem synAttempt_sound_witness:
  "synAttempt example_syn_env [] ''10.0.0.1'' 443 5000 = Inr (50, stateOpen) \<and>
   (\<exists>t raddr b seg. (t, raddr, b) \<in> set (se_packets example_syn_env) \<and> 50 = t - se_start example_syn_env \<and>
      parseTCPSegment (stripIPv4Header (take 1500 b)) = Inr seg \<and> ack seg = 42)"
proof -
  have e: "synAttempt example_syn_env [] ''10.0.0.1'' 443 5000 = Inr (50, stateOpen)"
    by (rule example_syn_attempt)
  have "se_rand_seq example_syn_env + 1 = 42" by (simp add: example_syn_env_def)
  with e synAttempt_sound [OF e] show ?thesis by (fastforce simp: reachable_def)
qed



definition example_tcp_env :: tcp_env where
  "example_tcp_env = \<lparr>te_now = 0, te_ctx_done = (\<lambda>_. False), te_dial = (\<lambda>_ _ _ _. (Dial_OK, 7000)),
     te_syn = (\<lambda>_. example_syn_env)\<rparr>"

text \<open>
  C23. Every result of a TCP run is well formed: counters are consistent and agree with the status,
  the port state is absent exactly when the run was an error, and an open port is reported only
  for a target that is up, so the exported pair "down, but open" cannot occur.
\<close>

theorem tcp_results_ok:
  assumes "tcp_cfg_ok cfg" and "host_env_ok (\<lambda>_. True) env cfg"
  shows "list_all (\<lambda>r. result_ok r \<and> (pr_PortOpen r = None \<longleftrightarrow> IsError (pr_Status r)) \<and>
    (pr_PortOpen r = Some True \<longrightarrow> IsUp (pr_Status r))) (tcp_Run env cfg)"
  using tcp.results_ok [OF assms] tcp.open_is_up [OF assms]
    run_hosts_elem [OF assms(2), of _ tcp_probeOne] tcp_probeOne_port [OF assms(1)]
  by (fastforce simp: tcp_Run_def list_all_iff)

theorem tcp_results_ok_witness:
  "list_all (\<lambda>r. pr_PortOpen r = Some True \<longrightarrow> IsUp (pr_Status r))
     (tcp_Run (\<lambda>_. Inl [], \<lambda>_. example_tcp_env, [1, 0]) example_cfg)"
proof -
  have "tcp_cfg_ok example_cfg" by (simp add: tcp_cfg_ok_def example_cfg_def)
  then show ?thesis
    using tcp_results_ok [OF _ example_env_ok [of "\<lambda>_. True"]] by (auto simp: list_all_iff)
qed

end
