(* ===== verification/Prober_UDP.thy ===== *)
theory Prober_UDP
  imports Prober
begin

text \<open>
  \<^verbatim>\<open>internal/probe/udp\<close>: one attempt over a connected UDP socket, the closure that records an open
  port, and \<^verbatim>\<open>probeOne\<close>. The socket is an argument. Payloads and replies are byte strings.
\<close>

subsection \<open>One attempt\<close>

datatype udp_portState = udp_stateUnreachable | udp_stateClosed | udp_stateOpen

definition udp_reachable :: "udp_portState \<Rightarrow> bool" where
  "udp_reachable s \<longleftrightarrow> s \<noteq> udp_stateUnreachable"

text \<open>An error of a read or a write is told apart only by being \<^verbatim>\<open>ECONNREFUSED\<close> or not.\<close>

datatype io_error = ECONNREFUSED | Other_error string

text \<open>
  A socket: the error of the dial for a timeout, a local address and a remote address; the error
  of setting the deadline; the outcome of a write (an error or the number of bytes written) and of
  a read (an error or the bytes of the datagram), each with the time since the write began.
\<close>

record udp_socket =
  us_dial :: "duration \<Rightarrow> ip option option \<Rightarrow> string \<Rightarrow> string option"
  us_deadline_err :: "string option"
  us_write :: "string \<Rightarrow> (io_error + nat) \<times> duration"
  us_read :: "(io_error + string) \<times> duration"

definition udp_local_addr :: "string \<Rightarrow> ip option option" where
  "udp_local_addr sourceIP = (if sourceIP \<noteq> [] then Some (ParseIP sourceIP) else None)"

definition udp_read_state :: "string \<Rightarrow> (io_error + string) \<times> duration \<Rightarrow> duration \<times> udp_portState" where
  "udp_read_state expected = (\<lambda>(res, rtt).
     case res of
       Inl rerr \<Rightarrow> if rerr = ECONNREFUSED then (rtt, udp_stateClosed) else (0, udp_stateUnreachable)
     | Inr datagram \<Rightarrow>
         let buf = take (64 * 1024) datagram
         in if expected = [] \<or> HasPrefix buf expected then (rtt, udp_stateOpen)
            else (0, udp_stateUnreachable))"

definition udpAttempt ::
  "udp_socket \<Rightarrow> string \<Rightarrow> string \<Rightarrow> string \<Rightarrow> string \<Rightarrow> duration \<Rightarrow> string + duration \<times> udp_portState" where
  "udpAttempt sock sourceIP addr payload expected timeout =
     (case us_dial sock timeout (udp_local_addr sourceIP) addr of
        Some err \<Rightarrow> Inl err
      | None \<Rightarrow>
      case us_deadline_err sock of
        Some err \<Rightarrow> Inl err
      | None \<Rightarrow>
      case us_write sock payload of
        (Inl werr, since) \<Rightarrow>
          Inr (if werr = ECONNREFUSED then (since, udp_stateClosed) else (0, udp_stateUnreachable))
      | (Inr n, since) \<Rightarrow>
          if n < length payload then Inr (0, udp_stateUnreachable)
          else Inr (udp_read_state expected (us_read sock)))"

text \<open>An attempt errs only when the socket cannot be set up.\<close>

lemma udpAttempt_error_iff:
  "is_ok (udpAttempt sock src addr payload expected timeout) \<longleftrightarrow>
     us_dial sock timeout (udp_local_addr src) addr = None \<and> us_deadline_err sock = None"
  by (auto simp: udpAttempt_def split: option.splits prod.splits sum.splits)

text \<open>The port is open exactly when the whole payload was sent and a datagram with the prefix came.\<close>

lemma udpAttempt_open_iff:
  "udpAttempt sock src addr payload expected timeout = Inr (rtt, udp_stateOpen) \<longleftrightarrow>
     us_dial sock timeout (udp_local_addr src) addr = None \<and> us_deadline_err sock = None \<and>
     (\<exists>n d. us_write sock payload = (Inr n, d) \<and> length payload \<le> n) \<and>
     (\<exists>datagram. us_read sock = (Inr datagram, rtt) \<and> HasPrefix (take 65536 datagram) expected)"
  by (auto simp: udpAttempt_def udp_read_state_def Let_def split: option.splits prod.splits sum.splits)

lemma udpAttempt_closed_iff:
  "udpAttempt sock src addr payload expected timeout = Inr (rtt, udp_stateClosed) \<longleftrightarrow>
     us_dial sock timeout (udp_local_addr src) addr = None \<and> us_deadline_err sock = None \<and>
     (us_write sock payload = (Inl ECONNREFUSED, rtt) \<or>
      (\<exists>n d. us_write sock payload = (Inr n, d) \<and> length payload \<le> n) \<and>
      us_read sock = (Inl ECONNREFUSED, rtt))"
  by (auto simp: udpAttempt_def udp_read_state_def Let_def split: option.splits prod.splits sum.splits)

subsection \<open>The prober\<close>

record udp_env =
  ue_now :: int
  ue_ctx_done :: "nat \<Rightarrow> bool"
  ue_socket :: "nat \<Rightarrow> udp_socket"

text \<open>The closure passed to \<^verbatim>\<open>RunLoop\<close>; the captured variable is \<^verbatim>\<open>openGot\<close>.\<close>

definition udp_closure ::
  "(nat \<Rightarrow> string + duration \<times> udp_portState) \<Rightarrow> nat \<Rightarrow> bool \<Rightarrow> Attempt \<times> bool" where
  "udp_closure attempt i openGot =
     (case attempt i of
        Inl err \<Rightarrow> (\<lparr>a_RTT = 0, a_Received = False, a_Err = Some err\<rparr>, openGot)
      | Inr (rtt, state) \<Rightarrow>
          if \<not> udp_reachable state then (\<lparr>a_RTT = 0, a_Received = False, a_Err = None\<rparr>, openGot)
          else (\<lparr>a_RTT = rtt, a_Received = True, a_Err = None\<rparr>,
                if state = udp_stateOpen then True else openGot))"

text \<open>A configuration without a UDP block has no meaning here (the code would dereference nil).\<close>

definition udp_probeOne :: "udp_env \<Rightarrow> ProbeConfig \<Rightarrow> WorkItem \<Rightarrow> ProbeResult" where
  "udp_probeOne env cfg wi =
     (let (result, ok) = NewResult (ue_now env) cfg wi ProbeTypeUDP
      in if \<not> ok then result
         else let payload = udp_Payload (the (pc_UDP cfg));
                  expected = udp_ExpectedResponse (the (pc_UDP cfg));
                  addr = JoinHostPort (wi_IP wi) (Itoa (udp_Port (the (pc_UDP cfg))));
                  (live, result1, openGot) =
                    RunLoop (ue_ctx_done env)
                      (udp_closure (\<lambda>i. udpAttempt (ue_socket env i) (pc_SourceIP cfg) addr payload
                         expected (pc_Timeout cfg)))
                      (pc_Count cfg) result False
              in if live then result1\<lparr>pr_PortOpen := Some openGot\<rparr> else result1)"

definition udp_Run :: "udp_env host_env \<Rightarrow> ProbeConfig \<Rightarrow> ProbeResult list" where
  "udp_Run = run_hosts udp_probeOne"

definition udp_cfg_ok :: "ProbeConfig \<Rightarrow> bool" where
  "udp_cfg_ok cfg \<longleftrightarrow> pc_UDP cfg \<noteq> None \<and> 0 < pc_Count cfg \<and> pc_Count cfg \<le> 2 ^ 53"

interpretation udp_attempts: port_attempt "udp_closure attempt" for attempt
  by unfold_locales (auto simp: udp_closure_def udp_reachable_def split: sum.splits if_splits)

lemma udp_probeOne_id:
  "result_id (udp_probeOne env cfg wi) = (pc_Name cfg, wi_IP wi, wi_FQDN wi, ProbeTypeUDP)"
  by (auto simp: udp_probeOne_def Let_def NewResult_id dest: port_result_id split: prod.split)

lemma udp_probeOne_ok: "udp_cfg_ok cfg \<Longrightarrow> result_ok (udp_probeOne env cfg wi)"
  using udp_attempts.port_result_ok NewResult_error_ok NewResult_fresh
  by (fastforce simp: udp_probeOne_def udp_cfg_ok_def Let_def split: prod.splits)

interpretation udp: host_prober udp_probeOne "\<lambda>_. True" udp_cfg_ok ProbeTypeUDP
  by unfold_locales (rule udp_probeOne_ok udp_probeOne_id, assumption?)+

lemma udp_probeOne_port:
  assumes "udp_cfg_ok cfg"
  shows "pr_PortOpen (udp_probeOne env cfg wi) = None \<longleftrightarrow> IsError (pr_Status (udp_probeOne env cfg wi))"
proof -
  obtain r ok where n: "NewResult (ue_now env) cfg wi ProbeTypeUDP = (r, ok)" by fastforce
  show ?thesis
  proof (cases ok)
    case False
    with n show ?thesis
      by (auto simp: udp_probeOne_def NewResult_def zero_result_def status_preds Let_def split: if_splits)
  next
    case True
    with n have "fresh r" by (auto dest: NewResult_fresh)
    with True n assms udp_attempts.port_result_state show ?thesis
      by (fastforce simp: udp_probeOne_def udp_cfg_ok_def Let_def split: prod.splits)
  qed
qed

subsection \<open>Properties of the prober\<close>

text \<open>
  C27. The classification of a UDP attempt. The port is open exactly when the socket could be set
  up, the whole payload was written and a datagram arrived that starts with the expected bytes;
  it is closed exactly when the write or the read met a refused connection; an error is returned
  exactly when the socket could not be set up.
\<close>

theorem udpAttempt_classifies:
  "(udpAttempt sock src addr payload expected timeout = Inr (rtt, udp_stateOpen) \<longleftrightarrow>
     us_dial sock timeout (udp_local_addr src) addr = None \<and> us_deadline_err sock = None \<and>
     (\<exists>n d. us_write sock payload = (Inr n, d) \<and> length payload \<le> n) \<and>
     (\<exists>datagram. us_read sock = (Inr datagram, rtt) \<and> HasPrefix (take 65536 datagram) expected)) \<and>
   (udpAttempt sock src addr payload expected timeout = Inr (rtt, udp_stateClosed) \<longleftrightarrow>
     us_dial sock timeout (udp_local_addr src) addr = None \<and> us_deadline_err sock = None \<and>
     (us_write sock payload = (Inl ECONNREFUSED, rtt) \<or>
      (\<exists>n d. us_write sock payload = (Inr n, d) \<and> length payload \<le> n) \<and>
      us_read sock = (Inl ECONNREFUSED, rtt))) \<and>
   (is_ok (udpAttempt sock src addr payload expected timeout) \<longleftrightarrow>
     us_dial sock timeout (udp_local_addr src) addr = None \<and> us_deadline_err sock = None)"
  by (intro conjI udpAttempt_open_iff udpAttempt_closed_iff udpAttempt_error_iff)

definition example_udp_env :: udp_env where
  "example_udp_env = \<lparr>ue_now = 0, ue_ctx_done = (\<lambda>_. False),
     ue_socket = (\<lambda>_. \<lparr>us_dial = (\<lambda>_ _ _. None), us_deadline_err = None,
       us_write = (\<lambda>p. (Inr (length p), 10)), us_read = (Inr ''pong!'', 9000)\<rparr>)\<rparr>"

text \<open>
  C24. Every result of a UDP run is well formed: counters are consistent and agree with the status,
  the port state is absent exactly when the run was an error, and an open port is reported only
  for a target that is up, so the exported pair "down, but open" cannot occur.
\<close>

theorem udp_results_ok:
  assumes "udp_cfg_ok cfg" and "host_env_ok (\<lambda>_. True) env cfg"
  shows "list_all (\<lambda>r. result_ok r \<and> (pr_PortOpen r = None \<longleftrightarrow> IsError (pr_Status r)) \<and>
    (pr_PortOpen r = Some True \<longrightarrow> IsUp (pr_Status r))) (udp_Run env cfg)"
  using udp.results_ok [OF assms] udp.open_is_up [OF assms]
    run_hosts_elem [OF assms(2), of _ udp_probeOne] udp_probeOne_port [OF assms(1)]
  by (fastforce simp: udp_Run_def list_all_iff)

theorem udp_results_ok_witness:
  "list_all (\<lambda>r. pr_PortOpen r = Some True \<longrightarrow> IsUp (pr_Status r))
     (udp_Run (\<lambda>_. Inl [], \<lambda>_. example_udp_env, [1, 0]) example_cfg)"
proof -
  have "udp_cfg_ok example_cfg" by (simp add: udp_cfg_ok_def example_cfg_def)
  then show ?thesis
    using udp_results_ok [OF _ example_env_ok [of "\<lambda>_. True"]] by (auto simp: list_all_iff)
qed

end
