(* ===== verification/Prober_DNS.thy ===== *)
theory Prober_DNS
  imports Prober
begin

text \<open>
  \<^verbatim>\<open>internal/probe/dns\<close>: the choice of the nameserver, one query, the matching of its answers, and
  the run over the query names. The DNS library is not part of the repository: its exchange of a
  message, its reading of \<^verbatim>\<open>/etc/resolv.conf\<close> and its function \<^verbatim>\<open>dns.Fqdn\<close> are arguments, and of its
  constants only the names the prober uses appear.
\<close>

subsection \<open>Messages\<close>

datatype qtype = TypeA | TypeAAAA | TypeCNAME | TypeMX | TypeTXT

datatype rcode = RcodeSuccess | RcodeNameError | Rcode_other nat

datatype RR = RR_A ip | RR_AAAA ip | RR_CNAME string | RR_MX string | RR_TXT "string list" | RR_other

record dns_response =
  dr_Rcode :: rcode
  dr_Answer :: "RR list"

definition qtypeFor :: "string \<Rightarrow> qtype" where
  "qtypeFor recordType =
     (if recordType = ''AAAA'' then TypeAAAA
      else if recordType = ''CNAME'' then TypeCNAME
      else if recordType = ''MX'' then TypeMX
      else if recordType = ''TXT'' then TypeTXT
      else TypeA)"

fun extract_rr :: "qtype \<Rightarrow> RR \<Rightarrow> string list" where
  "extract_rr qt (RR_A a) = (if qt = TypeA then [IP_String a] else [])"
| "extract_rr qt (RR_AAAA a) = (if qt = TypeAAAA then [IP_String a] else [])"
| "extract_rr qt (RR_CNAME t) = (if qt = TypeCNAME then [TrimSuffix t ''.''] else [])"
| "extract_rr qt (RR_MX m) = (if qt = TypeMX then [TrimSuffix m ''.''] else [])"
| "extract_rr qt (RR_TXT ts) = (if qt = TypeTXT then [concat ts] else [])"
| "extract_rr qt RR_other = []"

definition extractAnswers :: "dns_response \<Rightarrow> qtype \<Rightarrow> string list" where
  "extractAnswers resp qt = concat (map (extract_rr qt) (dr_Answer resp))"

definition matchAnswer :: "dns_response \<Rightarrow> qtype \<Rightarrow> string list \<Rightarrow> bool" where
  "matchAnswer resp qt expected \<longleftrightarrow>
     list_ex (\<lambda>got. list_ex (\<lambda>want. EqualFold got want) expected) (extractAnswers resp qt)"

subsection \<open>One query\<close>

type_synonym exchange = "string \<Rightarrow> qtype \<Rightarrow> duration \<Rightarrow> string \<Rightarrow> string + dns_response \<times> duration"

definition dnsAttempt ::
  "exchange \<Rightarrow> string \<Rightarrow> qtype \<Rightarrow> duration \<Rightarrow> string \<Rightarrow> string list \<Rightarrow> duration \<times> bool" where
  "dnsAttempt exchange name qt timeout server expected =
     (case exchange name qt timeout server of
        Inl err \<Rightarrow> (0, False)
      | Inr (resp, rtt) \<Rightarrow>
          (case dr_Rcode resp of
             RcodeSuccess \<Rightarrow>
               if expected = [] then (rtt, True)
               else if matchAnswer resp qt expected then (rtt, True)
               else (0, False)
           | RcodeNameError \<Rightarrow> if expected = [] then (rtt, True) else (0, False)
           | Rcode_other _ \<Rightarrow> (0, False)))"

lemma matchAnswer_iff:
  "matchAnswer resp qt expected \<longleftrightarrow>
     (\<exists>rr \<in> set (dr_Answer resp). \<exists>got \<in> set (extract_rr qt rr). \<exists>want \<in> set expected. EqualFold got want)"
  by (auto simp: matchAnswer_def extractAnswers_def list_ex_iff)

lemma dnsAttempt_iff:
  "dnsAttempt ex name qt timeout server expected = (rtt, True) \<longleftrightarrow>
     (\<exists>resp. ex name qt timeout server = Inr (resp, rtt) \<and>
        (if expected = [] then dr_Rcode resp \<in> {RcodeSuccess, RcodeNameError}
         else dr_Rcode resp = RcodeSuccess \<and> matchAnswer resp qt expected))"
  by (auto simp: dnsAttempt_def split: sum.splits rcode.splits if_splits)

text \<open>A name written with or without its trailing dot, in any letter case, matches the answer.\<close>

lemma cname_match_case:
  assumes "RR_CNAME (target @ ''.'') \<in> set (dr_Answer resp)" and "EqualFold target want" and "want \<in> set expected"
  shows "matchAnswer resp TypeCNAME expected"
  using assms by (force simp: matchAnswer_iff)

subsection \<open>The prober\<close>

record dns_env =
  de_resolv_conf :: "string + string list \<times> string"
  de_Fqdn :: "string \<Rightarrow> string"
  de_now :: "nat \<Rightarrow> int"
  de_ctx_done :: "nat \<Rightarrow> nat \<Rightarrow> bool"
  de_exchange :: "nat \<Rightarrow> nat \<Rightarrow> exchange"
  de_order :: "nat list"

text \<open>A configuration without a DNS block has no meaning here (the code would dereference nil).\<close>

definition resolveServer :: "string + string list \<times> string \<Rightarrow> ProbeConfig \<Rightarrow> string + string" where
  "resolveServer conf cfg =
     (if dns_Resolver (the (pc_DNS cfg)) \<noteq> [] then Inr (dns_Resolver (the (pc_DNS cfg)))
      else case conf of
        Inl err \<Rightarrow> Inl (''read system resolver config: '' @ err)
      | Inr (servers, port) \<Rightarrow>
          (case servers of
             [] \<Rightarrow> Inl ''no nameservers configured in /etc/resolv.conf''
           | s # _ \<Rightarrow> Inr (JoinHostPort s port)))"

definition dns_base :: "int \<Rightarrow> ProbeConfig \<Rightarrow> string \<Rightarrow> ProbeResult" where
  "dns_base now cfg qname = zero_result\<lparr>
     pr_Timestamp := now, pr_ProbeName := pc_Name cfg, pr_Target := qname,
     pr_SourceIP := pc_SourceIP cfg, pr_ProbeType := ProbeTypeDNS, pr_Labels := pc_Labels cfg\<rparr>"

definition dns_closure :: "(nat \<Rightarrow> duration \<times> bool) \<Rightarrow> nat \<Rightarrow> unit \<Rightarrow> Attempt \<times> unit" where
  "dns_closure attempt i u =
     (let (rtt, ok) = attempt i in (\<lparr>a_RTT = rtt, a_Received = ok, a_Err = None\<rparr>, u))"

definition dns_probeOne :: "dns_env \<Rightarrow> ProbeConfig \<Rightarrow> string + string \<Rightarrow> nat \<Rightarrow> string \<Rightarrow> ProbeResult" where
  "dns_probeOne env cfg srv idx qname =
     (let result = dns_base (de_now env idx) cfg qname
      in case srv of
           Inl serverErr \<Rightarrow>
             result\<lparr>pr_Status := StatusError, pr_ErrorType := ''init_error'', pr_ErrorMsg := serverErr\<rparr>
         | Inr server \<Rightarrow>
             let d = the (pc_DNS cfg);
                 qt = qtypeFor (dns_RecordType d);
                 (ok, result1, _) =
                   RunLoop (de_ctx_done env idx)
                     (dns_closure (\<lambda>i. dnsAttempt (de_exchange env idx i) (de_Fqdn env qname) qt
                        (pc_Timeout cfg) server (dns_ExpectedAnswer d)))
                     (pc_Count cfg) result ()
             in result1)"

definition dns_Run :: "dns_env \<Rightarrow> ProbeConfig \<Rightarrow> ProbeResult list" where
  "dns_Run env cfg =
     (if pc_Targets cfg = [] then []
      else let srv = resolveServer (de_resolv_conf env) cfg
           in store_results (dns_probeOne env cfg srv) (pc_Targets cfg) (de_order env)
                (replicate (length (pc_Targets cfg)) zero_result))"

definition dns_cfg_ok :: "ProbeConfig \<Rightarrow> bool" where
  "dns_cfg_ok cfg \<longleftrightarrow> pc_DNS cfg \<noteq> None \<and> 0 < pc_Count cfg \<and> pc_Count cfg \<le> 2 ^ 53"

definition dns_env_ok :: "dns_env \<Rightarrow> ProbeConfig \<Rightarrow> bool" where
  "dns_env_ok env cfg \<longleftrightarrow> complete_order (de_order env) (length (pc_Targets cfg))"

text \<open>Results come in the order of the configured names, whatever order the queries end in.\<close>

lemma dns_Run_eq:
  assumes "dns_env_ok env cfg"
  shows "dns_Run env cfg =
    map (\<lambda>i. dns_probeOne env cfg (resolveServer (de_resolv_conf env) cfg) i (pc_Targets cfg ! i))
      [0..<length (pc_Targets cfg)]"
  using assms by (simp add: dns_Run_def dns_env_ok_def Let_def store_results_complete)

lemma dns_base_fresh: "fresh (dns_base now cfg q)"
  by (simp add: fresh_def dns_base_def zero_result_def)

text \<open>No query aborts the loop, so the run of a positive count always measures.\<close>

lemma dns_closure_no_error: "a_Err (fst (dns_closure att i u)) = None"
  by (simp add: dns_closure_def split: prod.split)

lemma dns_probeOne_id:
  "result_id (dns_probeOne env cfg srv i q) = (pc_Name cfg, q, [], ProbeTypeDNS)"
  by (auto simp: dns_probeOne_def dns_base_def zero_result_def result_id_def Let_def
      dest: RunLoop_id split: sum.split prod.split)

lemma dns_probeOne_status:
  assumes "dns_cfg_ok cfg"
  shows "result_ok (dns_probeOne env cfg srv i q)"
    and "IsError (pr_Status (dns_probeOne env cfg srv i q)) \<longleftrightarrow> \<not> is_ok srv"
    and "pr_PortOpen (dns_probeOne env cfg srv i q) = None"
proof -
  have "result_ok (dns_probeOne env cfg srv i q) \<and>
    (IsError (pr_Status (dns_probeOne env cfg srv i q)) \<longleftrightarrow> \<not> is_ok srv) \<and>
    pr_PortOpen (dns_probeOne env cfg srv i q) = None"
  proof (cases srv)
    case (Inl e)
    then show ?thesis
      by (simp add: dns_probeOne_def dns_base_def zero_result_def result_ok_def status_preds)
  next
    case (Inr server)
    define att where "att = (\<lambda>k. dnsAttempt (de_exchange env i k) (de_Fqdn env q)
      (qtypeFor (dns_RecordType (the (pc_DNS cfg)))) (pc_Timeout cfg) server (dns_ExpectedAnswer (the (pc_DNS cfg))))"
    obtain ok r1 where l: "RunLoop (de_ctx_done env i) (dns_closure att) (pc_Count cfg)
      (dns_base (de_now env i) cfg q) () = (ok, r1, ())" by (metis prod_cases3 old.unit.exhaust)
    have c: "0 < pc_Count cfg" "pc_Count cfg \<le> 2 ^ 53" using assms by (simp_all add: dns_cfg_ok_def)
    have "ok" using RunLoop_measures [OF l dns_base_fresh c(1) dns_closure_no_error] .
    with RunLoop_counters [OF l dns_base_fresh c(1)] RunLoop_status(1) [OF l dns_base_fresh c]
    have "result_ok r1" "\<not> IsError (pr_Status r1)" "pr_PortOpen r1 = None"
      by (auto simp: result_ok_def status_preds)
    moreover have "dns_probeOne env cfg srv i q = r1"
      using l by (simp add: dns_probeOne_def Inr Let_def att_def)
    ultimately show ?thesis by (simp add: Inr)
  qed
  then show "result_ok (dns_probeOne env cfg srv i q)"
    "IsError (pr_Status (dns_probeOne env cfg srv i q)) \<longleftrightarrow> \<not> is_ok srv"
    "pr_PortOpen (dns_probeOne env cfg srv i q) = None" by blast+
qed

interpretation dns: prober dns_Run dns_cfg_ok dns_env_ok ProbeTypeDNS
  using dns_probeOne_id
  by unfold_locales (fastforce simp: dns_Run_eq dns_probeOne_status result_id_def)+

subsection \<open>Properties of the prober\<close>

text \<open>
  C26. A query counts as answered exactly when the resolver replied and, without expected answers,
  the code is NOERROR or NXDOMAIN; with expected answers, the code is NOERROR and some record of
  the queried type has a text that equals an expected one up to letter case. The time reported is
  then the one of the exchange.
\<close>

theorem dnsAttempt_usable:
  "dnsAttempt exchange name qt timeout server expected = (rtt, True) \<longleftrightarrow>
     (\<exists>resp. exchange name qt timeout server = Inr (resp, rtt) \<and>
        (if expected = [] then dr_Rcode resp \<in> {RcodeSuccess, RcodeNameError}
         else dr_Rcode resp = RcodeSuccess \<and>
           (\<exists>rr \<in> set (dr_Answer resp). \<exists>got \<in> set (extract_rr qt rr). \<exists>want \<in> set expected.
              EqualFold got want)))"
  by (simp add: dnsAttempt_iff matchAnswer_iff)

lemma dns_Run_targets: "dns_cfg_ok cfg \<Longrightarrow> dns_env_ok env cfg \<Longrightarrow> map pr_Target (dns_Run env cfg) = pc_Targets cfg"
proof -
  assume e: "dns_env_ok env cfg"
  have "pr_Target (dns_probeOne env cfg srv i q) = q" for srv i q
    using dns_probeOne_id [of env cfg srv i q] by (simp add: result_id_def)
  then show ?thesis by (simp add: dns_Run_eq [OF e] comp_def map_nth)
qed


definition example_dns_env :: dns_env where
  "example_dns_env = \<lparr>de_resolv_conf = Inl ''no such file'', de_Fqdn = (\<lambda>q. q @ ''.''), de_now = (\<lambda>_. 0),
     de_ctx_done = (\<lambda>_ _. False), de_exchange = (\<lambda>_ _ _ _ _ _. Inl ''i/o timeout''), de_order = [1, 0]\<rparr>"


end
