(* ===== verification/Prober_HTTP.thy ===== *)
theory Prober_HTTP
  imports Prober
begin

text \<open>
  \<^verbatim>\<open>internal/probe/http\<close>: the map of clients that \<^verbatim>\<open>New\<close> builds, the request of a work item, the
  classification of its response, and the check of the certificate's expiry. The request and its
  response are arguments: the HTTP client itself belongs to the standard library and the network.
\<close>

subsection \<open>Clients\<close>

text \<open>
  A client: the timeout, the TLS server name (empty when not set), the local address of its
  dialer, and whether it stops at the first redirect.
\<close>

record http_client =
  hc_Timeout :: duration
  hc_ServerName :: string
  hc_LocalAddr :: "ip option option"
  hc_UseLastResponse :: bool

definition http_fqdn :: "string \<Rightarrow> string" where
  "http_fqdn target = (if ParseIP target = None then target else [])"

definition http_newClient :: "ProbeConfig \<Rightarrow> string \<Rightarrow> http_client" where
  "http_newClient cfg fqdn =
     \<lparr>hc_Timeout = pc_Timeout cfg,
      hc_ServerName = fqdn,
      hc_LocalAddr = (if pc_SourceIP cfg \<noteq> [] then Some (ParseIP (pc_SourceIP cfg)) else None),
      hc_UseLastResponse = (\<not> http_FollowRedirects (the (pc_HTTP cfg)))\<rparr>"

fun http_addClients :: "ProbeConfig \<Rightarrow> string list \<Rightarrow> (string \<rightharpoonup> http_client) \<Rightarrow> (string \<rightharpoonup> http_client)" where
  "http_addClients cfg [] clients = clients"
| "http_addClients cfg (target # targets) clients =
     (let fqdn = http_fqdn target
      in if clients fqdn \<noteq> None then http_addClients cfg targets clients
         else http_addClients cfg targets (clients(fqdn \<mapsto> http_newClient cfg fqdn)))"

definition http_New :: "ProbeConfig \<Rightarrow> (string \<rightharpoonup> http_client)" where
  "http_New cfg = http_addClients cfg (pc_Targets cfg) Map.empty"

lemma http_addClients_lookup:
  "http_addClients cfg ts m f =
     (case m f of Some c \<Rightarrow> Some c
      | None \<Rightarrow> if f \<in> http_fqdn ` set ts then Some (http_newClient cfg f) else None)"
  by (induction ts arbitrary: m) (auto simp: Let_def split: option.splits)

lemma http_New_lookup:
  "http_New cfg f = (if f \<in> http_fqdn ` set (pc_Targets cfg) then Some (http_newClient cfg f) else None)"
  by (simp add: http_New_def http_addClients_lookup)

text \<open>Every work item of a run finds its client, and the client asks TLS for the item's name.\<close>

lemma http_client_found:
  assumes "wi \<in> set (ExpandTargets resolver (pc_Targets cfg) m)"
  shows "http_New cfg (wi_FQDN wi) = Some (http_newClient cfg (wi_FQDN wi))"
proof -
  obtain t where t: "t \<in> set (pc_Targets cfg)" "wi \<in> set (expand_entry resolver m t)"
    using assms by (auto simp: set_ExpandTargets)
  then have "wi_FQDN wi = http_fqdn t"
    by (auto simp: expand_entry_def http_fqdn_def expand_addrs_eq split: sum.splits if_splits)
  with t(1) show ?thesis by (simp add: http_New_lookup)
qed

subsection \<open>The request and the response\<close>

definition http_host :: "HTTPConfig \<Rightarrow> string \<Rightarrow> string" where
  "http_host h ip =
     (if http_Port h \<noteq> 0 then JoinHostPort ip (Itoa (http_Port h))
      else TrimSuffix (JoinHostPort ip []) '':'')"

definition http_url :: "HTTPConfig \<Rightarrow> string \<Rightarrow> string" where
  "http_url h ip = http_Scheme h @ ''://'' @ http_host h ip @ http_Path h"

text \<open>Without a port the host is the bare address, in brackets when it is an IPv6 one.\<close>

lemma http_host_default:
  "http_Port h = 0 \<Longrightarrow> http_host h ip = (if CHR '':'' \<in> set ip then ''['' @ ip @ '']'' else ip)"
  using TrimSuffix_append [of "''['' @ ip @ '']''" "'':''"]
  by (simp add: http_host_def JoinHostPort_def)

definition statusMatch :: "go_int \<Rightarrow> go_int \<Rightarrow> bool" where
  "statusMatch expected actual \<longleftrightarrow>
     (if expected = 0 then 200 \<le> actual \<and> actual < 300 else actual = expected)"

text \<open>\<^verbatim>\<open>Duration.Hours\<close>.\<close>

definition Hours :: "duration \<Rightarrow> float64" where
  "Hours d = f_add (f_of_int (go_quo d Hour)) (f_div (f_of_int (go_rem d Hour)) (f_of_int Hour))"

definition http_daysLeft :: "duration \<Rightarrow> go_int" where
  "http_daysLeft until = f_trunc (f_div (Hours until) (Fin 24))"

text \<open>The response: its status code, and the expiry times of the peer certificates when TLS was used.\<close>

record http_resp =
  hr_StatusCode :: go_int
  hr_TLS :: "int list option"

text \<open>
  The environment: the clock at the start, the error of building a request, the outcome of
  \<^verbatim>\<open>client.Do\<close> for a client (nil when the map has none), method, URL and Host header, whether the
  context is done when it failed, the time until the body is drained, and the clock at the two
  readings of the expiry check.
\<close>

record http_env =
  he_now :: int
  he_NewRequest :: "string \<Rightarrow> string \<Rightarrow> string option"
  he_Do :: "http_client option \<Rightarrow> string \<Rightarrow> string \<Rightarrow> string option \<Rightarrow> string + http_resp"
  he_ctx_done :: bool
  he_elapsed :: duration
  he_clock1 :: int
  he_clock2 :: int

definition http_checkExpiry :: "http_env \<Rightarrow> HTTPConfig \<Rightarrow> http_resp \<Rightarrow> ProbeResult \<Rightarrow> ProbeResult" where
  "http_checkExpiry env h resp result =
     (case hr_TLS resp of
        Some (notAfter # _) \<Rightarrow>
          if http_Scheme h = ''https'' \<and> pr_PacketsReceived result = 1 then
            if time_sub notAfter (he_clock1 env) < 0 then result\<lparr>pr_Status := StatusFailure\<rparr>
            else if 0 < http_TLSExpiryWarningDays h then
              if http_daysLeft (time_sub notAfter (he_clock2 env)) \<le> http_TLSExpiryWarningDays h
              then result\<lparr>pr_Status := StatusPartial\<rparr> else result
            else result
          else result
      | _ \<Rightarrow> result)"

definition http_probeOne :: "http_env \<Rightarrow> ProbeConfig \<Rightarrow> WorkItem \<Rightarrow> ProbeResult" where
  "http_probeOne env cfg wi =
     (let (result, ok) = NewResult (he_now env) cfg wi ProbeTypeHTTP
      in if \<not> ok then result
         else
         let h = the (pc_HTTP cfg);
             targetURL = http_url h (wi_IP wi);
             client = http_New cfg (wi_FQDN wi)
         in case he_NewRequest env (http_Method h) targetURL of
              Some err \<Rightarrow>
                result\<lparr>pr_Status := StatusError, pr_ErrorType := ''init_error'',
                       pr_ErrorMsg := ''build request for '' @ Quote targetURL @ '': '' @ err\<rparr>
            | None \<Rightarrow>
                let reqHost = (if wi_FQDN wi \<noteq> [] then Some (wi_FQDN wi) else None);
                    result = result\<lparr>pr_PacketsSent := 1\<rparr>
                in case he_Do env client (http_Method h) targetURL reqHost of
                     Inl doErr \<Rightarrow>
                       let r = result\<lparr>pr_PacketsReceived := 0, pr_PacketLossRatio := Fin 1, pr_ErrorMsg := doErr\<rparr>
                       in if he_ctx_done env
                          then r\<lparr>pr_Status := StatusError, pr_ErrorType := ''cancelled''\<rparr>
                          else r\<lparr>pr_Status := StatusFailure, pr_ErrorType := ''network_error''\<rparr>
                   | Inr resp \<Rightarrow>
                       let r = result\<lparr>pr_DurationMS := f_div (f_of_int (he_elapsed env)) (Fin 1000000)\<rparr>;
                           r = (if statusMatch (http_ExpectedStatus h) (hr_StatusCode resp)
                                then r\<lparr>pr_PacketsReceived := 1, pr_PacketLossRatio := Fin 0,
                                       pr_Status := StatusSuccess\<rparr>
                                else r\<lparr>pr_PacketsReceived := 0, pr_PacketLossRatio := Fin 1,
                                       pr_Status := StatusFailure\<rparr>)
                       in http_checkExpiry env h resp r)"

definition http_Run :: "http_env host_env \<Rightarrow> ProbeConfig \<Rightarrow> ProbeResult list" where
  "http_Run = run_hosts http_probeOne"

subsection \<open>The expiry check\<close>

text \<open>
  The number of days is computed in floating point. It is the number of whole days left, or one
  more: rounding can only reach the next whole day.
\<close>

lemma Hours_bounds:
  assumes "0 \<le> d" and "d < 2 ^ 63"
  shows "\<exists>x. Hours d = Fin x \<and> of_int (d div Hour) \<le> x \<and> x \<le> of_int (d div Hour + 1)"
proof -
  let ?h = "d div Hour" and ?n = "d mod Hour"
  have H: "Hour = 3600000000000" by (simp add: duration_consts)
  have quo: "go_quo d Hour = ?h" "go_rem d Hour = ?n"
    using assms(1) by (simp_all add: go_quo_def go_rem_def minus_div_mult_eq_mod)
  have n: "0 \<le> ?n" "?n < Hour" by (simp_all add: H)
  have h: "0 \<le> ?h" "?h \<le> 2 ^ 22"
    using assms zdiv_mono1 [of d "2 ^ 63" Hour] by (simp_all add: H pos_imp_zdiv_nonneg_iff)
  have ex: "f_of_int ?h = Fin (of_int ?h)" "f_of_int ?n = Fin (of_int ?n)" "f_of_int Hour = Fin (of_int Hour)"
    using h n f_of_int_exact [of ?h] f_of_int_exact [of ?n] f_of_int_exact [of Hour] by (simp_all add: H)
  have nz: "(of_int Hour :: rat) \<noteq> 0" by (simp add: H)
  let ?q = "of_int ?n / of_int Hour :: rat"
  have q: "0 \<le> ?q" "?q \<le> 1"
    using n of_int_le_iff [of ?n Hour, where ?'a = rat] by (simp_all add: H)
  have rq: "0 \<le> rnd ?q" "rnd ?q \<le> 1" using r64.nonneg [OF q(1)] rnd_mono [OF q(2)] by simp_all
  let ?x = "of_int ?h + rnd ?q"
  have lo: "rnd (of_int ?h) \<le> rnd ?x" and hi: "rnd ?x \<le> rnd (of_int (?h + 1))"
    using rq by (auto intro!: rnd_mono)
  have "(of_int ?h :: rat) \<le> of_int (2 ^ 22)" using h(2) by (simp only: of_int_le_iff)
  then have "\<bar>?x\<bar> \<le> 2 ^ 63" using h(1) rq by (simp add: abs_le_iff)
  then have "Hours d = Fin (rnd ?x)"
    using f64_unit [OF q] nz by (simp only: Hours_def quo ex f_div.simps f_add.simps f64_small if_False)
  moreover have "rnd (of_int ?h) = of_int ?h" "rnd (of_int (?h + 1)) = of_int (?h + 1)"
    using h by (intro r64.exact_int; simp)+
  ultimately show ?thesis using lo hi by simp
qed

definition day :: duration where "day = 24 * Hour"

lemma day_of_hour:
  fixes h :: int
  assumes "0 \<le> h" and "h \<le> 4194304"
  shows "h div 24 * 24 \<le> h" "h + 1 \<le> (h div 24 + 1) * 24" "0 \<le> h div 24" "h div 24 \<le> 4194304"
  using assms by presburger+

lemma http_daysLeft_bounds:
  assumes "0 \<le> d" and "d < 2 ^ 63"
  shows "d div day \<le> http_daysLeft d" and "http_daysLeft d \<le> d div day + 1"
proof -
  let ?h = "d div Hour" and ?k = "d div day"
  have k: "?k = ?h div 24" by (simp add: day_def duration_consts zdiv_zmult2_eq [symmetric])
  obtain x where x: "Hours d = Fin x" "of_int ?h \<le> x" "x \<le> of_int (?h + 1)"
    using Hours_bounds [OF assms] by blast
  have h: "0 \<le> ?h" "?h \<le> 2 ^ 22"
    using assms zdiv_mono1 [of d "2 ^ 63" Hour] by (simp_all add: duration_consts pos_imp_zdiv_nonneg_iff)
  have hb: "?k * 24 \<le> ?h" "?h + 1 \<le> (?k + 1) * 24" "0 \<le> ?k" "?k \<le> 2 ^ 22"
    using day_of_hour [of ?h] h unfolding k by simp_all
  have "(of_int (?k * 24) :: rat) \<le> of_int ?h" "(of_int (?h + 1) :: rat) \<le> of_int ((?k + 1) * 24)"
    using hb by (simp_all only: of_int_le_iff)
  then have y: "of_int ?k \<le> x / 24" "x / 24 \<le> of_int (?k + 1)" using x(2,3) by simp_all
  have kb: "(0 :: rat) \<le> of_int ?k" "(of_int ?k :: rat) \<le> of_int (2 ^ 22)"
    using hb(3,4) by (simp_all only: of_int_le_iff of_int_0_le_iff)
  have "\<bar>x / 24\<bar> \<le> 2 ^ 63" using y kb by (simp add: abs_le_iff)
  then have d: "http_daysLeft d = f_trunc (Fin (rnd (x / 24)))"
    by (simp add: http_daysLeft_def x(1) f64_small)
  have "rnd (of_int ?k) \<le> rnd (x / 24)" "rnd (x / 24) \<le> rnd (of_int (?k + 1))"
    using y by (auto intro!: rnd_mono)
  moreover have "rnd (of_int ?k) = of_int ?k" "rnd (of_int (?k + 1)) = of_int (?k + 1)"
    using hb by (intro r64.exact_int; simp)+
  ultimately have r: "of_int ?k \<le> rnd (x / 24)" "rnd (x / 24) \<le> of_int (?k + 1)" by simp_all
  then show "?k \<le> http_daysLeft d" "http_daysLeft d \<le> ?k + 1"
    using kb(1) by (simp_all add: d le_floor_iff floor_le_iff)
qed

lemma http_checkExpiry_frame:
  "pr_PacketsReceived (http_checkExpiry env h resp r) = pr_PacketsReceived r"
  "pr_PacketsSent (http_checkExpiry env h resp r) = pr_PacketsSent r"
  "pr_PortOpen (http_checkExpiry env h resp r) = pr_PortOpen r"
  "pr_PacketLossRatio (http_checkExpiry env h resp r) = pr_PacketLossRatio r"
  "result_id (http_checkExpiry env h resp r) = result_id r"
  by (simp_all add: http_checkExpiry_def frame_simps split: option.split list.split)

lemma http_checkExpiry_status:
  "pr_PacketsReceived r \<noteq> 1 \<Longrightarrow> http_checkExpiry env h resp r = r"
  "pr_Status (http_checkExpiry env h resp r) \<in> {pr_Status r, StatusFailure, StatusPartial}"
  by (auto simp: http_checkExpiry_def split: option.split list.split)

text \<open>The three outcomes of the check on a matching HTTPS response.\<close>

lemma time_sub_nonneg: "0 \<le> time_sub t u \<longleftrightarrow> u \<le> t" "time_sub t u < 2 ^ 63"
  by (auto simp: time_sub_def)

lemma http_checkExpiry_cases:
  assumes "http_Scheme h = ''https''" and "hr_TLS resp = Some (notAfter # certs)"
    and "pr_PacketsReceived r = 1"
  shows "notAfter < he_clock1 env \<Longrightarrow> pr_Status (http_checkExpiry env h resp r) = StatusFailure"
    and "he_clock1 env \<le> notAfter \<Longrightarrow> he_clock2 env \<le> notAfter \<Longrightarrow> 0 < http_TLSExpiryWarningDays h \<Longrightarrow>
      time_sub notAfter (he_clock2 env) div day < http_TLSExpiryWarningDays h \<Longrightarrow>
      pr_Status (http_checkExpiry env h resp r) = StatusPartial"
    and "he_clock1 env \<le> notAfter \<Longrightarrow> he_clock2 env \<le> notAfter \<Longrightarrow>
      http_TLSExpiryWarningDays h < time_sub notAfter (he_clock2 env) div day \<Longrightarrow>
      http_checkExpiry env h resp r = r"
  using assms time_sub_nonneg [of notAfter "he_clock1 env"] time_sub_nonneg [of notAfter "he_clock2 env"]
    http_daysLeft_bounds [of "time_sub notAfter (he_clock2 env)"]
  by (simp_all add: http_checkExpiry_def not_less)

lemma http_probeOne_id:
  "result_id (http_probeOne env cfg wi) = (pc_Name cfg, wi_IP wi, wi_FQDN wi, ProbeTypeHTTP)"
proof -
  obtain r ok where n: "NewResult (he_now env) cfg wi ProbeTypeHTTP = (r, ok)" by fastforce
  show ?thesis
    using NewResult_id [OF n] n
    by (simp add: http_probeOne_def Let_def http_checkExpiry_frame frame_simps split: option.split sum.split)
qed

lemma http_probeOne_ok: "result_ok (http_probeOne env cfg wi)"
proof -
  obtain r ok where n: "NewResult (he_now env) cfg wi ProbeTypeHTTP = (r, ok)" by fastforce
  show ?thesis
  proof (cases ok)
    case False
    with n NewResult_error_ok show ?thesis by (fastforce simp: http_probeOne_def)
  next
    case True
    with n have f: "fresh r" by (auto dest: NewResult_fresh)
    have "result_ok (http_checkExpiry env h resp r1)"
      if "pr_PortOpen r1 = None" "pr_PacketsSent r1 = 1"
        "pr_PacketsReceived r1 = 1 \<and> pr_Status r1 = StatusSuccess \<or>
         pr_PacketsReceived r1 = 0 \<and> pr_Status r1 = StatusFailure" for h resp r1
      using that http_checkExpiry_status(1) [of r1 env h resp] http_checkExpiry_status(2) [of env h resp r1]
      by (auto simp: result_ok_def http_checkExpiry_frame status_preds)
    with True n f show ?thesis
      by (simp add: http_probeOne_def Let_def result_ok_def fresh_def status_preds
          split: option.split sum.split)
  qed
qed

interpretation http: host_prober http_probeOne "\<lambda>_. True" "\<lambda>cfg. pc_HTTP cfg \<noteq> None" ProbeTypeHTTP
  by unfold_locales (rule http_probeOne_ok http_probeOne_id)+

subsection \<open>Properties of the prober\<close>

text \<open>
  Every work item that the expansion of the configured targets gives finds its client in the
  map built by \<^verbatim>\<open>New\<close>: the client has the probe's timeout, binds the configured source address,
  follows redirects only if configured to, and asks TLS for the item's FQDN.
\<close>

theorem http_clients_complete:
  assumes "wi \<in> set (ExpandTargets resolver (pc_Targets cfg) maxIPs)"
  shows "http_New cfg (wi_FQDN wi) = Some
    \<lparr>hc_Timeout = pc_Timeout cfg, hc_ServerName = wi_FQDN wi,
     hc_LocalAddr = (if pc_SourceIP cfg \<noteq> [] then Some (ParseIP (pc_SourceIP cfg)) else None),
     hc_UseLastResponse = (\<not> http_FollowRedirects (the (pc_HTTP cfg)))\<rparr>"
  using http_client_found [OF assms] by (simp add: http_newClient_def)

theorem http_clients_complete_witness:
  "http_New example_cfg [] = Some \<lparr>hc_Timeout = 5000000000, hc_ServerName = [], hc_LocalAddr = None,
     hc_UseLastResponse = True\<rparr>"
proof -
  have "\<lparr>wi_IP = ''10.0.0.1'', wi_FQDN = []\<rparr> \<in> set (ExpandTargets (\<lambda>_. Inl []) (pc_Targets example_cfg) 0)"
    by (simp add: example_cfg_def two_literals del: ExpandTargets.simps)
  from http_clients_complete [OF this] show ?thesis by (simp add: example_cfg_def)
qed

text \<open>
  C29. The expiry check of an HTTPS response with a matching status: an expired certificate makes
  the result a failure; otherwise, with a warning threshold set, fewer whole days left than the
  threshold make it partial and more leave it as it was. The floating-point day count can be off
  by one, at most, and only at the threshold itself.
\<close>

theorem http_checkExpiry_spec:
  assumes "http_Scheme h = ''https''" and "hr_TLS resp = Some (notAfter # certs)"
    and "pr_PacketsReceived r = 1" and "he_clock1 env \<le> he_clock2 env"
  shows "(notAfter < he_clock1 env \<longrightarrow> pr_Status (http_checkExpiry env h resp r) = StatusFailure) \<and>
    (he_clock2 env \<le> notAfter \<and> 0 < http_TLSExpiryWarningDays h \<and>
      time_sub notAfter (he_clock2 env) div day < http_TLSExpiryWarningDays h \<longrightarrow>
      pr_Status (http_checkExpiry env h resp r) = StatusPartial) \<and>
    (he_clock2 env \<le> notAfter \<and>
      http_TLSExpiryWarningDays h < time_sub notAfter (he_clock2 env) div day \<longrightarrow>
      http_checkExpiry env h resp r = r)"
  using http_checkExpiry_cases [OF assms(1-3), of env] assms(4) by auto

definition example_http_env :: http_env where
  "example_http_env = \<lparr>he_now = 0, he_NewRequest = (\<lambda>_ _. None),
     he_Do = (\<lambda>_ _ _ _. Inr \<lparr>hr_StatusCode = 200, hr_TLS = Some [3 * day]\<rparr>), he_ctx_done = False,
     he_elapsed = 20000000, he_clock1 = 0, he_clock2 = 0\<rparr>"

theorem http_checkExpiry_spec_witness:
  "pr_Status (http_checkExpiry example_http_env (the (pc_HTTP example_cfg))
     \<lparr>hr_StatusCode = 200, hr_TLS = Some [3 * day]\<rparr> (zero_result\<lparr>pr_PacketsReceived := 1\<rparr>)) = StatusPartial"
  using http_checkExpiry_spec [of "the (pc_HTTP example_cfg)" "\<lparr>hr_StatusCode = 200, hr_TLS = Some [3 * day]\<rparr>"
      "3 * day" "[]" "zero_result\<lparr>pr_PacketsReceived := 1\<rparr>" example_http_env]
  by (simp add: example_http_env_def example_cfg_def time_sub_def day_def duration_consts)

end
