(* ===== verification/Startup.thy ===== *)
theory Startup
  imports Server Shutdown Exporter_OTLP Exporter_Stdout Prober_ICMP Prober_TCP Prober_UDP Prober_DNS Prober_HTTP
begin

text \<open>
  \<^verbatim>\<open>cmd/trimon/main.go\<close> up to the point where the daemon runs: the flags, the configuration, the
  exporters and the pipeline built from it, and the server with its callbacks. From there on the
  step relation of theory \<open>Daemon\<close> takes over. The theory also puts the parts together: the run
  of whichever prober the factory made, and the pipeline with the exporters of the program.
\<close>

subsection \<open>The exporters behind the pipeline\<close>

text \<open>What the exporters have done: the measurements, the records written, the errors logged.\<close>

record world =
  w_metrics :: "measurement list"
  w_stdout :: "emitted list"
  w_log :: "(string \<times> string) list"

definition otlp_exporter :: "Exporter \<Rightarrow> world exporter" where
  "otlp_exporter e = \<lparr>ex_Name = otlp_Name,
     ex_Export = (\<lambda>r w. (w\<lparr>w_metrics := w_metrics w @ otlp_Export e r\<rparr>, None))\<rparr>"

definition stdout_exporter :: "string \<Rightarrow> world exporter" where
  "stdout_exporter fmt = \<lparr>ex_Name = stdout_Name,
     ex_Export = (\<lambda>r w. case stdout_Export fmt r of
        Inl err \<Rightarrow> (w, Some err)
      | Inr out \<Rightarrow> (w\<lparr>w_stdout := w_stdout w @ [out]\<rparr>, None))\<rparr>"

definition main_pipeline :: "Exporter \<Rightarrow> StdoutExporterConfig \<Rightarrow> world pipeline" where
  "main_pipeline e so =
     \<lparr>pl_exporters = otlp_exporter e # (if so_Enabled so then [stdout_exporter (so_Format so)] else []),
      pl_logError = (\<lambda>name err w. w\<lparr>w_log := w_log w @ [(name, err)]\<rparr>),
      pl_onExportError = Some (\<lambda>name w. w\<lparr>w_metrics := w_metrics w @ RecordExporterError e name\<rparr>)\<rparr>"

subsection \<open>The start\<close>

datatype exit = Exit_1 string | Panicked

record 'b running =
  rn_logger :: log_handler
  rn_exporter :: Exporter
  rn_pipeline :: "world pipeline"
  rn_server :: "'b server"
  rn_app :: app

text \<open>
  \<open>listen\<close> is the error of binding the address of the server, if any; \<open>prom\<close> is what the Prometheus
  handler of the exporter answers, and \<open>later\<close> what the goroutines have done when a reload has waited.
\<close>

definition startup :: "'a load_env_scheme \<Rightarrow> otlp_env \<Rightarrow> (string \<Rightarrow> string option) \<Rightarrow> 'b response
    \<Rightarrow> (prober_kind proc list \<Rightarrow> prober_kind proc list)
    \<Rightarrow> string \<Rightarrow> string \<Rightarrow> string \<Rightarrow> string \<Rightarrow> exit + 'b running" where
  "startup env oenv listen prom later configPath probesPath logLevel logFormat =
     (if configPath = [] then Inl (Exit_1 ''flag --config is required'')
      else if probesPath = [] then Inl (Exit_1 ''flag --probes is required'')
      else case Load env configPath probesPath of
        Inl Nil_deref \<Rightarrow> Inl Panicked
      | Inl (Load_err err) \<Rightarrow> Inl (Exit_1 ''failed to load config'')
      | Inr cfg \<Rightarrow>
          (case otlp_New oenv (e_OTLP (c_Exporters cfg)) of
             Inl err \<Rightarrow> Inl (Exit_1 ''failed to create telemetry exporter'')
           | Inr ex \<Rightarrow>
               (case listen (sv_Listen (c_Server cfg)) of
                  Some err \<Rightarrow> Inl (Exit_1 ''failed to start HTTP server'')
                | None \<Rightarrow> Inr
                    \<lparr>rn_logger = buildLogger logLevel logFormat, rn_exporter = ex,
                     rn_pipeline = main_pipeline ex (e_Stdout (c_Exporters cfg)),
                     rn_server = \<lparr>srv_metricsHandler = Some prom,
                       srv_reloadFunc = Some (reloadFunc env configPath probesPath later),
                       srv_healthChecker = Some BufferUsage\<rparr>,
                     rn_app = \<lparr>ap_sched = sched_New, ap_chan = make_chan (nat (p_BufferSize (c_Pipeline cfg))),
                       ap_currentCfg = Some cfg, ap_reloads = 0\<rparr>\<rparr>)))"

text \<open>A daemon that has started serves the configuration it loaded, which is valid, and runs no worker yet.\<close>

lemma startup_config:
  assumes "startup env oenv listen prom later configPath probesPath logLevel logFormat = Inr r"
  shows "\<exists>cfg. Load env configPath probesPath = Inr cfg \<and> config_valid cfg \<and> ap_currentCfg (rn_app r) = Some cfg \<and>
    WorkerCount (ap_sched (rn_app r)) = 0"
  using assms Load_valid [of env configPath probesPath]
  by (auto simp: startup_def WorkerCount_def sched_New_def split: if_splits sum.splits load_error.splits option.splits)

subsection \<open>Running a prober\<close>

record run_env =
  re_icmp :: "icmp_env host_env"
  re_tcp :: "tcp_env host_env"
  re_udp :: "udp_env host_env"
  re_dns :: dns_env
  re_http :: "http_env host_env"

text \<open>The method \<^verbatim>\<open>Run\<close> of the interface \<^verbatim>\<open>Prober\<close>, on the prober that the factory made.\<close>

fun run_prober :: "prober_kind \<Rightarrow> run_env \<Rightarrow> ProbeConfig \<Rightarrow> ProbeResult list" where
  "run_prober K_ICMP env cfg = icmp_Run (re_icmp env) cfg"
| "run_prober K_TCP env cfg = tcp_Run (re_tcp env) cfg"
| "run_prober K_UDP env cfg = udp_Run (re_udp env) cfg"
| "run_prober K_DNS env cfg = dns_Run (re_dns env) cfg"
| "run_prober K_HTTP env cfg = http_Run (re_http env) cfg"

primrec prober_Type :: "prober_kind \<Rightarrow> string" where
  "prober_Type K_ICMP = ''icmp''"
| "prober_Type K_TCP = ''tcp''"
| "prober_Type K_UDP = ''udp''"
| "prober_Type K_DNS = ''dns''"
| "prober_Type K_HTTP = ''http''"

text \<open>Every goroutine of the run finishes once, and the pinger keeps to its documentation.\<close>

definition run_env_ok :: "run_env \<Rightarrow> ProbeConfig \<Rightarrow> bool" where
  "run_env_ok env cfg \<longleftrightarrow>
     host_env_ok icmp_env_documented (re_icmp env) cfg \<and> host_env_ok (\<lambda>_. True) (re_tcp env) cfg \<and>
     host_env_ok (\<lambda>_. True) (re_udp env) cfg \<and> dns_env_ok (re_dns env) cfg \<and>
     host_env_ok (\<lambda>_. True) (re_http env) cfg"

text \<open>The product of packet interval and count, and the timeout, are within 64 bits.\<close>

definition timings_in_range :: "ProbeConfig \<Rightarrow> bool" where
  "timings_in_range p \<longleftrightarrow> int64_range (pc_PacketInterval p * pc_Count p) \<and> int64_range (pc_Timeout p)"

lemma valid_counts:
  assumes "probe_valid p" and "timings_in_range p" and "pc_Type p \<noteq> ProbeTypeHTTP"
  shows "0 < pc_Count p" and "pc_Count p \<le> 2 ^ 53"
proof -
  have t: "timings_ok (pc_Interval p) (pc_PacketInterval p) (pc_Timeout p) (pc_Count p)"
    using assms(1,3) unfolding probe_valid_def by blast
  then show "0 < pc_Count p" by (simp add: timings_ok_def)
  show "pc_Count p \<le> 2 ^ 53" using timings_no_overflow(3) [OF t] assms(2) by (simp add: timings_in_range_def)
qed

definition reports_for :: "ProbeConfig \<Rightarrow> ProbeResult list \<Rightarrow> bool" where
  "reports_for p rs \<longleftrightarrow>
     list_all (\<lambda>r. result_ok r \<and> pr_ProbeName r = pc_Name p \<and> pr_ProbeType r = pc_Type p) rs \<and>
     list_all (\<lambda>t. list_ex (\<lambda>r. pr_Target r = t \<or> pr_FQDN r = t) rs) (pc_Targets p)"

text \<open>A valid probe runs on the prober of its type and reports on every target.\<close>

lemma valid_probe_reports:
  assumes v: "probe_valid p" and range: "timings_in_range p" and env: "run_env_ok env p"
  shows "\<exists>k. probeFactory p = Inr k \<and> prober_Type k = pc_Type p \<and> reports_for p (run_prober k env p)"
proof -
  have blocks: "pc_Type p = ProbeTypeTCP \<Longrightarrow> pc_TCP p \<noteq> None" "pc_Type p = ProbeTypeUDP \<Longrightarrow> pc_UDP p \<noteq> None"
    "pc_Type p = ProbeTypeDNS \<Longrightarrow> pc_DNS p \<noteq> None" "pc_Type p = ProbeTypeHTTP \<Longrightarrow> pc_HTTP p \<noteq> None"
  proof -
    have "blocks_valid p" using v by (simp add: probe_valid_def)
    then show "pc_Type p = ProbeTypeTCP \<Longrightarrow> pc_TCP p \<noteq> None" "pc_Type p = ProbeTypeUDP \<Longrightarrow> pc_UDP p \<noteq> None"
      "pc_Type p = ProbeTypeDNS \<Longrightarrow> pc_DNS p \<noteq> None" "pc_Type p = ProbeTypeHTTP \<Longrightarrow> pc_HTTP p \<noteq> None"
      unfolding blocks_valid_def by (simp_all only: split: option.splits) simp_all
  qed
  consider "pc_Type p = ProbeTypeICMP" | "pc_Type p = ProbeTypeTCP" | "pc_Type p = ProbeTypeUDP"
    | "pc_Type p = ProbeTypeDNS" | "pc_Type p = ProbeTypeHTTP"
    using v by (auto simp: probe_valid_def knownProbeTypes_def)
  then show ?thesis
  proof cases
    case 1
    have e: "host_env_ok icmp_env_documented (re_icmp env) p" using env by (simp add: run_env_ok_def)
    have "reports_for p (icmp_Run (re_icmp env) p)"
      using icmp.results_ok [OF TrueI e] icmp.results_type [OF TrueI e] icmp.results_name [OF TrueI e]
        icmp.target_covered [OF e] 1
      by (fastforce simp: reports_for_def icmp_Run_def list_all_iff list_ex_iff)
    with 1 show ?thesis by (simp add: probeFactory_def)
  next
    case 2
    have e: "host_env_ok (\<lambda>_. True) (re_tcp env) p" using env by (simp add: run_env_ok_def)
    have c: "tcp_cfg_ok p" using valid_counts [OF v range] blocks(1) 2 by (simp add: tcp_cfg_ok_def)
    have "reports_for p (tcp_Run (re_tcp env) p)"
      using tcp.results_ok [OF c e] tcp.results_type [OF c e] tcp.results_name [OF c e] tcp.target_covered [OF e] 2
      by (fastforce simp: reports_for_def tcp_Run_def list_all_iff list_ex_iff)
    with 2 show ?thesis by (simp add: probeFactory_def)
  next
    case 3
    have e: "host_env_ok (\<lambda>_. True) (re_udp env) p" using env by (simp add: run_env_ok_def)
    have c: "udp_cfg_ok p" using valid_counts [OF v range] blocks(2) 3 by (simp add: udp_cfg_ok_def)
    have "reports_for p (udp_Run (re_udp env) p)"
      using udp.results_ok [OF c e] udp.results_type [OF c e] udp.results_name [OF c e] udp.target_covered [OF e] 3
      by (fastforce simp: reports_for_def udp_Run_def list_all_iff list_ex_iff)
    with 3 show ?thesis by (simp add: probeFactory_def)
  next
    case 4
    have e: "dns_env_ok (re_dns env) p" using env by (simp add: run_env_ok_def)
    have c: "dns_cfg_ok p" using valid_counts [OF v range] blocks(3) 4 by (simp add: dns_cfg_ok_def)
    have t: "\<exists>r \<in> set (dns_Run (re_dns env) p). pr_Target r = t" if "t \<in> set (pc_Targets p)" for t
      using dns_Run_targets [OF c e] that by (metis imageE list.set_map)
    have "reports_for p (dns_Run (re_dns env) p)"
      using dns.results_ok [OF c e] dns.results_type [OF c e] dns.results_name [OF c e] t 4
      by (fastforce simp: reports_for_def list_all_iff list_ex_iff)
    with 4 show ?thesis by (simp add: probeFactory_def)
  next
    case 5
    have e: "host_env_ok (\<lambda>_. True) (re_http env) p" using env by (simp add: run_env_ok_def)
    note c = blocks(4) [OF 5]
    have "reports_for p (http_Run (re_http env) p)"
      using http.results_ok [OF c e] http.results_type [OF c e] http.results_name [OF c e] http.target_covered [OF e] 5
      by (fastforce simp: reports_for_def http_Run_def list_all_iff list_ex_iff)
    with 5 show ?thesis by (simp add: probeFactory_def)
  qed
qed

subsection \<open>Targets with a zone\<close>

text \<open>
  An IPv6 literal with a zone passes validation, since looking it up returns it unchanged; the
  expansion then yields an item whose address equals its name, which stands for a name that does
  not resolve, so that the target is reported as an error and never probed.
\<close>

lemma zone_target_never_probed:
  assumes "ParseAddr t = Some (b, z)" and "z \<noteq> []"
  shows "validateOneTarget env t = Inr () \<and>
    (\<forall>wi \<in> set (ExpandTargets resolver [t] m).
       pr_Status (fst (NewResult now cfg wi ty)) = StatusError \<and> \<not> snd (NewResult now cfg wi ty))"
proof -
  have "t \<noteq> []" using assms(1) by (auto simp: ParseAddr_def)
  moreover from this have "LookupHost f t = Inr [t]" for f using assms(1) by (simp add: LookupHost_def)
  moreover have "ParseIP t = None" using assms by (simp add: ParseIP_def)
  ultimately show ?thesis by (simp add: expand_entry_def validateOneTarget_def NewResult_def Let_def)
qed

subsection \<open>The probe sets of the daemon\<close>

text \<open>
  What validation gives the scheduler, with the one thing it leaves out: the interval of an HTTP
  probe is not checked, so that it is positive is a condition on the files.
\<close>

definition loadable_probes :: "ProbeConfig list \<Rightarrow> bool" where
  "loadable_probes cfgs \<longleftrightarrow> list_all probe_valid cfgs \<and> distinct (map pc_Name cfgs) \<and>
     list_all (\<lambda>p. pc_Type p = ProbeTypeHTTP \<longrightarrow> 0 < pc_Interval p) cfgs"

lemma valid_interval: "probe_valid p \<Longrightarrow> pc_Type p \<noteq> ProbeTypeHTTP \<Longrightarrow> 0 < pc_Interval p"
  by (auto simp: probe_valid_def timings_ok_def)

lemma loadable_intervals:
  assumes "loadable_probes cfgs" and "p \<in> set cfgs"
  shows "0 < pc_Interval p"
  using assms valid_interval [of p] unfolding loadable_probes_def list_all_iff by blast

interpretation validated: probe_sets loadable_probes
  by unfold_locales (simp add: loadable_probes_def, rule loadable_intervals)

lemma config_valid_loadable:
  "config_valid c \<Longrightarrow> \<forall>p \<in> set (c_Probes c). pc_Type p = ProbeTypeHTTP \<longrightarrow> 0 < pc_Interval p \<Longrightarrow>
   loadable_probes (c_Probes c)"
  by (auto simp: loadable_probes_def config_valid_def list_all_iff)

lemma loadable_examples: "loadable_probes []" "loadable_probes [example_probe]"
proof -
  have "config_valid example_config" using Load_valid [OF example_load] .
  moreover have "pc_Type example_probe \<noteq> ProbeTypeHTTP" by code_simp
  ultimately show "loadable_probes [example_probe]" by (simp add: loadable_probes_def config_valid_def example_config_def)
qed (simp add: loadable_probes_def)

subsection \<open>Accounting of the exporters\<close>

definition empty_world :: world where
  "empty_world = \<lparr>w_metrics = [], w_stdout = [], w_log = []\<rparr>"

text \<open>
  What the pipeline of the program keeps between two results: runs are counted, and when the stdout
  exporter is on, every result is a record written or an error counted and logged.
\<close>

definition balanced :: "Exporter \<Rightarrow> bool \<Rightarrow> nat \<Rightarrow> world \<Rightarrow> bool" where
  "balanced e stdout n w \<longleftrightarrow>
     counter_total (ox_probeRuns e) (w_metrics w) = int n \<and>
     counter_total (ox_exporterErrors e) (w_metrics w) = int (length (w_log w)) \<and>
     length (w_stdout w) + length (w_log w) = (if stdout then n else 0)"

lemma exporterErrors_apart:
  assumes "distinct (handles e)"
  shows "ox_exporterErrors e \<noteq> ox_probeRuns e" and "ox_probeRuns e \<noteq> ox_exporterErrors e"
    and "counter_total (ox_exporterErrors e) (otlp_Export e r) = 0"
proof -
  have d: "distinct [ox_pktSent e, ox_pktReceived e, ox_probeRuns e, ox_probeErrors e, ox_exporterErrors e]"
    using assms by (simp add: handles_def)
  then show "ox_exporterErrors e \<noteq> ox_probeRuns e" "ox_probeRuns e \<noteq> ox_exporterErrors e" by auto
  show "counter_total (ox_exporterErrors e) (otlp_Export e r) = 0"
    using d by (simp add: otlp_Export_def Let_def split: prod.split)
qed

lemma dispatch_balanced:
  assumes "distinct (handles e)" and "balanced e (so_Enabled so) n w"
  shows "balanced e (so_Enabled so) (Suc n) (dispatch (main_pipeline e so) r w)"
  using assms Export_counters(1) [OF assms(1), of r] exporterErrors_apart [OF assms(1)]
  by (simp add: dispatch_def main_pipeline_def export_one_def otlp_exporter_def stdout_exporter_def balanced_def
      RecordExporterError_def counter_total_append split: sum.split)

lemma dispatches_balanced:
  assumes "distinct (handles e)" and "balanced e (so_Enabled so) n w"
  shows "balanced e (so_Enabled so) (n + length rs) (fold (dispatch (main_pipeline e so)) rs w)"
  using assms(2)
proof (induction rs arbitrary: n w)
  case (Cons r rs)
  from Cons.IH [OF dispatch_balanced [OF assms(1) Cons.prems]] show ?case by simp
qed simp

subsection \<open>Properties\<close>

text \<open>
  C20. No result is lost between the channel and the exporters. Draining a channel into the pipeline
  of the program counts one run per buffered result; with the stdout exporter enabled, every result
  is either a record on stdout or an error that is logged and counted, and the error counter is the
  number of errors logged.
\<close>

theorem drain_accounts_for_all:
  assumes "otlp_New oenv cfg = Inr e"
  shows "let w = snd (drain (main_pipeline e so) c empty_world) in
    counter_total (ox_probeRuns e) (w_metrics w) = int (length (ch_buf c)) \<and>
    counter_total (ox_exporterErrors e) (w_metrics w) = int (length (w_log w)) \<and>
    length (w_stdout w) + length (w_log w) = (if so_Enabled so then length (ch_buf c) else 0)"
proof -
  have "balanced e (so_Enabled so) 0 empty_world" by (simp add: balanced_def empty_world_def)
  from dispatches_balanced [OF handles_differ [OF assms] this, of "ch_buf c"] show ?thesis
    by (simp add: drain_spec balanced_def Let_def)
qed

theorem drain_accounts_for_all_witness:
  "\<exists>e. otlp_New example_otlp_env example_otlp_cfg = Inr e \<and>
     counter_total (ox_probeRuns e) (w_metrics (snd (drain (main_pipeline e \<lparr>so_Enabled = True, so_Format = ''json''\<rparr>)
       \<lparr>ch_buf = [zero_result, zero_result], ch_cap = 5, ch_closed = False\<rparr> empty_world))) = 2"
proof -
  obtain e where e: "otlp_New example_otlp_env example_otlp_cfg = Inr e" using example_exporter by blast
  from drain_accounts_for_all [OF e, of "\<lparr>so_Enabled = True, so_Format = ''json''\<rparr>"
      "\<lparr>ch_buf = [zero_result, zero_result], ch_cap = 5, ch_closed = False\<rparr>"] e
  show ?thesis by (auto simp: Let_def)
qed

text \<open>
  C4. Every probe of a loaded configuration does its work: the factory has a prober for it, and
  a run of that prober, whatever the network answers and in whatever order its goroutines end,
  returns only well-formed results under the probe's name and type and at least one for every
  configured target. The conditions: the product of packet interval and count and the timeout fit into
  64 bits (\<open>timings_in_range\<close>), the goroutines of the run all finish, and the statistics of the
  ICMP pinger are as its library documents them (\<open>run_env_ok\<close>).
\<close>

theorem loaded_probes_report:
  assumes "Load lenv opsPath probesDir = Inr c" and "p \<in> set (c_Probes c)" and "timings_in_range p"
    and "run_env_ok env p"
  shows "\<exists>k. probeFactory p = Inr k \<and> prober_Type k = pc_Type p \<and> reports_for p (run_prober k env p)"
proof -
  have "probe_valid p" using Load_valid [OF assms(1)] assms(2) by (simp add: config_valid_def list_all_iff)
  then show ?thesis using assms(3,4) by (rule valid_probe_reports)
qed

definition example_icmp_env :: icmp_env where
  "example_icmp_env = \<lparr>ie_now = 0, ie_NewPinger = (\<lambda>_. None), ie_Run = (\<lambda>_. None),
     ie_Statistics = (\<lambda>_. example_stats 3 2), ie_ctx_after_run = Ctx_live, ie_ctx_at_stats = Ctx_live\<rparr>"

definition example_run_env :: run_env where
  "example_run_env = \<lparr>re_icmp = (\<lambda>_. Inl [], \<lambda>_. example_icmp_env, [0]),
     re_tcp = (\<lambda>_. Inl [], \<lambda>_. example_tcp_env, [0]), re_udp = (\<lambda>_. Inl [], \<lambda>_. example_udp_env, [0]),
     re_dns = example_dns_env\<lparr>de_order := [0]\<rparr>, re_http = (\<lambda>_. Inl [], \<lambda>_. example_http_env, [0])\<rparr>"

lemma example_run_env_ok: "run_env_ok example_run_env example_probe"
proof -
  have t: "pc_Targets example_probe = [''10.0.0.1'']"
    by (simp add: example_probe_def merged_probe_def example_raw_def)
  have "ParseIP ''10.0.0.1'' \<noteq> None" by code_simp
  then have "length (ExpandTargets resolver [''10.0.0.1''] m) = 1" for resolver m by (simp add: expand_entry_def)
  moreover have "complete_order [0] 1" by (auto simp: complete_order_def)
  moreover have "icmp_env_documented example_icmp_env"
    by (simp add: icmp_env_documented_def example_icmp_env_def example_stats_def stats_documented_def)
  ultimately show ?thesis
    by (simp add: run_env_ok_def host_env_ok_def dns_env_ok_def example_run_env_def t del: ExpandTargets.simps)
qed

theorem loaded_probes_report_witness:
  "reports_for example_probe (tcp_Run (re_tcp example_run_env) example_probe)"
proof -
  have p: "example_probe \<in> set (c_Probes example_config)" by (simp add: example_config_def)
  have r: "timings_in_range example_probe"
    by (simp add: timings_in_range_def int64_range_def example_probe_def merged_probe_def)
  have "probeFactory example_probe = Inr K_TCP" by code_simp
  with loaded_probes_report [OF example_load p r example_run_env_ok] show ?thesis by simp
qed

end
