(* ===== verification/Metricsdoc.thy ===== *)
theory Metricsdoc
  imports Exporter_OTLP Go_Strings "HOL-Library.Multiset"
begin

text \<open>
  \<^verbatim>\<open>internal/metricsdoc/metricsdoc.go\<close> and \<^verbatim>\<open>cmd/gen-metrics-docs/main.go\<close>: the table of instruments
  and its place in \<^verbatim>\<open>docs/metrics.md\<close>. The translation of names to Prometheus is a library (\<open>namer\<close>);
  the file system is a map from paths to contents.
\<close>

subsection \<open>The table\<close>

datatype MetricType = MetricTypeMonotonicCounter | MetricTypeGauge

type_synonym namer = "string \<Rightarrow> string \<Rightarrow> MetricType \<Rightarrow> string + string"

definition metricType :: "string \<Rightarrow> string + MetricType" where
  "metricType kind =
     (if kind = ''Int64Counter'' then Inr MetricTypeMonotonicCounter
      else if kind = ''Float64Gauge'' \<or> kind = ''Int64Gauge'' \<or> kind = ''Int64ObservableGauge''
      then Inr MetricTypeGauge
      else Inl (''unknown instrument kind '' @ Quote kind))"

definition PrometheusName :: "namer \<Rightarrow> InstrumentInfo \<Rightarrow> string + string" where
  "PrometheusName build info =
     res_bind (metricType (ii_Kind info)) (\<lambda>mt.
     prefix_err (''derive prometheus name for '' @ Quote (ii_Name info) @ '': '')
       (build (ii_Name info) (ii_Unit info) mt))"

definition newline :: char where "newline = CHR 0x0A"
definition backquote :: char where "backquote = CHR 0x60"

text \<open>The dash that stands for no unit is a three-byte character.\<close>

definition unit_cell :: "string \<Rightarrow> string" where
  "unit_cell u = (if u \<noteq> [] then [backquote] @ u @ [backquote] else [CHR 0xE2, CHR 0x80, CHR 0x94])"

definition table_row :: "InstrumentInfo \<Rightarrow> string \<Rightarrow> string" where
  "table_row info promName =
     ''| '' @ [backquote] @ ii_Name info @ [backquote] @ '' | '' @ ii_Kind info @ '' | '' @
     unit_cell (ii_Unit info) @ '' | '' @ [backquote] @ promName @ [backquote] @ '' | '' @
     ii_Description info @ '' |'' @ [newline]"

definition table_head :: string where
  "table_head = ''| OTel name | Kind | Unit | Prometheus name | Description |'' @ [newline] @
     ''|-----------|------|------|-----------------|-------------|'' @ [newline]"

fun render_rows :: "namer \<Rightarrow> InstrumentInfo list \<Rightarrow> string + string" where
  "render_rows build [] = Inr []"
| "render_rows build (info # rows) =
     res_bind (PrometheusName build info) (\<lambda>promName.
     res_bind (render_rows build rows) (\<lambda>rest. Inr (table_row info promName @ rest)))"

definition RenderTable :: "namer \<Rightarrow> InstrumentInfo list \<Rightarrow> string + string" where
  "RenderTable build known =
     res_bind (render_rows build (sort_key ii_Name known)) (\<lambda>rows. Inr (table_head @ rows))"

subsection \<open>Splicing\<close>

definition beginMarker :: string where
  "beginMarker = ''<!-- BEGIN GENERATED: instruments -->''"

definition endMarker :: string where
  "endMarker = ''<!-- END GENERATED: instruments -->''"

definition Splice :: "string \<Rightarrow> string \<Rightarrow> string + string" where
  "Splice doc table =
     (case Index doc beginMarker of
        None \<Rightarrow> Inl (''begin marker '' @ Quote beginMarker @ '' not found'')
      | Some bi \<Rightarrow>
          (case Index doc endMarker of
             None \<Rightarrow> Inl (''end marker '' @ Quote endMarker @ '' not found'')
           | Some ei \<Rightarrow>
               if ei < bi then Inl ''end marker precedes begin marker''
               else Inr (take (bi + length beginMarker) doc @ [newline] @ table @ drop ei doc)))"

subsection \<open>The generator\<close>

text \<open>
  \<^verbatim>\<open>filepath.Dir\<close> of a clean path: the part up to the last separator, without trailing separators.
\<close>

definition filepath_Dir :: "string \<Rightarrow> string" where
  "filepath_Dir p =
     (let d = rev (dropWhile (\<lambda>c. c \<noteq> CHR ''/'') (rev p));
          e = rev (dropWhile (\<lambda>c. c = CHR ''/'') (rev d))
      in if d = [] then ''.'' else if e = [] then ''/'' else e)"

lemma Dir_shrinks:
  assumes "filepath_Dir p \<noteq> p"
  shows "filepath_Dir p = ''.'' \<or> length (filepath_Dir p) < length p"
proof -
  define d where "d = dropWhile (\<lambda>c. c \<noteq> CHR ''/'') (rev p)"
  define e where "e = dropWhile (\<lambda>c. c = CHR ''/'') d"
  have dir: "filepath_Dir p = (if d = [] then ''.'' else if e = [] then ''/'' else rev e)"
    by (simp only: filepath_Dir_def Let_def d_def e_def rev_rev_ident rev_is_Nil_conv)
  have l: "length d \<le> length p" unfolding d_def using length_dropWhile_le [of _ "rev p"] by simp
  have h: "hd d = CHR ''/''" if "d \<noteq> []" using that hd_dropWhile unfolding d_def by blast
  show ?thesis
  proof (cases "d = [] \<or> e = []")
    case False
    then obtain t where d: "d = CHR ''/'' # t" using h by (cases d) simp_all
    have "length e \<le> length t" unfolding e_def d using length_dropWhile_le [of _ t] by simp
    with d l False show ?thesis by (simp add: dir)
  next
    case True
    have "length p \<noteq> 1" if "d \<noteq> []" "e = []"
    proof
      assume one: "length p = 1"
      have "takeWhile (\<lambda>c. c \<noteq> CHR ''/'') (rev p) @ d = rev p" unfolding d_def by (rule takeWhile_dropWhile_id)
      moreover have "0 < length d" using that(1) by simp
      ultimately have "d = rev p" using one by (metis append_eq_append_conv append_Nil length_greater_0_conv
          length_rev le_antisym l Suc_leI One_nat_def)
      moreover obtain x where "p = [x]" using one by (auto simp: length_Suc_conv)
      ultimately have "p = ''/''" using h [OF that(1)] by simp
      moreover have "filepath_Dir p = ''/''" using that by (simp add: dir)
      ultimately show False using assms by simp
    qed
    moreover have "d \<noteq> [] \<Longrightarrow> p \<noteq> []" unfolding d_def by auto
    ultimately have "1 < length p" if "d \<noteq> []" "e = []" using that by (cases p) auto
    with True show ?thesis unfolding dir by auto
  qed
qed

function moduleRoot_from :: "(string \<Rightarrow> bool) \<Rightarrow> string \<Rightarrow> string + string" where
  "moduleRoot_from has_mod dir =
     (if has_mod dir then Inr dir
      else let parent = filepath_Dir dir
           in if parent = dir then Inl ''go.mod not found from working directory upward''
              else moduleRoot_from has_mod parent)"
  by pat_completeness auto
termination
proof (relation "measure (\<lambda>(h, d). if d = ''.'' then 0 else Suc (length d))", simp)
  fix h d p
  assume "\<not> h d" and p: "p = filepath_Dir d" and ne: "p \<noteq> d"
  have "filepath_Dir ''.'' = ''.''" by code_simp
  with ne p have "d \<noteq> ''.''" by auto
  with Dir_shrinks [of d] ne p show "((h, p), h, d) \<in> measure (\<lambda>(h, d). if d = ''.'' then 0 else Suc (length d))"
    by auto
qed

declare moduleRoot_from.simps [simp del]

record gen_env =
  ge_Getwd :: "string + string"
  ge_Join :: "string list \<Rightarrow> string"
  ge_otlp :: otlp_env
  ge_namer :: namer

type_synonym fs = "string \<rightharpoonup> string"

definition moduleRoot :: "gen_env \<Rightarrow> fs \<Rightarrow> string + string" where
  "moduleRoot env fs =
     (case ge_Getwd env of
        Inl err \<Rightarrow> Inl (''getwd: '' @ err)
      | Inr dir \<Rightarrow> moduleRoot_from (\<lambda>d. fs (ge_Join env [d, ''go.mod'']) \<noteq> None) dir)"

text \<open>The configuration of the exporter that the generator builds: everything zero, not enabled.\<close>

definition disabled_otlp :: OTLPExporterConfig where
  "disabled_otlp = \<lparr>o_Enabled = False, o_Endpoint = [], o_Protocol = [], o_Insecure = False,
     o_TLS = \<lparr>tls_CertFile = [], tls_KeyFile = [], tls_CAFile = []\<rparr>,
     o_Batch = \<lparr>b_ExportInterval = 0, b_ExportTimeout = 0\<rparr>,
     o_Retry = \<lparr>rt_Enabled = False, rt_MaxElapsedTime = 0\<rparr>, o_ShutdownTimeout = 0\<rparr>"

text \<open>
  \<open>write\<close> is the failure of \<^verbatim>\<open>os.WriteFile\<close>, if any: its error, and what it has left of the file, which
  may be truncated or written in part.
\<close>

definition gen_run :: "gen_env \<Rightarrow> (string \<Rightarrow> (string \<times> string option) option) \<Rightarrow> fs \<Rightarrow> (string + unit) \<times> fs" where
  "gen_run env write fs =
     (case res_bind (moduleRoot env fs) (\<lambda>root.
           let docPath = ge_Join env [root, ''docs'', ''metrics.md''] in
           res_bind (prefix_err ''build exporter: '' (otlp_New (ge_otlp env) disabled_otlp)) (\<lambda>exp.
           res_bind (prefix_err ''render table: '' (RenderTable (ge_namer env) (Instruments exp))) (\<lambda>table.
           case fs docPath of
             None \<Rightarrow> Inl (''read '' @ docPath @ '': no such file'')
           | Some doc \<Rightarrow>
               res_bind (prefix_err (''splice '' @ docPath @ '': '') (Splice doc table)) (\<lambda>out.
               Inr (docPath, out))))) of
        Inl err \<Rightarrow> (Inl err, fs)
      | Inr (docPath, out) \<Rightarrow>
          (case write docPath of
             Some (err, rest) \<Rightarrow> (Inl (''write '' @ docPath @ '': '' @ err), fs(docPath := rest))
           | None \<Rightarrow> (Inr (), fs(docPath \<mapsto> out))))"

subsection \<open>Lemmas on the table\<close>

lemma render_rows_Inr:
  assumes "render_rows build rows = Inr t"
  shows "\<exists>names. list_all2 (\<lambda>i n. PrometheusName build i = Inr n) rows names \<and> t = concat (map2 table_row rows names)"
  using assms
proof (induction rows arbitrary: t)
  case (Cons i rows)
  obtain n r where n: "PrometheusName build i = Inr n" and r: "render_rows build rows = Inr r"
    and t: "t = table_row i n @ r"
    using Cons.prems by (auto simp only: render_rows.simps res_bind_Inr sum.inject)
  obtain names where "list_all2 (\<lambda>i n. PrometheusName build i = Inr n) rows names" "r = concat (map2 table_row rows names)"
    using Cons.IH [OF r] by blast
  with n t show ?case by (intro exI [of _ "n # names"]) simp
qed simp

text \<open>With distinct names the sorted list does not depend on the order of the inventory.\<close>

lemma sort_key_unique:
  assumes "mset xs = mset ys" and "distinct (map f xs)"
  shows "sort_key f xs = sort_key f ys"
proof (rule map_sorted_distinct_set_unique)
  have s: "set xs = set ys" using assms(1) by (metis set_mset_mset)
  show "inj_on f (set (sort_key f xs) \<union> set (sort_key f ys))"
    using assms(2) s by (simp add: distinct_map)
  have "mset (map f ys) = mset (map f xs)" using assms(1) by simp
  then have "distinct (map f ys)" using assms(2) mset_eq_imp_distinct_iff by blast
  then show "distinct (map f (sort_key f xs))" "distinct (map f (sort_key f ys))"
    using assms(2) by (simp_all add: distinct_map)
  show "set (sort_key f xs) = set (sort_key f ys)" using s by simp
qed simp_all

subsection \<open>Lemmas on the markers\<close>

lemma markers:
  "beginMarker ! 0 = CHR ''<''" "endMarker ! 0 = CHR ''<''"
  "CHR ''<'' \<notin> set (tl beginMarker)" "CHR ''<'' \<notin> set (tl endMarker)"
  "newline \<notin> set beginMarker" "newline \<notin> set endMarker"
  "length beginMarker = 37" "length endMarker = 35"
  "beginMarker ! 5 = CHR ''B''" "endMarker ! 5 = CHR ''E''"
  by (simp_all add: beginMarker_def endMarker_def newline_def)

lemma marker_tails: "\<exists>t. beginMarker = CHR ''<'' # t" "\<exists>t. endMarker = CHR ''<'' # t"
  "newline \<notin> set (tl endMarker)"
  by (simp_all add: beginMarker_def endMarker_def newline_def)

lemma occurs_nth:
  assumes "occurs_at p i s" and "j < length p"
  shows "i + j < length s \<and> s ! (i + j) = p ! j"
proof -
  obtain t where t: "drop i s = p @ t" using assms(1) by (auto simp: occurs_at_def HasPrefix_iff)
  have "i + j < length s" using arg_cong [OF t, of length] assms(2) by simp
  moreover have "drop i s ! j = p ! j" using t assms(2) by (simp add: nth_append)
  ultimately show ?thesis by simp
qed

lemma markers_apart:
  assumes "occurs_at beginMarker bi s" and "occurs_at endMarker ei s" and "bi \<le> ei"
  shows "bi + length beginMarker \<le> ei"
proof (rule ccontr)
  define k where "k = ei - bi"
  assume "\<not> bi + length beginMarker \<le> ei"
  then have k: "k < length beginMarker" "ei = bi + k" using assms(3) by (simp_all add: k_def)
  have "s ! ei = CHR ''<''" using occurs_nth [OF assms(2), of 0] markers(2,8) by simp
  then have b: "beginMarker ! k = CHR ''<''" using occurs_nth [OF assms(1) k(1)] k(2) by simp
  show False
  proof (cases k)
    case 0
    then show False
      using occurs_nth [OF assms(1), of 5] occurs_nth [OF assms(2), of 5] k(2) markers(7-10) by simp
  next
    case (Suc m)
    then have "tl beginMarker ! m = CHR ''<''" "m < length (tl beginMarker)" using b k(1) by (simp_all add: nth_tl)
    then show False using markers(3) nth_mem by metis
  qed
qed

text \<open>A document with its two markers in place, and what splicing makes of it.\<close>

definition marked :: "string \<Rightarrow> string \<Rightarrow> string \<Rightarrow> bool" where
  "marked pre mid post \<longleftrightarrow>
     (\<forall>j < length pre. \<not> occurs_at beginMarker j (pre @ beginMarker @ mid @ endMarker @ post)) \<and>
     (\<forall>j < length (pre @ beginMarker @ mid). \<not> occurs_at endMarker j (pre @ beginMarker @ mid @ endMarker @ post))"

lemma Splice_marked:
  assumes "marked pre mid post"
  shows "Splice (pre @ beginMarker @ mid @ endMarker @ post) table =
    Inr (pre @ beginMarker @ newline # table @ endMarker @ post)"
proof -
  let ?doc = "pre @ beginMarker @ mid @ endMarker @ post"
  have "Index ?doc beginMarker = Some (length pre)"
    using assms by (simp add: Index_Some_iff marked_def occurs_at_def)
  moreover have "Index ?doc endMarker = Some (length (pre @ beginMarker @ mid))"
    using assms by (simp add: Index_Some_iff marked_def occurs_at_def)
  ultimately show ?thesis by (simp add: Splice_def)
qed

lemma Splice_Inr:
  assumes "Splice doc table = Inr out"
  shows "\<exists>pre mid post. marked pre mid post \<and> doc = pre @ beginMarker @ mid @ endMarker @ post \<and>
    out = pre @ beginMarker @ newline # table @ endMarker @ post"
proof -
  obtain bi ei where bi: "Index doc beginMarker = Some bi" and ei: "Index doc endMarker = Some ei" and "bi \<le> ei"
    using assms by (auto simp: Splice_def split: option.splits if_splits)
  note b = bi [unfolded Index_Some_iff] and e = ei [unfolded Index_Some_iff]
  have apart: "bi + length beginMarker \<le> ei" using markers_apart b e \<open>bi \<le> ei\<close> by blast
  obtain post where post: "drop ei doc = endMarker @ post"
    using e by (auto simp: occurs_at_def HasPrefix_iff)
  obtain rest where rest: "drop bi doc = beginMarker @ rest"
    using b by (auto simp: occurs_at_def HasPrefix_iff)
  define mid where "mid = take (ei - (bi + length beginMarker)) rest"
  have "drop (bi + length beginMarker) doc = rest"
    using rest by (metis add.commute append_eq_conv_conj drop_drop)
  then have "drop (ei - (bi + length beginMarker)) rest = endMarker @ post"
    using post apart by (metis drop_drop le_add_diff_inverse2)
  then have r: "rest = mid @ endMarker @ post" unfolding mid_def by (metis append_take_drop_id)
  have doc: "doc = take bi doc @ beginMarker @ mid @ endMarker @ post"
    using append_take_drop_id [of bi doc] rest r by simp
  have len: "length (take bi doc) = bi" using b by simp
  have "length mid = ei - (bi + length beginMarker)"
    using arg_cong [OF doc, of length] arg_cong [OF post, of length] e len by (simp only: length_append length_drop) linarith
  then have "length (take bi doc @ beginMarker @ mid) = ei" using len apart by simp
  then have "marked (take bi doc) mid post"
    unfolding marked_def doc [symmetric] using b e len by simp
  moreover have "out = take bi doc @ beginMarker @ newline # table @ endMarker @ post"
    using Splice_marked [OF calculation, of table] assms doc by simp
  ultimately show ?thesis using doc by blast
qed

text \<open>The spliced document is marked again when the table has no angle bracket.\<close>

lemma marked_again:
  assumes "marked pre mid post" and "CHR ''<'' \<notin> set table"
  shows "marked pre (newline # table) post"
proof -
  let ?doc = "pre @ beginMarker @ mid @ endMarker @ post"
  obtain bt et where bt: "beginMarker = CHR ''<'' # bt" and et: "endMarker = CHR ''<'' # et"
    using marker_tails by blast
  have "\<not> occurs_at beginMarker j (pre @ beginMarker @ (newline # table) @ endMarker @ post)" if j: "j < length pre" for j
  proof
    assume "occurs_at beginMarker j (pre @ beginMarker @ (newline # table) @ endMarker @ post)"
    then have "occurs_at beginMarker j pre"
      using occurs_left [of beginMarker j pre "CHR ''<''" "bt @ newline # table @ endMarker @ post"] j markers(3)
      by (simp add: bt)
    then have "occurs_at beginMarker j ?doc" using j occurs_append by (metis less_imp_le)
    with assms(1) j show False by (simp add: marked_def)
  qed
  moreover have "\<not> occurs_at endMarker j (pre @ beginMarker @ (newline # table) @ endMarker @ post)"
    if j: "j < length (pre @ beginMarker @ newline # table)" for j
  proof
    let ?a = "pre @ beginMarker"
    assume "occurs_at endMarker j (pre @ beginMarker @ (newline # table) @ endMarker @ post)"
    then have o: "occurs_at endMarker j (?a @ newline # table)"
      using occurs_left [of endMarker j "?a @ newline # table" "CHR ''<''" "et @ post"] j markers(4) by (simp add: et)
    show False
    proof (cases "j < length ?a")
      case True
      then have "occurs_at endMarker j ?a"
        using occurs_left [OF o _ marker_tails(3)] by blast
      then have "occurs_at endMarker j ?doc" using True occurs_append [of endMarker j ?a] by simp
      with assms(1) True show False by (simp add: marked_def)
    next
      case False
      have "(?a @ newline # table) ! j = CHR ''<''"
        using occurs_nth [OF o, of 0] markers(2,8) by simp
      moreover have "(?a @ newline # table) ! j \<in> set (newline # table)"
        using False j nth_mem [of "j - length ?a" "newline # table"] by (simp only: nth_append) simp
      ultimately show False using assms(2) by (simp add: newline_def)
    qed
  qed
  ultimately show ?thesis unfolding marked_def by blast
qed

subsection \<open>The generated table\<close>

definition bracket_free :: "string \<Rightarrow> bool" where
  "bracket_free s \<longleftrightarrow> CHR ''<'' \<notin> set s"

text \<open>
  The documented alphabet of Prometheus names, letters, digits, underscores and colons, has no
  angle bracket.
\<close>

definition namer_ok :: "namer \<Rightarrow> bool" where
  "namer_ok build \<longleftrightarrow> (\<forall>n u t p. build n u t = Inr p \<longrightarrow> bracket_free p)"

definition info_ok :: "InstrumentInfo \<Rightarrow> bool" where
  "info_ok i \<longleftrightarrow> bracket_free (ii_Name i) \<and> bracket_free (ii_Kind i) \<and> bracket_free (ii_Unit i) \<and>
     bracket_free (ii_Description i)"

lemma instrument_table_ok: "list_all info_ok instrument_table"
  by code_simp

lemma table_row_bracket_free: "info_ok i \<Longrightarrow> bracket_free p \<Longrightarrow> bracket_free (table_row i p)"
  by (simp add: bracket_free_def info_ok_def table_row_def unit_cell_def newline_def backquote_def)

lemma RenderTable_bracket_free:
  assumes "RenderTable build known = Inr t" and "namer_ok build" and "list_all info_ok known"
  shows "bracket_free t"
proof -
  have rows: "bracket_free r" if "render_rows build rows = Inr r" "list_all info_ok rows" for rows r
    using that
  proof (induction rows arbitrary: r)
    case Nil
    then show ?case by (simp add: bracket_free_def)
  next
    case (Cons i rows)
    obtain n q where n: "PrometheusName build i = Inr n" and q: "render_rows build rows = Inr q"
      and r: "r = table_row i n @ q"
      using Cons.prems(1) by (auto simp only: render_rows.simps res_bind_Inr sum.inject)
    have "bracket_free n" using n assms(2) by (auto simp: PrometheusName_def namer_ok_def)
    then have "bracket_free (table_row i n)" using Cons.prems(2) by (simp add: table_row_bracket_free)
    with Cons.IH [OF q] Cons.prems(2) r show ?case by (simp add: bracket_free_def)
  qed
  obtain r where r: "render_rows build (sort_key ii_Name known) = Inr r" "t = table_head @ r"
    using assms(1) by (auto simp: RenderTable_def)
  have "list_all info_ok (sort_key ii_Name known)" using assms(3) by (simp add: list_all_iff)
  with rows [OF r(1)] have "bracket_free r" .
  moreover have "bracket_free table_head" by code_simp
  ultimately show ?thesis using r(2) by (simp add: bracket_free_def)
qed

text \<open>A run reads the module root off the files that exist, which a run does not change.\<close>

lemma moduleRoot_dom: "dom fs = dom fs1 \<Longrightarrow> moduleRoot env fs = moduleRoot env fs1"
proof -
  assume d: "dom fs = dom fs1"
  have "(fs x \<noteq> None) = (fs1 x \<noteq> None)" for x using d by (simp only: domIff [symmetric])
  then show ?thesis by (simp only: moduleRoot_def)
qed

lemma gen_run_Inr:
  "gen_run env write fs = (Inr u, fs1) \<longleftrightarrow>
     (\<exists>top_dir e table doc out. moduleRoot env fs = Inr top_dir \<and> otlp_New (ge_otlp env) disabled_otlp = Inr e \<and>
        RenderTable (ge_namer env) (Instruments e) = Inr table \<and>
        fs (ge_Join env [top_dir, ''docs'', ''metrics.md'']) = Some doc \<and> Splice doc table = Inr out \<and>
        write (ge_Join env [top_dir, ''docs'', ''metrics.md'']) = None \<and>
        fs1 = fs(ge_Join env [top_dir, ''docs'', ''metrics.md''] \<mapsto> out))"
  unfolding gen_run_def by (auto simp: Let_def split: sum.splits option.splits)

subsection \<open>Properties\<close>

text \<open>
  C36. The table is canonical: when it renders, it has the head and one row per instrument, with the
  Prometheus name derived from that instrument, sorted by name; with distinct names it does not
  depend on the order in which the instruments were registered.
\<close>

theorem RenderTable_canonical:
  assumes "RenderTable build known = Inr t" and "distinct (map ii_Name known)"
  shows "(\<exists>rows names. mset rows = mset known \<and> sorted (map ii_Name rows) \<and>
      list_all2 (\<lambda>i n. PrometheusName build i = Inr n) rows names \<and>
      t = table_head @ concat (map2 table_row rows names)) \<and>
    (\<forall>others. mset others = mset known \<longrightarrow> RenderTable build others = Inr t)"
proof (intro conjI allI impI)
  obtain r where r: "render_rows build (sort_key ii_Name known) = Inr r" "t = table_head @ r"
    using assms(1) by (auto simp: RenderTable_def)
  obtain names where "list_all2 (\<lambda>i n. PrometheusName build i = Inr n) (sort_key ii_Name known) names"
    "r = concat (map2 table_row (sort_key ii_Name known) names)"
    using render_rows_Inr [OF r(1)] by blast
  with r(2) show "\<exists>rows names. mset rows = mset known \<and> sorted (map ii_Name rows) \<and>
      list_all2 (\<lambda>i n. PrometheusName build i = Inr n) rows names \<and>
      t = table_head @ concat (map2 table_row rows names)"
    by (intro exI [of _ "sort_key ii_Name known"] exI [of _ names]) simp
next
  fix others
  assume "mset others = mset known"
  then have "sort_key ii_Name others = sort_key ii_Name known"
    using sort_key_unique [of known others ii_Name] assms(2) by simp
  with assms(1) show "RenderTable build others = Inr t" by (simp add: RenderTable_def)
qed

text \<open>An instance of the namer: the name with an underscore for every dot.\<close>

definition example_namer :: namer where
  "example_namer n u t = Inr (map (\<lambda>c. if c = CHR ''.'' then CHR ''_'' else if c = CHR ''<'' then CHR ''_'' else c) n)"

lemma example_namer_ok: "namer_ok example_namer"
  by (auto simp: namer_ok_def example_namer_def bracket_free_def)

theorem RenderTable_canonical_witness:
  "RenderTable example_namer [configReloads_inst, buildInfo_inst] =
   RenderTable example_namer [buildInfo_inst, configReloads_inst]"
proof -
  have "\<exists>t. RenderTable example_namer [configReloads_inst, buildInfo_inst] = Inr t"
    by (simp add: RenderTable_def PrometheusName_def metricType_def example_namer_def configReloads_inst_def
        buildInfo_inst_def kind_defs)
  then obtain t where t: "RenderTable example_namer [configReloads_inst, buildInfo_inst] = Inr t" by blast
  have "distinct (map ii_Name [configReloads_inst, buildInfo_inst])"
    by (simp add: configReloads_inst_def buildInfo_inst_def kind_defs)
  from RenderTable_canonical [OF t this] have "RenderTable example_namer [buildInfo_inst, configReloads_inst] = Inr t"
    by (simp add: add_mset_commute)
  with t show ?thesis by simp
qed

text \<open>
  C35. Running the generator twice is running it once: a run that succeeds replaces what stands
  between the two markers of the document by the table and leaves every other byte and every
  other file alone, and a second run succeeds and changes nothing.
\<close>

theorem gen_run_idempotent:
  assumes "namer_ok (ge_namer env)" and "gen_run env write fs = (Inr (), fs1)"
  shows "gen_run env write fs1 = (Inr (), fs1) \<and>
    (\<exists>path pre mid post table. fs path = Some (pre @ beginMarker @ mid @ endMarker @ post) \<and>
       fs1 = fs(path \<mapsto> pre @ beginMarker @ newline # table @ endMarker @ post))"
proof -
  obtain top_dir e table doc out where top_dir: "moduleRoot env fs = Inr top_dir"
    and e: "otlp_New (ge_otlp env) disabled_otlp = Inr e"
    and t: "RenderTable (ge_namer env) (Instruments e) = Inr table"
    and doc: "fs (ge_Join env [top_dir, ''docs'', ''metrics.md'']) = Some doc" and out: "Splice doc table = Inr out"
    and w: "write (ge_Join env [top_dir, ''docs'', ''metrics.md'']) = None"
    and fs1: "fs1 = fs(ge_Join env [top_dir, ''docs'', ''metrics.md''] \<mapsto> out)"
    using assms(2) unfolding gen_run_Inr by blast
  have "bracket_free table"
    using RenderTable_bracket_free [OF t assms(1)] otlp_New_table(2) [OF e] instrument_table_ok by simp
  moreover obtain pre mid post where m: "marked pre mid post" "doc = pre @ beginMarker @ mid @ endMarker @ post"
    "out = pre @ beginMarker @ newline # table @ endMarker @ post"
    using Splice_Inr [OF out] by blast
  ultimately have "Splice out table = Inr out"
    using Splice_marked [of pre "newline # table" post table] marked_again [OF m(1)] by (simp add: bracket_free_def)
  moreover have "moduleRoot env fs1 = Inr top_dir"
  proof -
    have "dom fs = dom fs1" using doc unfolding fs1 by (simp add: insert_absorb domI)
    with moduleRoot_dom [of fs fs1 env] top_dir show ?thesis by simp
  qed
  ultimately have "gen_run env write fs1 = (Inr (), fs1)"
    unfolding gen_run_Inr using e t w by (intro exI) (auto simp: fs1)
  with doc m fs1 show ?thesis by blast
qed

definition example_gen_env :: gen_env where
  "example_gen_env = \<lparr>ge_Getwd = Inr ''/src/cmd'', ge_Join = (\<lambda>ps. concat (map (\<lambda>p. p @ ''/'') ps)),
     ge_otlp = example_otlp_env, ge_namer = example_namer\<rparr>"

definition example_fs :: fs where
  "example_fs = [''/src/go.mod/'' \<mapsto> [], ''/src/docs/metrics.md/'' \<mapsto> ''# Metrics '' @ beginMarker @ '' old '' @ endMarker @ '' end'']"

lemma example_root: "moduleRoot example_gen_env example_fs = Inr ''/src''"
proof -
  have "filepath_Dir ''/src/cmd'' = ''/src''" by code_simp
  then show ?thesis
    by (simp add: moduleRoot_def example_gen_env_def example_fs_def moduleRoot_from.simps [of _ "''/src/cmd''"]
        moduleRoot_from.simps [of _ "''/src''"] Let_def)
qed

theorem gen_run_idempotent_witness:
  "\<exists>fs1. gen_run example_gen_env (\<lambda>_. None) example_fs = (Inr (), fs1) \<and>
     gen_run example_gen_env (\<lambda>_. None) fs1 = (Inr (), fs1)"
proof -
  obtain e where e: "otlp_New example_otlp_env disabled_otlp = Inr e"
    by (simp add: otlp_New_def example_otlp_env_def disabled_otlp_def err_opt_def registerInstruments_def
        register_def recording_create_def register_callback_def)
  have "is_ok (render_rows example_namer rows)" if "\<forall>i \<in> set rows. is_ok (metricType (ii_Kind i))" for rows
    using that by (induction rows) (auto simp: is_ok_iff PrometheusName_def example_namer_def)
  moreover have "list_all (\<lambda>i. is_ok (metricType (ii_Kind i))) instrument_table" by code_simp
  ultimately obtain t where t: "RenderTable example_namer (Instruments e) = Inr t"
    using otlp_New_table(2) [OF e] by (fastforce simp: RenderTable_def is_ok_iff list_all_iff)
  have "is_ok (Splice (''# Metrics '' @ beginMarker @ '' old '' @ endMarker @ '' end'') [])" by code_simp
  then obtain out where "Splice (''# Metrics '' @ beginMarker @ '' old '' @ endMarker @ '' end'') t = Inr out"
    by (auto simp: is_ok_iff Splice_def split: option.splits if_splits)
  then obtain fs1 where "gen_run example_gen_env (\<lambda>_. None) example_fs = (Inr (), fs1)"
    using e t example_root unfolding gen_run_Inr by (auto simp: example_gen_env_def example_fs_def)
  with gen_run_idempotent [OF _ this] example_namer_ok show ?thesis by (auto simp: example_gen_env_def)
qed

text \<open>
  C38. The search for the module root ends for every working directory and finds the nearest one: it
  returns the first directory on the way up that holds a \<^verbatim>\<open>go.mod\<close>, and fails only when none does.
\<close>

theorem moduleRoot_nearest:
  "case moduleRoot_from has_mod dir of
     Inr top_dir \<Rightarrow> \<exists>n. top_dir = (filepath_Dir ^^ n) dir \<and> has_mod top_dir \<and> (\<forall>k < n. \<not> has_mod ((filepath_Dir ^^ k) dir))
   | Inl _ \<Rightarrow> \<forall>k. \<not> has_mod ((filepath_Dir ^^ k) dir)"
proof (induction has_mod dir rule: moduleRoot_from.induct)
  case (1 has_mod dir)
  let ?p = "filepath_Dir dir"
  show ?case
  proof (cases "has_mod dir")
    case True
    then show ?thesis by (subst moduleRoot_from.simps) (auto intro: exI [of _ 0])
  next
    case False
    note nf = False
    show ?thesis
    proof (cases "?p = dir")
      case True
      then have "(filepath_Dir ^^ k) dir = dir" for k by (induction k) simp_all
      with True nf show ?thesis by (subst moduleRoot_from.simps) simp
    next
      case False
      have up: "(filepath_Dir ^^ k) ?p = (filepath_Dir ^^ Suc k) dir" for k by (simp only: funpow_Suc_right o_apply)
      have all: "(\<forall>k. \<not> has_mod ((filepath_Dir ^^ k) ?p)) \<longleftrightarrow> (\<forall>k. \<not> has_mod ((filepath_Dir ^^ k) dir))"
        unfolding up using nf by (metis funpow_0 not0_implies_Suc)
      have less: "(\<forall>k < n. \<not> has_mod ((filepath_Dir ^^ k) ?p)) \<longleftrightarrow>
          (\<forall>k < Suc n. \<not> has_mod ((filepath_Dir ^^ k) dir))" for n
        unfolding up All_less_Suc2 using nf by simp
      have s: "moduleRoot_from has_mod dir = moduleRoot_from has_mod ?p"
        using nf False by (subst moduleRoot_from.simps) (simp add: Let_def)
      show ?thesis
      proof (cases "moduleRoot_from has_mod ?p")
        case (Inl err)
        with 1 [OF nf refl False] show ?thesis unfolding s by (simp only: sum.case all simp_thms)
      next
        case (Inr top_dir)
        with 1 [OF nf refl False] obtain n where "top_dir = (filepath_Dir ^^ n) ?p" "has_mod top_dir"
          "\<forall>k < n. \<not> has_mod ((filepath_Dir ^^ k) ?p)"
          by auto
        then have "top_dir = (filepath_Dir ^^ Suc n) dir \<and> has_mod top_dir \<and>
          (\<forall>k < Suc n. \<not> has_mod ((filepath_Dir ^^ k) dir))"
          using up less by blast
        then show ?thesis unfolding s Inr sum.case by blast
      qed
    qed
  qed
qed

theorem moduleRoot_nearest_witness:
  "\<exists>n. ''/src'' = (filepath_Dir ^^ n) ''/src/cmd/gen''"
proof -
  have "filepath_Dir ''/src/cmd/gen'' = ''/src/cmd''" "filepath_Dir ''/src/cmd'' = ''/src''" by code_simp+
  then have "moduleRoot_from (\<lambda>d. d = ''/src'') ''/src/cmd/gen'' = Inr ''/src''"
    by (simp add: moduleRoot_from.simps [of _ "''/src/cmd/gen''"] moduleRoot_from.simps [of _ "''/src/cmd''"]
        moduleRoot_from.simps [of _ "''/src''"] Let_def)
  with moduleRoot_nearest [of "\<lambda>d. d = ''/src''" "''/src/cmd/gen''"] show ?thesis by auto
qed

end
