(* ===== verification/Smoke_Parse.thy ===== *)
theory Smoke_Parse
  imports Go_Strings Float64
begin

text \<open>
  \<^verbatim>\<open>test/smoke/parse.go\<close>: the reader of the Prometheus text exposition on which the smoke suite rests.
  The conversion of a number token is a function of the standard library and an argument; the map of
  labels is a function to options.
\<close>

record sample =
  sm_name :: string
  sm_labels :: "string \<rightharpoonup> string"
  sm_value :: float64

definition parseValue :: "(string \<Rightarrow> string + float64) \<Rightarrow> string \<Rightarrow> float64" where
  "parseValue ParseFloat tok = (case ParseFloat tok of Inl err \<Rightarrow> NaN | Inr f \<Rightarrow> f)"

definition parse_label :: "string \<Rightarrow> (string \<rightharpoonup> string) \<Rightarrow> (string \<rightharpoonup> string)" where
  "parse_label piece labels =
     (let kv = TrimSpace piece
      in case IndexByte kv CHR ''='' of
           None \<Rightarrow> labels
         | Some eq \<Rightarrow> labels(take eq kv \<mapsto> trim (\<lambda>c. c = CHR 0x22) (drop (eq + 1) kv)))"

definition parseLabels :: "string \<Rightarrow> (string \<rightharpoonup> string)" where
  "parseLabels s = fold parse_label (split_byte CHR '','' s) Map.empty"

text \<open>The name, the labels and the rest of a line, \<open>None\<close> when the line is skipped.\<close>

definition line_parts :: "string \<Rightarrow> (string \<times> (string \<rightharpoonup> string) \<times> string) option" where
  "line_parts line =
     (case IndexByte line CHR ''{'' of
        Some i \<Rightarrow>
          (case IndexByte line CHR ''}'' of
             None \<Rightarrow> None
           | Some j \<Rightarrow>
               if j < i then None
               else Some (take i line, parseLabels (drop (i + 1) (take j line)), TrimSpace (drop (j + 1) line)))
      | None \<Rightarrow>
          (case IndexByte line CHR '' '' of
             Some i \<Rightarrow> Some (take i line, Map.empty, TrimSpace (drop (i + 1) line))
           | None \<Rightarrow> Some (line, Map.empty, [])))"

definition parse_line :: "(string \<Rightarrow> string + float64) \<Rightarrow> string \<Rightarrow> sample list" where
  "parse_line ParseFloat raw =
     (let line = TrimSpace raw
      in if line = [] \<or> HasPrefix line ''#'' then []
         else case line_parts line of
           None \<Rightarrow> []
         | Some (name, labels, rest) \<Rightarrow>
             (case Fields rest of
                [] \<Rightarrow> []
              | f # _ \<Rightarrow> [\<lparr>sm_name = name, sm_labels = labels, sm_value = parseValue ParseFloat f\<rparr>]))"

definition parsePromText :: "(string \<Rightarrow> string + float64) \<Rightarrow> string \<Rightarrow> sample list" where
  "parsePromText ParseFloat body = concat (map (parse_line ParseFloat) (split_byte CHR 0x0A body))"

text \<open>A missing label reads as the empty string.\<close>

definition ofType :: "sample list \<Rightarrow> string \<Rightarrow> string \<Rightarrow> sample list" where
  "ofType samples name typ =
     filter (\<lambda>s. sm_name s = name \<and> (case sm_labels s ''probe_type'' of None \<Rightarrow> [] | Some v \<Rightarrow> v) = typ) samples"

definition anyValue :: "sample list \<Rightarrow> float64 \<Rightarrow> bool" where
  "anyValue samples v = list_ex (\<lambda>s. f_eq (sm_value s) v) samples"

definition anyNonNaN :: "sample list \<Rightarrow> bool" where
  "anyNonNaN samples = list_ex (\<lambda>s. \<not> f_is_NaN (sm_value s)) samples"

subsection \<open>Printing a series\<close>

text \<open>One line of the exposition as the bridge prints it: name, labels, value.\<close>

record series =
  se_name :: string
  se_labels :: "(string \<times> string) list"
  se_token :: string

definition print_label :: "string \<times> string \<Rightarrow> string" where
  "print_label = (\<lambda>(k, v). k @ ''='' @ [CHR 0x22] @ v @ [CHR 0x22])"

fun print_labels :: "(string \<times> string) list \<Rightarrow> string" where
  "print_labels [] = []"
| "print_labels [kv] = print_label kv"
| "print_labels (kv # kvs) = print_label kv @ '','' @ print_labels kvs"

definition print_series :: "series \<Rightarrow> string" where
  "print_series s = se_name s @ ''{'' @ print_labels (se_labels s) @ ''} '' @ se_token s"

text \<open>What the parser assumes of the text: no byte with a meaning of its own in names and values.\<close>

definition plain :: "string \<Rightarrow> bool" where
  "plain s \<longleftrightarrow> list_all (\<lambda>c. \<not> is_space c \<and> c \<notin> set ''{},=#'' \<and> c \<noteq> CHR 0x22) s"

definition plain_value :: "string \<Rightarrow> bool" where
  "plain_value s \<longleftrightarrow> list_all (\<lambda>c. c \<notin> set ''{},'' \<and> c \<noteq> CHR 0x22 \<and> c \<noteq> CHR 0x0A) s"

definition series_ok :: "series \<Rightarrow> bool" where
  "series_ok s \<longleftrightarrow> se_name s \<noteq> [] \<and> plain (se_name s) \<and> se_labels s \<noteq> [] \<and>
     list_all (\<lambda>(k, v). k \<noteq> [] \<and> plain k \<and> plain_value v) (se_labels s) \<and>
     distinct (map fst (se_labels s)) \<and> se_token s \<noteq> [] \<and> plain (se_token s)"

definition series_sample :: "(string \<Rightarrow> string + float64) \<Rightarrow> series \<Rightarrow> sample" where
  "series_sample ParseFloat s =
     \<lparr>sm_name = se_name s, sm_labels = map_of (se_labels s), sm_value = parseValue ParseFloat (se_token s)\<rparr>"

subsection \<open>Lemmas\<close>

lemma plainD: "plain s \<Longrightarrow> c \<in> set s \<Longrightarrow> \<not> is_space c \<and> c \<noteq> CHR ''{'' \<and> c \<noteq> CHR ''}'' \<and> c \<noteq> CHR '','' \<and>
    c \<noteq> CHR ''='' \<and> c \<noteq> CHR ''#'' \<and> c \<noteq> CHR 0x22"
  by (auto simp: plain_def list_all_iff)

lemma plain_valueD: "plain_value s \<Longrightarrow> c \<in> set s \<Longrightarrow> c \<noteq> CHR ''{'' \<and> c \<noteq> CHR ''}'' \<and> c \<noteq> CHR '','' \<and>
    c \<noteq> CHR 0x22 \<and> c \<noteq> CHR 0x0A"
  by (auto simp: plain_value_def list_all_iff)

lemma TrimSpace_id: "s = [] \<or> \<not> is_space (hd s) \<and> \<not> is_space (last s) \<Longrightarrow> TrimSpace s = s"
  unfolding TrimSpace_def by (rule trim_id)

lemma plain_ends: "plain s \<Longrightarrow> s \<noteq> [] \<Longrightarrow> \<not> is_space (hd s) \<and> \<not> is_space (last s)"
  using plainD by (metis hd_in_set last_in_set)

lemma Fields_plain:
  assumes "plain s" and "s \<noteq> []"
  shows "Fields s = [s]"
proof -
  obtain c t where s: "s = c # t" using assms(2) by (cases s) auto
  have ns: "\<not> is_space x" if "x \<in> set s" for x using plainD [OF assms(1) that] by simp
  then have d: "dropWhile is_space s = c # t" "takeWhile (\<lambda>x. \<not> is_space x) t = t" "dropWhile (\<lambda>x. \<not> is_space x) t = []"
    by (auto simp: s)
  then show ?thesis unfolding Fields.simps [of s] d list.case Fields.simps [of "[]"] by (simp add: s)
qed

lemma TrimSpace_space: "plain s \<Longrightarrow> s \<noteq> [] \<Longrightarrow> TrimSpace (CHR '' '' # s) = s"
proof -
  assume s: "plain s" "s \<noteq> []"
  have "dropWhile is_space (CHR '' '' # s) = dropWhile is_space s" by (simp add: is_space_def)
  then have "TrimSpace (CHR '' '' # s) = TrimSpace s" by (simp add: TrimSpace_def trim_def)
  with s plain_ends TrimSpace_id show ?thesis by simp
qed

definition put_label :: "string \<times> string \<Rightarrow> (string \<rightharpoonup> string) \<Rightarrow> (string \<rightharpoonup> string)" where
  "put_label kv m = m(fst kv \<mapsto> snd kv)"

lemma parse_print_label:
  assumes "k \<noteq> []" and "plain k" and "plain_value v"
  shows "parse_label (print_label (k, v)) labels = put_label (k, v) labels"
proof -
  have t: "TrimSpace (print_label (k, v)) = print_label (k, v)"
    using plain_ends [OF assms(2,1)] assms(1) by (intro TrimSpace_id) (simp add: print_label_def is_space_def)
  have "CHR ''='' \<notin> set k" using plainD [OF assms(2)] by blast
  then have i: "IndexByte (print_label (k, v)) CHR ''='' = Some (length k)"
    using IndexByte_append [of "CHR ''=''" k] by (simp add: print_label_def)
  have q: "x \<noteq> CHR 0x22" if "x \<in> set v" for x using plain_valueD [OF assms(3) that] by simp
  have "trim (\<lambda>c. c = CHR 0x22) (CHR 0x22 # v @ [CHR 0x22]) = v"
  proof (cases v rule: rev_cases)
    case Nil
    then show ?thesis by (simp add: trim_def)
  next
    case (snoc w x)
    then have "v \<noteq> []" by simp
    then have "dropWhile (\<lambda>c. c = CHR 0x22) (v @ [CHR 0x22]) = v @ [CHR 0x22]"
      using q [of "hd v"] by (cases v) simp_all
    moreover have "dropWhile (\<lambda>c. c = CHR 0x22) (rev v) = rev v" using q snoc by simp
    ultimately show ?thesis by (simp add: trim_def)
  qed
  with t i show ?thesis by (simp add: parse_label_def print_label_def put_label_def)
qed

lemma print_label_comma: "plain k \<Longrightarrow> plain_value v \<Longrightarrow> CHR '','' \<notin> set (print_label (k, v))"
  using plainD [of k] plain_valueD [of v] by (auto simp: print_label_def)

lemma parse_print_labels:
  assumes "list_all (\<lambda>(k, v). k \<noteq> [] \<and> plain k \<and> plain_value v) kvs" and "kvs \<noteq> []"
  shows "fold parse_label (split_byte CHR '','' (print_labels kvs)) m = fold put_label kvs m"
  using assms
proof (induction kvs arbitrary: m rule: print_labels.induct)
  case (2 kv)
  then show ?case by (cases kv) (simp add: split_byte_none print_label_comma parse_print_label)
next
  case (3 kv w kvs)
  then show ?case by (cases kv) (simp add: split_byte_append print_label_comma parse_print_label)
qed simp

lemma fold_put_label: "distinct (map fst kvs) \<Longrightarrow> fold put_label kvs m = m ++ map_of kvs"
proof (induction kvs arbitrary: m)
  case (Cons kv kvs)
  have "map_of kvs (fst kv) = None" using Cons.prems by (simp add: map_of_eq_None_iff)
  then have e: "put_label kv m ++ map_of kvs = m ++ map_of (kv # kvs)"
    by (intro ext) (auto simp: put_label_def map_add_def split: option.split)
  have "fold put_label (kv # kvs) m = put_label kv m ++ map_of kvs" using Cons by simp
  then show ?case by (simp only: e)
qed simp

lemma print_labels_bytes:
  assumes "list_all (\<lambda>(k, v). k \<noteq> [] \<and> plain k \<and> plain_value v) kvs"
  shows "CHR ''{'' \<notin> set (print_labels kvs)" "CHR ''}'' \<notin> set (print_labels kvs)" "CHR 0x0A \<notin> set (print_labels kvs)"
proof -
  have one: "CHR ''{'' \<notin> set (print_label (k, v)) \<and> CHR ''}'' \<notin> set (print_label (k, v)) \<and> CHR 0x0A \<notin> set (print_label (k, v))"
    if "plain k" "plain_value v" for k v
    using plainD [OF that(1)] plain_valueD [OF that(2)] by (auto simp: print_label_def is_space_def)
  show "CHR ''{'' \<notin> set (print_labels kvs)" "CHR ''}'' \<notin> set (print_labels kvs)" "CHR 0x0A \<notin> set (print_labels kvs)"
    using assms by (induction kvs rule: print_labels.induct) (auto simp: one)
qed

lemma parse_print_series:
  assumes "series_ok s"
  shows "parse_line ParseFloat (print_series s) = [series_sample ParseFloat s]"
proof -
  let ?n = "se_name s" and ?l = "print_labels (se_labels s)" and ?t = "se_token s"
  let ?line = "?n @ CHR ''{'' # ?l @ CHR ''}'' # CHR '' '' # ?t"
  have ok: "?n \<noteq> []" "plain ?n" "?t \<noteq> []" "plain ?t" "se_labels s \<noteq> []" "distinct (map fst (se_labels s))"
    "list_all (\<lambda>(k, v). k \<noteq> [] \<and> plain k \<and> plain_value v) (se_labels s)"
    using assms by (simp_all add: series_ok_def)
  note b = print_labels_bytes [OF ok(7)]
  have line: "print_series s = ?line" by (simp add: print_series_def)
  have n: "CHR ''{'' \<notin> set ?n" "CHR ''}'' \<notin> set ?n" "hd ?n \<noteq> CHR ''#''"
    using plainD [OF ok(2)] ok(1) hd_in_set by blast+
  have trim: "TrimSpace ?line = ?line"
    using plain_ends [OF ok(2,1)] plain_ends [OF ok(4,3)] ok(1,3) by (intro TrimSpace_id) simp
  have i: "IndexByte ?line CHR ''{'' = Some (length ?n)" using IndexByte_append [OF n(1)] .
  have "IndexByte ((?n @ CHR ''{'' # ?l) @ CHR ''}'' # CHR '' '' # ?t) CHR ''}'' = Some (length (?n @ CHR ''{'' # ?l))"
    using n(2) b(2) by (intro IndexByte_append) simp
  then have j: "IndexByte ?line CHR ''}'' = Some (length ?n + 1 + length ?l)" by simp
  have "parseLabels ?l = map_of (se_labels s)"
    using parse_print_labels [OF ok(7,5)] fold_put_label [OF ok(6)] by (simp add: parseLabels_def)
  then have "line_parts ?line = Some (?n, map_of (se_labels s), ?t)"
    using TrimSpace_space [OF ok(4,3)] by (simp add: line_parts_def i j)
  moreover have "\<not> HasPrefix ?line ''#''" using n(3) ok(1) by (cases ?n) (simp_all add: HasPrefix_def)
  ultimately show ?thesis
    using trim ok(1) Fields_plain [OF ok(4,3)] by (simp add: parse_line_def line Let_def series_sample_def)
qed

subsection \<open>Properties\<close>

text \<open>
  C37. Reading back the exposition gives the series that were printed: for every list of series whose
  names, labels and values avoid the bytes that the parser splits at, in the form in which the
  exporter prints them, one per line, the parser returns exactly those samples in order, with
  every label and with the value of the number token.
\<close>

theorem parsePromText_roundtrip:
  assumes "list_all series_ok ss"
  shows "parsePromText ParseFloat (concat (map (\<lambda>s. print_series s @ [CHR 0x0A]) ss)) =
    map (series_sample ParseFloat) ss"
  using assms
proof (induction ss)
  case Nil
  show ?case by (simp add: parsePromText_def parse_line_def TrimSpace_def trim_def)
next
  case (Cons s ss)
  then have ok: "series_ok s" by simp
  have "CHR 0x0A \<notin> set (se_name s)" "CHR 0x0A \<notin> set (se_token s)"
    using ok plainD [of "se_name s"] plainD [of "se_token s"] by (auto simp: series_ok_def is_space_def)
  then have "CHR 0x0A \<notin> set (print_series s)"
    using ok print_labels_bytes(3) by (auto simp: print_series_def series_ok_def)
  with Cons show ?case by (simp add: parsePromText_def split_byte_append parse_print_series)
qed

theorem parsePromText_roundtrip_witness:
  "parsePromText (\<lambda>_. Inr (Fin 1)) (concat (map (\<lambda>s. print_series s @ [CHR 0x0A])
     [\<lparr>se_name = ''trimon_probe_up'', se_labels = [(''probe_type'', ''tcp''), (''probe_name'', ''web site'')], se_token = ''1''\<rparr>])) =
   [\<lparr>sm_name = ''trimon_probe_up'', sm_labels = map_of [(''probe_type'', ''tcp''), (''probe_name'', ''web site'')], sm_value = Fin 1\<rparr>]"
proof -
  have "list_all series_ok [\<lparr>se_name = ''trimon_probe_up'', se_labels = [(''probe_type'', ''tcp''),
    (''probe_name'', ''web site'')], se_token = ''1''\<rparr>]" by code_simp
  from parsePromText_roundtrip [OF this, of "\<lambda>_. Inr (Fin 1)"] show ?thesis
    by (simp add: series_sample_def parseValue_def)
qed

end
