(* ===== verification/Spec2Isabelle.thy ===== *)
theory Spec2Isabelle
  imports Startup Metricsdoc Smoke_Parse
begin

text \<open>
  A verification development of \<^verbatim>\<open>trimon\<close>, a network monitoring daemon written in Go. trimon reads an
  operations file and a directory of probe files, runs one goroutine per probe (ICMP, TCP, UDP, DNS
  or HTTP) on a ticker, sends the results through a bounded channel into a pipeline that hands them
  to the exporters (OpenTelemetry with a Prometheus bridge, and stdout), and serves \<^verbatim>\<open>/healthz\<close>,
  \<^verbatim>\<open>/metrics\<close>, \<^verbatim>\<open>/reload\<close> and \<^verbatim>\<open>/config\<close> over HTTP. A second program generates the table of metrics in
  the documentation.

  \<^bold>\<open>The theories and the code.\<close> Paths are relative to the repository.

  \<^item> \<open>Prelude\<close>, \<open>Float64\<close>, \<open>Go_Net\<close>, \<open>Go_Strings\<close>, \<open>Go_Duration\<close>, \<open>Go_Time\<close>, \<open>Go_JSON\<close>: what the code
    uses of the language and its library. Machine integers are integers with the wrap-around
    written out where it matters, or words where bits matter; \<^verbatim>\<open>float64\<close> is IEEE binary64 over exact
    rationals; errors are the left part of a sum; strings are lists of bytes. IP addresses, times in
    RFC 3339 and durations are parsed and printed as the library does it; parsing a printed duration
    gives it back.
  \<^item> \<open>Types\<close> (\<^verbatim>\<open>pkg/types/types.go\<close>): configurations, results, statuses, the observations of a result,
    and \<open>result_ok\<close>, the well-formedness of a result on which the exporters rely.
  \<^item> \<open>Probe_Targets\<close> (\<^verbatim>\<open>internal/probe/targets.go\<close>, \<^verbatim>\<open>run.go\<close>), \<open>Probe_Stats\<close> (\<^verbatim>\<open>stats.go\<close>), \<open>Probe_Run\<close>
    (\<^verbatim>\<open>run.go\<close>): expansion of targets, fan-out over work items, statistics of round-trip times, and the
    loop of attempts with its status.
  \<^item> \<open>Prober\<close>: the interface of the probers as locales (\<open>prober\<close>, \<open>host_prober\<close>, \<open>port_attempt\<close>), with
    what the scheduler and the exporters use of them proved once. \<open>Tcp_Syn\<close> and \<open>Prober_TCP\<close>
    (\<^verbatim>\<open>internal/probe/tcp\<close>), \<open>Prober_UDP\<close>, \<open>Prober_DNS\<close>, \<open>Prober_HTTP\<close>, \<open>Prober_ICMP\<close> (the directories of the
    same names) model the probers and interpret the locales.
  \<^item> \<open>Config_Schema\<close>, \<open>Config_Validate\<close>, \<open>Config_Load\<close> (\<^verbatim>\<open>internal/config\<close>): the structs of the files,
    every check with its error, and \<^verbatim>\<open>Load\<close> with its defaults, its merge of the probe files and its
    fingerprint.
  \<^item> \<open>Channel\<close> and \<open>Pipeline\<close> (\<^verbatim>\<open>internal/pipeline/pipeline.go\<close>), \<open>Scheduler\<close>
    (\<^verbatim>\<open>internal/scheduler/scheduler.go\<close>), \<open>Daemon\<close> and \<open>Shutdown\<close> (\<^verbatim>\<open>cmd/trimon/main.go\<close>): the channel as an
    interpretation of \<open>buffered_channel\<close>, dispatch and drain, the map of workers, and the daemon as
    a step relation in which main goroutine, reload handler, probe goroutines and pipeline
    interleave; the end of the drain and the close of the channel are two steps. A wait for
    goroutines returns only once they have exited. The locale \<open>probe_sets\<close> states what the daemon needs of a probe set; the
    interpretation \<open>validated\<close> (theory \<open>Startup\<close>) shows that validated sets have it.
  \<^item> \<open>Server\<close> (\<^verbatim>\<open>internal/server/server.go\<close>): routes, handlers, the reload callback and the dump of the
    configuration.
  \<^item> \<open>Exporter_OTLP\<close> (\<^verbatim>\<open>internal/exporter/otlp\<close>) and \<open>Exporter_Stdout\<close> (\<^verbatim>\<open>internal/exporter/stdout\<close>):
    construction of the telemetry exporter, its inventory of instruments, the measurements made of a
    result; the JSON record and the line of text.
  \<^item> \<open>Startup\<close> (\<^verbatim>\<open>cmd/trimon/main.go\<close>): flags, configuration, exporters, pipeline and server put together,
    and the run of the prober that the factory made.
  \<^item> \<open>Metricsdoc\<close> (\<^verbatim>\<open>internal/metricsdoc\<close>, \<^verbatim>\<open>cmd/gen-metrics-docs\<close>) and \<open>Smoke_Parse\<close> (\<^verbatim>\<open>test/smoke/parse.go\<close>):
    the generated table and the parser of the Prometheus text that the smoke tests use.

  \<^bold>\<open>State and operations.\<close> Structs are records with the fields of the source, under a short prefix;
  enumerations are datatypes; a method that changes its receiver returns the new one. A loop is a
  recursion over what it consumes: attempts by their number, packets and addresses by their list,
  the drain by the length of the buffer, the search for the module root by the length of the path.
  All functions of the model terminate; no fuel is used. What is not deterministic is an argument (the
  answers of the network, the clock, the order in which the goroutines of a run end) or a choice of
  the step relation (the scheduling of goroutines, the arrival of ticks, signals and reloads), and
  the properties hold for all of them.

  \<^bold>\<open>What is shown.\<close>

  \<^item> Probing: the loop, from a context that is live, reports what an independent specification
    computes from the list of attempts; loss and status are
    exact for up to \<open>2 ^ 53\<close> packets although they are computed in floating point; minimum, mean and
    maximum are ordered; expansion removes duplicates and keeps the cap; the results do not depend
    on the order of the goroutines; a SYN segment verifies and parses back, and a port is called
    open or closed only on a matching reply; results of all probers are well formed.
  \<^item> Configuration: what \<^verbatim>\<open>Load\<close> returns is valid as a whole; the merge of the files is the
    concatenation of their probes and accepts exactly valid files with unique names; the timing
    check is exact when nothing overflows; the fingerprint covers names and contents.
  \<^item> Daemon: results are conserved in every interleaving; in orderly runs nothing panics, every
    accepted result is exported in order, and the daemon can always come down; a reload is all or
    nothing; the threshold of the buffer usage is exact; a dumped ICMP probe reads back as the same
    probe; each loaded probe reports on each of its targets.
  \<^item> Exporters and documentation: counters add up, gauges agree with each other, series are
    identified by the identity and labels of a result, the inventory is complete, JSON records are
    faithful; the generator is idempotent and its table canonical; the smoke parser inverts the
    printing of series.
  \<^item> Where the code falls short of its intention there is a theorem that exhibits it: reloads after
    the stop and before the start of the scheduler, the interval of HTTP probes, the dump
    of probes with a protocol block, the overflow of the timing check, a null global section, labels that take over reserved keys, a CA file without
    a certificate, targets with a zone, and replies from ports that look like an IP header.

  \<^bold>\<open>Assumptions.\<close> Arithmetic on \<^verbatim>\<open>float64\<close> is not fused (as on amd64); \<^verbatim>\<open>int\<close> has 64 bits. Code outside the
  repository is an argument of the definitions that use it: YAML decoding, the resolver, SHA-256, the
  DNS library, the ICMP pinger (its documented statistics are the hypothesis \<open>stats_documented\<close>), the
  OpenTelemetry SDK, the translator of Prometheus names, sockets and the file system.

  \<^bold>\<open>Not modelled.\<close> The output of the log, since nothing depends on it; flag parsing; the text of JSON
  and YAML documents, of which the development has the document; the HTTP server of the standard
  library below routing, and its shutdown timeout; the internals of the SDK, that is, how measurements
  become exported series; \<^verbatim>\<open>test/smoke/doc.go\<close>, which is a comment.
\<close>

section \<open>Properties of the daemon as a whole\<close>

text \<open>
  C1. In a run in which reloads come only between the start of the scheduler and the signal, and
  with probe sets as validation accepts them and positive intervals of the HTTP probes, no
  goroutine ever panics, in any interleaving. When the exporter is closed, every probe goroutine
  has exited, every result that the channel accepted has been dispatched to the exporters in the
  order of acceptance, and what probes produced is exactly what was dispatched or counted as
  dropped.
\<close>

theorem orderly_run_safe:
  assumes "reachable_from True loadable_probes buffer s"
  shows "\<not> d_panic s \<and> (d_main s \<in> {M_Closing, M_Down} \<longrightarrow>
    all_done s \<and> d_dispatched s = d_accepted s \<and>
    mset (d_produced s) = mset (d_dispatched s) + mset (d_dropped s))"
  using validated.orderly_shutdown [OF assms] by blast

theorem orderly_run_safe_witness:
  "\<exists>s. reachable_from True loadable_probes 100 s \<and> d_main s = M_Down \<and> \<not> d_panic s \<and> all_done s \<and>
     d_dispatched s = d_accepted s"
proof -
  have "can_finish loadable_probes (daemon_init 100)"
    by (rule validated.finish_from_anywhere [OF reachable_from.initial loadable_examples(2)])
  then obtain s where s: "(step True loadable_probes)\<^sup>*\<^sup>* (daemon_init 100) s" "d_main s = M_Down"
    by (auto simp: can_finish_def)
  have r: "reachable_from True loadable_probes 100 s" by (rule reachable_path [OF s(1) reachable_from.initial])
  with orderly_run_safe [OF r] s(2) show ?thesis by blast
qed

text \<open>
  C7. Shutdown is always possible: from every state of such a run the daemon can reach the end of
  \<^verbatim>\<open>main\<close>, with every accepted result dispatched. No wait of the shutdown sequence blocks for good:
  the goroutines \<^verbatim>\<open>sched.Stop\<close> waits for can exit, and the pipeline \<^verbatim>\<open>pipe.Wait\<close> waits for can
  finish its drain.
\<close>

theorem shutdown_reachable:
  assumes "reachable_from True loadable_probes buffer s"
  shows "\<exists>t. (step True loadable_probes)\<^sup>*\<^sup>* s t \<and> d_main t = M_Down \<and> d_dispatched t = d_accepted t"
proof -
  obtain t where t: "(step True loadable_probes)\<^sup>*\<^sup>* s t" "d_main t = M_Down"
    using validated.finish_from_anywhere [OF assms loadable_examples(1)] by (auto simp: can_finish_def)
  then show ?thesis
    using validated.orderly_shutdown(2) [OF reachable_path [OF t(1) assms]] by auto
qed

theorem shutdown_reachable_witness:
  "\<exists>t. (step True loadable_probes)\<^sup>*\<^sup>* (daemon_init 100) t \<and> d_main t = M_Down"
  using shutdown_reachable [OF reachable_from.initial] by blast

text \<open>
  C8. Whatever the interleaving, with reloads at any time, results are conserved and the channel is
  first in, first out: what it accepted is what was dispatched followed by what is still buffered;
  what probes produced was accepted, dropped or is about to be sent; the buffer stays within its
  size; the channel is closed exactly when the pipeline has ended, which it does only after the
  context is cancelled. A result accepted between the last look of the drain and the close stays in
  the buffer, as the comment on \<^verbatim>\<open>Run\<close> says; C1 shows that orderly runs have none.
\<close>

theorem results_conserved:
  assumes "reachable_from serial loadable buffer s"
  shows "d_accepted s = d_dispatched s @ ch_buf (d_chan s) \<and> length (ch_buf (d_chan s)) \<le> buffer \<and>
    mset (d_produced s) = mset (d_accepted s) + mset (d_dropped s) + pending s \<and>
    (ch_closed (d_chan s) \<longleftrightarrow> d_pipe s = P_Done) \<and> (d_pipe s = P_Done \<longrightarrow> ctx_cancelled s)"
  using flow_reachable [OF assms] by (auto simp: flow_inv_def)

lemma example_factory: "probeFactory example_probe = Inr K_TCP"
  by code_simp

lemma late_example:
  "\<exists>s t u. reachable_from True loadable_probes buffer s \<and> d_main s = M_Waiting \<and> d_reload s = R_Idle \<and>
     step False loadable_probes s t \<and> d_reload t = R_Stopping [] [example_probe] \<and>
     (step False loadable_probes)\<^sup>*\<^sup>* t u \<and> d_pipe u = P_Done \<and> ch_closed (d_chan u) \<and> d_panic u"
proof -
  have "0 < pc_Interval example_probe" by (simp add: example_probe_def merged_probe_def)
  then show ?thesis by (rule late_reload [where loadable = loadable_probes, OF loadable_examples example_factory])
qed

lemma late_panic: "\<exists>s. reachable_from False loadable_probes buffer s \<and> d_panic s"
proof -
  obtain s t u where "reachable_from True loadable_probes buffer s" and st: "step False loadable_probes s t"
    and tu: "(step False loadable_probes)\<^sup>*\<^sup>* t u" and u: "d_panic u"
    using late_example by blast
  then have "reachable_from False loadable_probes buffer s" by (blast intro: reachable_serial)
  from reachable_path [OF tu reachable_from.further [OF this st]] u show ?thesis by blast
qed

theorem results_conserved_witness:
  "\<exists>s. reachable_from False loadable_probes 100 s \<and> d_panic s \<and> d_accepted s = d_dispatched s @ ch_buf (d_chan s)"
  using late_panic [of 100] results_conserved by blast

text \<open>
  C39. The condition on reloads is needed at the end: from a state of an orderly run in which
  \<^verbatim>\<open>sched.Stop\<close> has returned and main waits for the pipeline, the server, which is still up, can begin
  a reload with a valid probe set; the goroutine that it starts is stopped by nobody, the pipeline
  ends and closes the channel, and the send of that goroutine on the closed channel panics.
\<close>

theorem late_reload_panics:
  "\<exists>s t u. reachable_from True loadable_probes buffer s \<and> d_main s = M_Waiting \<and> d_reload s = R_Idle \<and>
     step False loadable_probes s t \<and> d_reload t = R_Stopping [] [example_probe] \<and>
     (step False loadable_probes)\<^sup>*\<^sup>* t u \<and> d_pipe u = P_Done \<and> ch_closed (d_chan u) \<and> d_panic u"
  by (rule late_example)

text \<open>
  C40. It is needed at the beginning as well: a reload between the start of the server and the start
  of the scheduler launches the probes once more than the map of workers knows; the first
  goroutine of the probe has not exited, is in no map and is waited for by nobody.
\<close>

theorem early_reload_leaks:
  "\<exists>s. reachable_from False loadable_probes buffer s \<and> d_main s = M_Running \<and> d_reload s = R_Idle \<and>
     WorkerCount (d_sched s) = 1 \<and> phases s = [Ph_Start, Ph_Start] \<and> \<not> owned s"
  using early_reload [where loadable = loadable_probes, OF loadable_examples(2) example_factory] .

end
